(* ===== verification/Prelude.thy ===== *)
theory Prelude
  imports Complex_Main "HOL-Library.Sublist"
begin

text \<open>
  Shared vocabulary of the development: the result type of operations that may raise,
  the Python string operations the code uses, decimal printing, and a locale for
  invariants of step relations that the components with interleavings interpret.

  Python text is modelled by \<open>string\<close>: one \<open>char\<close> is one code point in the
  range U+0000 to U+00FF, so \<open>length\<close> counts code points as Python's
  \<open>len\<close> does. The file server, which encodes text to bytes, uses lists of code
  points instead (theory \<open>FS_Server\<close>).
\<close>

section \<open>Collections of facts\<close>

named_theorems op_defs \<open>definitions of the operations of a component\<close>
named_theorems frame \<open>what an operation leaves unchanged\<close>

section \<open>Results: a value or a raised exception\<close>

fun bindr :: "'e + 'a \<Rightarrow> ('a \<Rightarrow> 'e + 'b) \<Rightarrow> 'e + 'b" where
  "bindr (Inl e) f = Inl e"
| "bindr (Inr x) f = f x"

lemma bindr_Inr_iff: "bindr r f = Inr y \<longleftrightarrow> (\<exists>x. r = Inr x \<and> f x = Inr y)"
  by (cases r) auto

lemma bindr_Inl_iff: "bindr r f = Inl e \<longleftrightarrow> r = Inl e \<or> (\<exists>x. r = Inr x \<and> f x = Inl e)"
  by (cases r) auto

lemma bindr_assoc: "bindr (bindr r f) g = bindr r (\<lambda>x. bindr (f x) g)"
  by (cases r) auto

lemma bindr_cong [fundef_cong]:
  "r = r' \<Longrightarrow> (\<And>x. r' = Inr x \<Longrightarrow> f x = g x) \<Longrightarrow> bindr r f = bindr r' g"
  by (cases r') auto

section \<open>Python strings\<close>

text \<open>The membership test \<open>w in text\<close> on strings.\<close>

fun has_infix :: "string \<Rightarrow> string \<Rightarrow> bool" where
  "has_infix w [] = (w = [])"
| "has_infix w (c # cs) = (prefix w (c # cs) \<or> has_infix w cs)"

lemma has_infix_iff: "has_infix w t \<longleftrightarrow> (\<exists>ps ss. t = ps @ w @ ss)"
proof (induction t)
  case Nil
  then show ?case by auto
next
  case (Cons c cs)
  show ?case
  proof
    assume "has_infix w (c # cs)"
    then consider "prefix w (c # cs)" | "has_infix w cs" by auto
    then show "\<exists>ps ss. c # cs = ps @ w @ ss"
    proof cases
      case 1
      then show ?thesis by (metis append_Nil prefix_def)
    next
      case 2
      with Cons show ?thesis by (metis append_Cons)
    qed
  next
    assume "\<exists>ps ss. c # cs = ps @ w @ ss"
    then obtain ps ss where eq: "c # cs = ps @ w @ ss" by blast
    show "has_infix w (c # cs)"
    proof (cases ps)
      case Nil
      with eq have "prefix w (c # cs)" by (auto simp: prefix_def)
      then show ?thesis by simp
    next
      case (Cons p ps')
      with eq have "cs = ps' @ w @ ss" by simp
      with Cons.IH show ?thesis by auto
    qed
  qed
qed

lemma has_infix_append: "has_infix w t \<Longrightarrow> has_infix w (a @ t @ b)"
  unfolding has_infix_iff by (metis append.assoc)

text \<open>\<open>str.lower\<close> on the code points U+0000 to U+00FF.\<close>

definition lower_char :: "char \<Rightarrow> char" where
  "lower_char c = (let n = (of_char c :: nat) in
     if 65 \<le> n \<and> n \<le> 90 \<or> 192 \<le> n \<and> n \<le> 222 \<and> n \<noteq> 215 then char_of (n + 32) else c)"

definition lower :: "string \<Rightarrow> string" where
  "lower s = map lower_char s"

lemma lower_append [simp]: "lower (a @ b) = lower a @ lower b"
  by (simp add: lower_def)

lemma length_lower [simp]: "length (lower s) = length s"
  by (simp add: lower_def)

lemma lower_char_idem [simp]: "lower_char (lower_char c) = lower_char c"
proof (cases "65 \<le> (of_char c :: nat) \<and> (of_char c :: nat) \<le> 90 \<or>
    192 \<le> (of_char c :: nat) \<and> (of_char c :: nat) \<le> 222 \<and> (of_char c :: nat) \<noteq> 215")
  case True
  define n where "n = (of_char c :: nat)"
  have lc: "lower_char c = char_of (n + 32)"
    using True by (simp add: lower_char_def n_def)
  have "n + 32 < 256" using True by (auto simp: n_def)
  then have "(of_char (char_of (n + 32) :: char) :: nat) = n + 32"
    by (simp add: of_char_of)
  moreover have "\<not> (65 \<le> n + 32 \<and> n + 32 \<le> 90 \<or> 192 \<le> n + 32 \<and> n + 32 \<le> 222 \<and> n + 32 \<noteq> 215)"
    using True by (auto simp: n_def)
  ultimately have "lower_char (char_of (n + 32)) = char_of (n + 32)"
    by (simp only: lower_char_def Let_def if_False)
  then show ?thesis by (simp add: lc)
next
  case False
  then have "lower_char c = c" by (auto simp: lower_char_def Let_def)
  then show ?thesis by simp
qed

lemma lower_idem [simp]: "lower (lower s) = lower s"
  by (simp add: lower_def)

text \<open>\<open>sep.join(xs)\<close>.\<close>

fun join :: "string \<Rightarrow> string list \<Rightarrow> string" where
  "join sep [] = []"
| "join sep [x] = x"
| "join sep (x # y # ys) = x @ sep @ join sep (y # ys)"

text \<open>\<open>str(n)\<close> for the non-negative integers the code prints.\<close>

fun show_nat :: "nat \<Rightarrow> string" where
  "show_nat n = (if n < 10 then [char_of (48 + n)]
     else show_nat (n div 10) @ [char_of (48 + n mod 10)])"

declare show_nat.simps [simp del]

definition show_int :: "int \<Rightarrow> string" where
  "show_int i = (if i < 0 then ''-'' @ show_nat (nat (- i)) else show_nat (nat i))"

text \<open>\<open>s.partition(sep)\<close> for a one-character separator, without the separator.\<close>

fun partition_at :: "char \<Rightarrow> string \<Rightarrow> string \<times> string" where
  "partition_at c [] = ([], [])"
| "partition_at c (x # xs) = (if x = c then ([], xs)
     else (let (a, b) = partition_at c xs in (x # a, b)))"

lemma partition_at_append:
  "c \<notin> set a \<Longrightarrow> partition_at c (a @ c # b) = (a, b)"
  by (induction a) auto

section \<open>Lists\<close>

lemma find_append:
  "find P (xs @ ys) = (case find P xs of None \<Rightarrow> find P ys | Some x \<Rightarrow> Some x)"
  by (induction xs) auto

section \<open>Sequences of requests\<close>

text \<open>Requests served one after the other on a shared state, with their answers.\<close>

fun serve_all :: "('r \<Rightarrow> 'd \<Rightarrow> 'a \<times> 'd) \<Rightarrow> 'r list \<Rightarrow> 'd \<Rightarrow> 'a list \<times> 'd" where
  "serve_all f [] d = ([], d)"
| "serve_all f (r # rs) d =
     (let (a, d') = f r d; (as, d'') = serve_all f rs d' in (a # as, d''))"

lemma serve_all_inv:
  "(\<And>r d. P d \<Longrightarrow> P (snd (f r d))) \<Longrightarrow> P d \<Longrightarrow> P (snd (serve_all f rs d))"
proof (induction rs arbitrary: d)
  case Nil
  then show ?case by simp
next
  case (Cons r rs)
  have "P (snd (f r d))" using Cons.prems by blast
  from Cons.IH [OF Cons.prems(1) this] show ?case by (simp add: split_beta)
qed

section \<open>Invariants of step relations\<close>

text \<open>
  A step relation, its start states and a predicate that holds at the start and is kept
  by every step; the predicate then holds in every state a run reaches.
\<close>

locale invariant_system =
  fixes init :: "'s \<Rightarrow> bool"
    and step :: "'s \<Rightarrow> 's \<Rightarrow> bool"
    and inv :: "'s \<Rightarrow> bool"
  assumes inv_init: "init s \<Longrightarrow> inv s"
    and inv_step: "inv s \<Longrightarrow> step s t \<Longrightarrow> inv t"
begin

lemma inv_run: "step\<^sup>*\<^sup>* s t \<Longrightarrow> inv s \<Longrightarrow> inv t"
  by (induction rule: rtranclp_induct) (auto intro: inv_step)

lemma inv_reachable: "init s \<Longrightarrow> step\<^sup>*\<^sup>* s t \<Longrightarrow> inv t"
  using inv_init inv_run by blast

end

end
