(* ===== verification/Json.thy ===== *)
theory Json
  imports Config "HOL-Library.AList"
begin

text \<open>
  JSON-like Python values (tool-call arguments, tool results), Python dicts as association
  lists in insertion order, and \<open>repr\<close> of these values, which the f-strings of the graph
  nodes embed in log lines and prompts. Printing a float is left to a parameter.
\<close>

section \<open>Values\<close>

datatype json =
    JNull
  | JBool bool
  | JInt int
  | JFloat rat
  | JStr string
  | JList "json list"
  | JObj "(string \<times> json) list"

section \<open>Dicts in insertion order\<close>

text \<open>
  \<open>d[k] = v\<close> is \<open>AList.update k v d\<close>: it overwrites in place or appends. \<open>{**d, **e}\<close>
  stores the items of \<open>e\<close> one by one.
\<close>

definition dict_merge :: "('k \<times> 'v) list \<Rightarrow> ('k \<times> 'v) list \<Rightarrow> ('k \<times> 'v) list" where
  "dict_merge d e = fold (\<lambda>(k, v). AList.update k v) e d"

lemma map_of_dict_merge_notin:
  "k \<notin> fst ` set e \<Longrightarrow> map_of (dict_merge d e) k = map_of d k"
  by (induction e arbitrary: d) (auto simp: dict_merge_def update_conv')

section \<open>\<open>repr\<close>\<close>

definition hex_digit :: "nat \<Rightarrow> char" where
  "hex_digit n = ''0123456789abcdef'' ! n"

text \<open>Code points below U+0100 that \<open>str.isprintable\<close> rejects.\<close>

definition unprintable :: "char \<Rightarrow> bool" where
  "unprintable c = (let n = (of_char c :: nat) in n < 32 \<or> 127 \<le> n \<and> n \<le> 160 \<or> n = 173)"

definition repr_char :: "char \<Rightarrow> char \<Rightarrow> string" where
  "repr_char q c =
     (if c = q \<or> c = CHR 0x5C then [CHR 0x5C, c]
      else if c = CHR 0x0A then [CHR 0x5C, CHR ''n'']
      else if c = CHR 0x0D then [CHR 0x5C, CHR ''r'']
      else if c = CHR 0x09 then [CHR 0x5C, CHR ''t'']
      else if unprintable c
        then [CHR 0x5C, CHR ''x'', hex_digit (of_char c div 16), hex_digit (of_char c mod 16)]
      else [c])"

definition repr_str :: "string \<Rightarrow> string" where
  "repr_str s = (let q = (if CHR 0x27 \<in> set s \<and> CHR 0x22 \<notin> set s then CHR 0x22 else CHR 0x27)
     in [q] @ concat (map (repr_char q) s) @ [q])"

fun repr_json :: "(rat \<Rightarrow> string) \<Rightarrow> json \<Rightarrow> string" where
  "repr_json fr JNull = ''None''"
| "repr_json fr (JBool b) = (if b then ''True'' else ''False'')"
| "repr_json fr (JInt i) = show_int i"
| "repr_json fr (JFloat x) = fr x"
| "repr_json fr (JStr s) = repr_str s"
| "repr_json fr (JList xs) = ''['' @ join '', '' (map (repr_json fr) xs) @ '']''"
| "repr_json fr (JObj ps) =
     ''{'' @ join '', '' (map (\<lambda>(k, v). repr_str k @ '': '' @ repr_json fr v) ps) @ ''}''"

end
