(* ===== verification/Graph_Runtime.thy ===== *)
theory Graph_Runtime
  imports Json
begin

text \<open>
  Messages, and the execution of a compiled graph as both graph modules use it: one node
  per superstep, until the graph ends or the permitted number of supersteps is used up,
  in which case the run raises \<open>GraphRecursionError\<close>. The limit is an argument: it is
  the number of node executions the runtime's \<open>recursion_limit\<close> allows.
\<close>

section \<open>Messages\<close>

record tool_call =
  tc_name :: string
  tc_args :: "(string \<times> json) list"
  tc_id :: string

datatype role = Human | AI | Tool_role | System

record message =
  msg_type :: role
  content :: string
  tool_calls :: "tool_call list"

definition HumanMessage :: "string \<Rightarrow> message" where
  "HumanMessage t = \<lparr>msg_type = Human, content = t, tool_calls = []\<rparr>"

definition SystemMessage :: "string \<Rightarrow> message" where
  "SystemMessage t = \<lparr>msg_type = System, content = t, tool_calls = []\<rparr>"

definition AIMessage :: "string \<Rightarrow> tool_call list \<Rightarrow> message" where
  "AIMessage t tcs = \<lparr>msg_type = AI, content = t, tool_calls = tcs\<rparr>"

lemma message_simps [simp]:
  "content (HumanMessage t) = t" "content (AIMessage t tcs) = t" "content (SystemMessage t) = t"
  "tool_calls (AIMessage t tcs) = tcs"
  by (simp_all add: HumanMessage_def AIMessage_def SystemMessage_def)

text \<open>\<open>xs[-1]\<close>: raises on an empty list.\<close>

definition last_of :: "'a list \<Rightarrow> exn + 'a" where
  "last_of xs = (if xs = [] then Inl IndexError else Inr (last xs))"

lemma last_of_snoc [simp]: "last_of (xs @ [x]) = Inr x"
  by (simp add: last_of_def)

lemma last_of_Inr: "xs \<noteq> [] \<Longrightarrow> last_of xs = Inr (last xs)"
  by (simp add: last_of_def)

section \<open>Running a graph\<close>

text \<open>
  A step returns the exception its node raised, if any, and the configuration after it.
\<close>

fun run_graph :: "('c \<Rightarrow> exn option \<times> 'c) \<Rightarrow> ('c \<Rightarrow> bool) \<Rightarrow> nat \<Rightarrow> 'c \<Rightarrow> exn option \<times> 'c" where
  "run_graph step ended 0 c =
     (if ended c then (None, c) else (Some GraphRecursionError, c))"
| "run_graph step ended (Suc k) c =
     (if ended c then (None, c)
      else (case step c of
              (Some e, c') \<Rightarrow> (Some e, c')
            | (None, c') \<Rightarrow> run_graph step ended k c'))"

lemma run_graph_ended [simp]: "ended c \<Longrightarrow> run_graph step ended k c = (None, c)"
  by (cases k) auto

lemma run_graph_result: "run_graph step ended k c = (None, c') \<Longrightarrow> ended c'"
  by (induction k arbitrary: c) (auto split: if_splits option.splits prod.splits)

lemma run_graph_more:
  "run_graph step ended k c = (None, c') \<Longrightarrow> k \<le> m \<Longrightarrow> run_graph step ended m c = (None, c')"
proof (induction k arbitrary: c m)
  case 0
  then show ?case by (cases "ended c") auto
next
  case (Suc k)
  show ?case
  proof (cases "ended c")
    case True
    with Suc.prems show ?thesis by simp
  next
    case False
    obtain m' where m: "m = Suc m'" and "k \<le> m'" using Suc.prems(2) by (cases m) auto
    with False Suc.prems(1) Suc.IH show ?thesis
      by (auto split: prod.splits option.splits)
  qed
qed

text \<open>A predicate every step keeps holds of the configuration a run ends in.\<close>

locale graph_invariant =
  fixes step :: "'c \<Rightarrow> exn option \<times> 'c"
    and ended :: "'c \<Rightarrow> bool"
    and inv :: "'c \<Rightarrow> bool"
  assumes step_inv: "inv c \<Longrightarrow> \<not> ended c \<Longrightarrow> inv (snd (step c))"
begin

lemma run_inv: "inv c \<Longrightarrow> inv (snd (run_graph step ended k c))"
proof (induction k arbitrary: c)
  case 0
  then show ?case by simp
next
  case (Suc k)
  show ?case
  proof (cases "ended c")
    case True
    with Suc.prems show ?thesis by simp
  next
    case False
    with Suc.prems have "inv (snd (step c))" by (simp add: step_inv)
    with False Suc.IH show ?thesis by (auto split: prod.splits option.splits)
  qed
qed

end

text \<open>
  A graph whose steps succeed and decrease a measure, under an invariant: a run permitted
  at least that many supersteps ends without an exception.
\<close>

locale bounded_graph =
  fixes step :: "'c \<Rightarrow> exn option \<times> 'c"
    and ended :: "'c \<Rightarrow> bool"
    and good :: "'c \<Rightarrow> bool"
    and left :: "'c \<Rightarrow> nat"
  assumes step_ok: "good c \<Longrightarrow> \<not> ended c \<Longrightarrow> fst (step c) = None"
    and step_good: "good c \<Longrightarrow> \<not> ended c \<Longrightarrow> good (snd (step c))"
    and step_left: "good c \<Longrightarrow> \<not> ended c \<Longrightarrow> left (snd (step c)) < left c"
begin

lemma run_returns:
  "good c \<Longrightarrow> left c \<le> k \<Longrightarrow>
   \<exists>c'. run_graph step ended k c = (None, c') \<and> ended c' \<and> good c'"
proof (induction k arbitrary: c)
  case 0
  then have "ended c" using step_left [of c] by (cases "ended c") auto
  with 0 show ?case by simp
next
  case (Suc k)
  show ?case
  proof (cases "ended c")
    case True
    with Suc.prems show ?thesis by simp
  next
    case False
    obtain c' where st: "step c = (None, c')"
      using step_ok [OF Suc.prems(1) False] by (cases "step c") auto
    with Suc.prems False have "good c'" and "left c' \<le> k"
      using step_good [of c] step_left [of c] by auto
    with Suc.IH [of c'] False st show ?thesis by simp
  qed
qed

end

text \<open>A graph that never ends and never raises uses up every limit.\<close>

lemma run_graph_diverges:
  assumes good: "P c" and step: "\<And>c. P c \<Longrightarrow> \<not> ended c \<and> fst (step c) = None \<and> P (snd (step c))"
  shows "\<exists>c'. run_graph step ended k c = (Some GraphRecursionError, c')"
  using good
proof (induction k arbitrary: c)
  case 0
  with step show ?case by simp
next
  case (Suc k)
  from step [OF Suc.prems] have "\<not> ended c" and "fst (step c) = None" and "P (snd (step c))"
    by auto
  with Suc.IH show ?case by (cases "step c") auto
qed

end
