(* ===== verification/Tools.thy ===== *)
theory Tools
  imports Graph_Runtime
begin

text \<open>
  The local tools of \<open>app/graph/tools.py\<close>, the tool list it assembles, and the text
  \<open>format_tool_error\<close> of \<open>app/graph/engine.py\<close> hands back to the model when a tool raises.
  The caching of the list under a lock is in theory \<open>Build_Once\<close>.
\<close>

definition get_deployment_status :: "string \<Rightarrow> string" where
  "get_deployment_status service_name =
     (case map_of [(''agent-api'', ''healthy, v1.4.2''), (''redis'', ''healthy''),
                   (''db'', ''healthy'')] service_name of
        Some s \<Rightarrow> s
      | None \<Rightarrow> ''unknown service: '' @ service_name)"

definition get_weather :: "string \<Rightarrow> string" where
  "get_weather city = ''The weather in '' @ city @ '' is 22C and sunny.''"

definition get_market_metrics :: "json \<Rightarrow> json" where
  "get_market_metrics ticker = JObj [(''ticker'', ticker), (''price'', JFloat 150),
     (''volume'', JStr ''1M''), (''status'', JStr ''LIVE'')]"

text \<open>\<open>get_market_metrics(**args)\<close>: exactly the keyword \<open>ticker\<close> is accepted.\<close>

definition call_market_metrics :: "(string \<times> json) list \<Rightarrow> exn + json" where
  "call_market_metrics args =
     (case map_of args ''ticker'' of
        Some t \<Rightarrow> (if \<forall>k \<in> fst ` set args. k = ''ticker'' then Inr (get_market_metrics t)
                   else Inl (TypeError ''unexpected keyword argument''))
      | None \<Rightarrow> Inl (TypeError ''missing argument: ticker''))"

definition local_tools :: "string list" where
  "local_tools = [''get_deployment_status'', ''execute_sandboxed_code'', ''get_weather'',
     ''get_market_metrics'']"

definition load_tools :: "exn + string list \<Rightarrow> exn + string list" where
  "load_tools remote = bindr remote (\<lambda>r. Inr (local_tools @ r))"

text \<open>
  \<open>format_tool_error\<close>. \<open>str_exn\<close> is \<open>str(exc)\<close>. A \<open>ToolInvocationError\<close> is unwrapped to its
  \<open>source\<close>; a validation error becomes one entry per bad field.
\<close>

fun error_source :: "exn \<Rightarrow> exn" where
  "error_source (ToolInvocationError e) = e"
| "error_source e = e"

definition format_field :: "string list \<times> string \<Rightarrow> string" where
  "format_field e = join ''.'' (fst e) @ '': '' @ snd e"

definition format_tool_error :: "(exn \<Rightarrow> string) \<Rightarrow> exn \<Rightarrow> string" where
  "format_tool_error str_exn exc =
     (case error_source exc of
        ValidationError es \<Rightarrow> ''Invalid arguments: '' @ join ''; '' (map format_field es) @
          ''. Fix them and call the tool again.''
      | s \<Rightarrow> ''The tool call failed: '' @ str_exn s @ ''. Fix the problem and try again.'')"

end
