(* ===== verification/Memory.thy ===== *)
theory Memory
  imports Json
begin

text \<open>
  Cross-thread semantic memory: \<open>app/memory/vector_store.py\<close>. The store keeps one
  collection of points; the embedding backend and the vector database's own operations
  are parameters, collected in the record \<open>backend\<close>.
\<close>

record point =
  point_id :: string
  vector :: "rat list"
  payload :: "(string \<times> string) list"

text \<open>Collections that exist, with their vector size, and the points of the app's one.\<close>

record memory_store =
  collections :: "(string \<times> nat) list"
  points :: "point list"

record hit =
  score :: rat
  hit_text :: "string option"
  hit_thread_id :: "string option"

record backend =
  aembed_query :: "string \<Rightarrow> exn + rat list"
  create_collection :: "memory_store \<Rightarrow> string \<Rightarrow> nat \<Rightarrow> exn + memory_store"
  upsert :: "memory_store \<Rightarrow> string \<Rightarrow> point list \<Rightarrow> exn + memory_store"
  query_points :: "memory_store \<Rightarrow> rat list \<Rightarrow> nat \<Rightarrow> string list option \<Rightarrow>
    exn + (rat \<times> point) list"

definition has_collection :: "settings \<Rightarrow> memory_store \<Rightarrow> bool" where
  "has_collection st m \<longleftrightarrow> (\<exists>c \<in> set (collections m). fst c = qdrant_collection st)"

definition ensure_collection ::
    "settings \<Rightarrow> backend \<Rightarrow> nat \<Rightarrow> memory_store \<Rightarrow> exn + memory_store" where
  "ensure_collection st b vector_size m =
     (if has_collection st m then Inr m
      else create_collection b m (qdrant_collection st) vector_size)"

text \<open>\<open>fresh_id\<close> is the \<open>uuid4\<close> drawn by the call.\<close>

definition remember ::
    "settings \<Rightarrow> backend \<Rightarrow> string \<Rightarrow> string \<Rightarrow> string \<Rightarrow> (string \<times> string) list option \<Rightarrow>
     memory_store \<Rightarrow> exn + string \<times> memory_store" where
  "remember st b fresh_id thread text metadata m =
     bindr (aembed_query b text) (\<lambda>v.
     bindr (ensure_collection st b (length v) m) (\<lambda>m'.
     bindr (upsert b m' (qdrant_collection st)
         [\<lparr>point_id = fresh_id, vector = v,
           payload = dict_merge [(''text'', text), (''thread_id'', thread)]
             (case metadata of None \<Rightarrow> [] | Some d \<Rightarrow> d)\<rparr>]) (\<lambda>m''.
     Inr (fresh_id, m''))))"

definition hit_of :: "rat \<times> point \<Rightarrow> hit" where
  "hit_of p = \<lparr>score = fst p, hit_text = map_of (payload (snd p)) ''text'',
     hit_thread_id = map_of (payload (snd p)) ''thread_id''\<rparr>"

definition search ::
    "settings \<Rightarrow> backend \<Rightarrow> memory_store \<Rightarrow> string \<Rightarrow> nat \<Rightarrow> string list option \<Rightarrow> exn + hit list" where
  "search st b m query limit thread_ids =
     bindr (aembed_query b query) (\<lambda>v.
     if \<not> has_collection st m then Inr []
     else if thread_ids = Some [] then Inr []
     else bindr (query_points b m v limit thread_ids) (\<lambda>hits. Inr (map hit_of hits)))"

section \<open>Documented behaviour of the vector database\<close>

text \<open>
  A query answers with at most \<open>limit\<close> stored points, and with a filter on the payload
  key \<open>thread_id\<close> only with points that match it. An upsert of a new id stores the point.
\<close>

definition query_law :: "backend \<Rightarrow> bool" where
  "query_law b \<longleftrightarrow> (\<forall>m v n f hs. query_points b m v n f = Inr hs \<longrightarrow>
     length hs \<le> n \<and> snd ` set hs \<subseteq> set (points m) \<and>
     (\<forall>ids. f = Some ids \<longrightarrow>
        (\<forall>p \<in> snd ` set hs. \<exists>t. map_of (payload p) ''thread_id'' = Some t \<and> t \<in> set ids)))"

definition upsert_law :: "backend \<Rightarrow> bool" where
  "upsert_law b \<longleftrightarrow> (\<forall>m c p m'. upsert b m c [p] = Inr m' \<longrightarrow>
     points m' = filter (\<lambda>q. point_id q \<noteq> point_id p) (points m) @ [p] \<and>
     collections m' = collections m)"

definition create_law :: "backend \<Rightarrow> bool" where
  "create_law b \<longleftrightarrow> (\<forall>m c n m'. create_collection b m c n = Inr m' \<longrightarrow>
     collections m' = collections m @ [(c, n)] \<and> points m' = points m)"

section \<open>What the operations promise\<close>

lemma search_hits:
  assumes law: "query_law b" and s: "search st b m q n f = Inr hs" and h: "h \<in> set hs"
  shows "\<exists>p \<in> set (points m). hit_text h = map_of (payload p) ''text'' \<and>
      hit_thread_id h = map_of (payload p) ''thread_id''"
proof -
  from s h obtain v ps where ps: "query_points b m v n f = Inr ps" and hs: "hs = map hit_of ps"
    by (auto simp: search_def bindr_Inr_iff split: if_splits)
  from law ps have "snd ` set ps \<subseteq> set (points m)" by (auto simp: query_law_def)
  with h hs show ?thesis by (force simp: hit_of_def)
qed

lemma search_scoped:
  assumes law: "query_law b" and s: "search st b m q n (Some ids) = Inr hs" and h: "h \<in> set hs"
  shows "\<exists>t. hit_thread_id h = Some t \<and> t \<in> set ids"
proof -
  from s h obtain v ps where ps: "query_points b m v n (Some ids) = Inr ps"
      and hs: "hs = map hit_of ps"
    by (auto simp: search_def bindr_Inr_iff split: if_splits)
  from law ps have "\<forall>p \<in> snd ` set ps. \<exists>t. map_of (payload p) ''thread_id'' = Some t \<and> t \<in> set ids"
    unfolding query_law_def by blast
  with h hs show ?thesis by (auto simp: hit_of_def)
qed

lemma search_limit:
  "query_law b \<Longrightarrow> search st b m q n f = Inr hs \<Longrightarrow> length hs \<le> n"
  by (auto simp: search_def bindr_Inr_iff query_law_def split: if_splits)

lemma search_no_threads: "search st b m q n (Some []) \<in> {Inr []} \<union> range Inl"
  by (cases "aembed_query b q") (auto simp: search_def)

lemma remember_stores:
  assumes law: "upsert_law b" "create_law b" and r: "remember st b i t x None m = Inr (j, m')"
  shows "j = i \<and> (\<exists>v. last (points m') = \<lparr>point_id = i, vector = v,
      payload = [(''text'', x), (''thread_id'', t)]\<rparr> \<and>
      set (points m) \<subseteq> set (points m') \<union> {p. point_id p = i})"
proof -
  from r obtain v m1 where j: "j = i"
      and e: "ensure_collection st b (length v) m = Inr m1"
      and u: "upsert b m1 (qdrant_collection st) [\<lparr>point_id = i, vector = v,
           payload = [(''text'', x), (''thread_id'', t)]\<rparr>] = Inr m'"
    by (auto simp: remember_def bindr_Inr_iff dict_merge_def)
  from e law(2) have "points m1 = points m"
    by (auto simp: ensure_collection_def create_law_def split: if_splits)
  with u law(1) have "points m' = filter (\<lambda>q. point_id q \<noteq> i) (points m) @
      [\<lparr>point_id = i, vector = v, payload = [(''text'', x), (''thread_id'', t)]\<rparr>]"
    unfolding upsert_law_def by fastforce
  with j show ?thesis by auto
qed

end
