(* ===== verification/Ownership.thy ===== *)
theory Ownership
  imports Config
begin

text \<open>
  Thread ownership: the table \<open>thread_ownership\<close> (\<open>app/models.py\<close>), the operations of
  \<open>app/graph/ownership.py\<close> on it, and the session dependency of \<open>app/database.py\<close> that
  commits or rolls back around a request handler. The interface \<open>ownership_store\<close> states
  what the routes and the retrieval node rely on; the model interprets it. The last
  section interleaves the two SQL statements of concurrent first touches.
\<close>

section \<open>The table\<close>

record thread_ownership =
  thread_id :: string
  owner_username :: string

type_synonym ownership_rows = "thread_ownership list"

text \<open>\<open>INSERT ... ON CONFLICT (thread_id) DO NOTHING\<close>.\<close>

definition insert_on_conflict_do_nothing ::
    "thread_ownership \<Rightarrow> ownership_rows \<Rightarrow> ownership_rows" where
  "insert_on_conflict_do_nothing r rows =
     (if thread_id r \<in> set (map thread_id rows) then rows else rows @ [r])"

text \<open>\<open>SELECT owner_username WHERE thread_id = t\<close>, as a scalar.\<close>

definition select_owner :: "string \<Rightarrow> ownership_rows \<Rightarrow> string option" where
  "select_owner t rows = map_option owner_username (find (\<lambda>r. thread_id r = t) rows)"

section \<open>The operations of ownership.py\<close>

definition is_admin :: "settings \<Rightarrow> string \<Rightarrow> bool" where
  "is_admin st username \<longleftrightarrow> username = demo_username st"

definition claim_or_check ::
    "settings \<Rightarrow> string \<Rightarrow> string \<Rightarrow> ownership_rows \<Rightarrow> bool \<times> ownership_rows" where
  "claim_or_check st t username rows =
     (if is_admin st username then (True, rows)
      else (let rows' = insert_on_conflict_do_nothing
                  \<lparr>thread_id = t, owner_username = username\<rparr> rows
            in (select_owner t rows' = Some username, rows')))"

definition owned_thread_ids :: "ownership_rows \<Rightarrow> string \<Rightarrow> string list" where
  "owned_thread_ids rows username =
     map thread_id (filter (\<lambda>r. owner_username r = username) rows)"

text \<open>The primary key: no two rows for one thread.\<close>

definition rows_ok :: "ownership_rows \<Rightarrow> bool" where
  "rows_ok rows \<longleftrightarrow> distinct (map thread_id rows)"

section \<open>Facts about the table\<close>

lemma select_owner_append_other [simp]:
  "thread_id r \<noteq> t \<Longrightarrow> select_owner t (rows @ [r]) = select_owner t rows"
  by (auto simp: select_owner_def find_append split: option.splits)

lemma select_owner_None_iff: "select_owner t rows = None \<longleftrightarrow> t \<notin> set (map thread_id rows)"
  by (auto simp: select_owner_def find_None_iff)

lemma select_owner_append_fresh:
  "t \<notin> set (map thread_id rows) \<Longrightarrow> thread_id r = t \<Longrightarrow>
   select_owner t (rows @ [r]) = Some (owner_username r)"
  using select_owner_None_iff [of t rows]
  by (auto simp: select_owner_def find_append)

lemma select_owner_Some_iff:
  "rows_ok rows \<Longrightarrow> select_owner t rows = Some u \<longleftrightarrow>
   (\<exists>r \<in> set rows. thread_id r = t \<and> owner_username r = u)"
proof (induction rows)
  case Nil
  then show ?case by (simp add: select_owner_def)
next
  case (Cons r rows)
  have sel: "select_owner t (r # rows) =
      (if thread_id r = t then Some (owner_username r) else select_owner t rows)"
    by (simp add: select_owner_def)
  from Cons.prems have "rows_ok rows" and "thread_id r \<notin> thread_id ` set rows"
    by (auto simp: rows_ok_def)
  with Cons.IH show ?case by (cases "thread_id r = t") (auto simp: sel image_iff)
qed

lemma rows_ok_insert: "rows_ok rows \<Longrightarrow> rows_ok (insert_on_conflict_do_nothing r rows)"
  by (auto simp: rows_ok_def insert_on_conflict_do_nothing_def)

lemma select_owner_insert:
  "select_owner t (insert_on_conflict_do_nothing r rows) =
     (if t = thread_id r \<and> select_owner t rows = None then Some (owner_username r)
      else select_owner t rows)"
  unfolding insert_on_conflict_do_nothing_def
  using select_owner_append_fresh [of t rows r] select_owner_None_iff [of t rows]
  by (auto simp del: set_map)

section \<open>The interface the clients rely on\<close>

locale ownership_store =
  fixes admin :: "string \<Rightarrow> bool"
    and claim :: "string \<Rightarrow> string \<Rightarrow> 'd \<Rightarrow> bool \<times> 'd"
    and owner :: "string \<Rightarrow> 'd \<Rightarrow> string option"
    and owned :: "'d \<Rightarrow> string \<Rightarrow> string list"
    and ok :: "'d \<Rightarrow> bool"
  assumes claim_admin: "admin u \<Longrightarrow> claim t u d = (True, d)"
    and claim_granted: "\<not> admin u \<Longrightarrow> fst (claim t u d) \<longleftrightarrow> owner t (snd (claim t u d)) = Some u"
    and claim_owner: "\<not> admin u \<Longrightarrow> owner t' (snd (claim t u d)) =
          (if t' = t \<and> owner t d = None then Some u else owner t' d)"
    and claim_ok: "ok d \<Longrightarrow> ok (snd (claim t u d))"
    and owned_iff: "ok d \<Longrightarrow> t \<in> set (owned d u) \<longleftrightarrow> owner t d = Some u"
begin

lemma owner_kept: "owner t d = Some u \<Longrightarrow> owner t (snd (claim t' u' d)) = Some u"
  by (cases "admin u'") (auto simp: claim_admin claim_owner)

text \<open>A history of admin-route requests \<open>(thread, user)\<close> keeps every owner and the key.\<close>

lemma history_owner_kept:
  "owner t d = Some u \<Longrightarrow> owner t (snd (serve_all (\<lambda>(t, u). claim t u) rs d)) = Some u"
  by (rule serve_all_inv [where P = "\<lambda>d. owner t d = Some u"]) (auto intro: owner_kept)

lemma history_ok: "ok d \<Longrightarrow> ok (snd (serve_all (\<lambda>(t, u). claim t u) rs d))"
  by (rule serve_all_inv) (auto intro: claim_ok)

lemma granted_owner: "fst (claim t u d) \<Longrightarrow> \<not> admin u \<Longrightarrow> owner t (snd (claim t u d)) = Some u"
  by (simp add: claim_granted)

lemma first_claim: "owner t d = None \<Longrightarrow> fst (claim t u d)"
  by (cases "admin u") (auto simp: claim_admin claim_granted claim_owner)

lemma denied_iff: "\<not> fst (claim t u d) \<longleftrightarrow> \<not> admin u \<and> (\<exists>v. owner t d = Some v \<and> v \<noteq> u)"
  by (cases "admin u"; cases "owner t d") (auto simp: claim_admin claim_granted claim_owner)

lemma exclusive:
  assumes g: "fst (claim t u d)" and na: "\<not> admin u" "\<not> admin v"
    and v: "fst (claim t v (snd (serve_all (\<lambda>(t, u). claim t u) rs (snd (claim t u d)))))"
  shows "v = u"
proof -
  from g na have "owner t (snd (claim t u d)) = Some u" by (simp add: granted_owner)
  then have "owner t (snd (serve_all (\<lambda>(t, u). claim t u) rs (snd (claim t u d)))) = Some u"
    by (rule history_owner_kept)
  with v na(2) show ?thesis using denied_iff by fastforce
qed

lemma owned_disjoint: "ok d \<Longrightarrow> u \<noteq> v \<Longrightarrow> set (owned d u) \<inter> set (owned d v) = {}"
  by (auto simp: owned_iff)

end

interpretation own: ownership_store "is_admin st" "claim_or_check st" select_owner
    owned_thread_ids rows_ok for st
proof
  fix u t t' d
  show "is_admin st u \<Longrightarrow> claim_or_check st t u d = (True, d)"
    by (simp add: claim_or_check_def)
  show "\<not> is_admin st u \<Longrightarrow> fst (claim_or_check st t u d) \<longleftrightarrow>
      select_owner t (snd (claim_or_check st t u d)) = Some u"
    by (simp add: claim_or_check_def Let_def)
  show "\<not> is_admin st u \<Longrightarrow> select_owner t' (snd (claim_or_check st t u d)) =
      (if t' = t \<and> select_owner t d = None then Some u else select_owner t' d)"
    by (auto simp: claim_or_check_def Let_def select_owner_insert)
  show "rows_ok d \<Longrightarrow> rows_ok (snd (claim_or_check st t u d))"
    by (auto simp: claim_or_check_def Let_def rows_ok_insert)
  show "rows_ok d \<Longrightarrow> t \<in> set (owned_thread_ids d u) \<longleftrightarrow> select_owner t d = Some u"
    by (auto simp: owned_thread_ids_def select_owner_Some_iff)
qed

section \<open>The session around a handler: \<open>get_db\<close>\<close>

text \<open>
  The dependency yields a session to the handler, commits when the handler returns,
  and rolls back and re-raises when the handler or the commit raises. \<open>commit\<close> is the
  database's answer to the commit: \<open>None\<close> for success.
\<close>

definition get_db ::
    "('d \<Rightarrow> exn option) \<Rightarrow> ('d \<Rightarrow> (exn + 'a) \<times> 'd) \<Rightarrow> 'd \<Rightarrow> (exn + 'a) \<times> 'd" where
  "get_db commit handler d =
     (case handler d of
        (Inl e, d') \<Rightarrow> (Inl e, d)
      | (Inr a, d') \<Rightarrow> (case commit d' of None \<Rightarrow> (Inr a, d') | Some e \<Rightarrow> (Inl e, d)))"

lemma get_db_rollback: "fst (get_db commit h d) = Inl e \<Longrightarrow> snd (get_db commit h d) = d"
  by (auto simp: get_db_def split: sum.splits option.splits prod.splits)

lemma get_db_commit:
  "fst (get_db commit h d) = Inr a \<Longrightarrow> h d = (Inr a, snd (get_db commit h d))"
  by (auto simp: get_db_def split: sum.splits option.splits prod.splits)

section \<open>Concurrent first touches\<close>

text \<open>
  Several callers run \<open>claim_or_check\<close> at once. Each is one coroutine that awaits twice,
  so its \<open>INSERT\<close> and its \<open>SELECT\<close> are two atomic steps on the shared table, and any
  interleaving of the callers' steps can happen. \<open>req i\<close> is what caller \<open>i\<close> asks:
  a thread and a user name.
\<close>

datatype claim_pc = Claim_start | Claim_inserted | Claim_done bool

record claim_state =
  table :: ownership_rows
  pcs :: "nat \<Rightarrow> claim_pc"

inductive claim_step ::
    "settings \<Rightarrow> (nat \<Rightarrow> string \<times> string) \<Rightarrow> claim_state \<Rightarrow> claim_state \<Rightarrow> bool"
  for st req where
  admin: "pcs s i = Claim_start \<Longrightarrow> is_admin st (snd (req i)) \<Longrightarrow>
     claim_step st req s (s\<lparr>pcs := (pcs s)(i := Claim_done True)\<rparr>)"
| insert: "pcs s i = Claim_start \<Longrightarrow> \<not> is_admin st (snd (req i)) \<Longrightarrow>
     claim_step st req s (s\<lparr>table := insert_on_conflict_do_nothing
         \<lparr>thread_id = fst (req i), owner_username = snd (req i)\<rparr> (table s),
       pcs := (pcs s)(i := Claim_inserted)\<rparr>)"
| select: "pcs s i = Claim_inserted \<Longrightarrow>
     claim_step st req s (s\<lparr>pcs := (pcs s)(i := Claim_done
         (select_owner (fst (req i)) (table s) = Some (snd (req i))))\<rparr>)"

definition claim_init :: "claim_state \<Rightarrow> bool" where
  "claim_init s \<longleftrightarrow> rows_ok (table s) \<and> (\<forall>i. pcs s i = Claim_start)"

text \<open>
  What every reachable state satisfies: past its insert, a caller's thread has an owner,
  and a finished caller's answer says whether that owner is the caller.
\<close>

definition caller_inv :: "settings \<Rightarrow> string \<times> string \<Rightarrow> ownership_rows \<Rightarrow> claim_pc \<Rightarrow> bool" where
  "caller_inv st r rows pc = (case pc of
       Claim_start \<Rightarrow> True
     | Claim_inserted \<Rightarrow> \<not> is_admin st (snd r) \<and> select_owner (fst r) rows \<noteq> None
     | Claim_done b \<Rightarrow> is_admin st (snd r) \<or> select_owner (fst r) rows \<noteq> None \<and>
         b = (select_owner (fst r) rows = Some (snd r)))"

definition claim_inv :: "settings \<Rightarrow> (nat \<Rightarrow> string \<times> string) \<Rightarrow> claim_state \<Rightarrow> bool" where
  "claim_inv st req s \<longleftrightarrow> rows_ok (table s) \<and>
     (\<forall>i. caller_inv st (req i) (table s) (pcs s i))"

lemma caller_inv_insert:
  "caller_inv st r rows pc \<Longrightarrow> caller_inv st r (insert_on_conflict_do_nothing x rows) pc"
  by (auto simp: caller_inv_def select_owner_insert split: claim_pc.splits)

lemma claim_inv_step:
  assumes inv: "claim_inv st req s" and step: "claim_step st req s s'"
  shows "claim_inv st req s'"
  using step
proof cases
  case (admin i)
  with inv show ?thesis by (auto simp: claim_inv_def caller_inv_def)
next
  case (insert i)
  have "caller_inv st (req i) (table s') Claim_inserted"
    using insert by (simp add: caller_inv_def select_owner_insert)
  with insert inv show ?thesis
    by (auto simp: claim_inv_def rows_ok_insert caller_inv_insert)
next
  case (select i)
  from inv have "caller_inv st (req i) (table s) (pcs s i)" by (simp add: claim_inv_def)
  with select have "caller_inv st (req i) (table s) (Claim_done
      (select_owner (fst (req i)) (table s) = Some (snd (req i))))"
    by (simp add: caller_inv_def)
  with select inv show ?thesis by (simp add: claim_inv_def)
qed

interpretation race: invariant_system claim_init "claim_step st req" "claim_inv st req" for st req
proof (unfold_locales, goal_cases)
  case (1 s)
  then show ?case by (simp add: claim_init_def claim_inv_def caller_inv_def)
qed (rule claim_inv_step)

text \<open>The owner of a thread that some finished or inserted caller asked for is one of the
  callers that asked for it, when the thread was unowned at the start.\<close>

definition claim_from :: "(nat \<Rightarrow> string \<times> string) \<Rightarrow> string \<Rightarrow> claim_state \<Rightarrow> bool" where
  "claim_from req t s \<longleftrightarrow>
     (\<forall>u. select_owner t (table s) = Some u \<longrightarrow>
        (\<exists>i. req i = (t, u) \<and> pcs s i \<noteq> Claim_start))"

lemma claim_from_step: "claim_from req t s \<Longrightarrow> claim_step st req s s' \<Longrightarrow> claim_from req t s'"
proof (erule claim_step.cases, goal_cases)
  case (1 s i)
  then show ?case by (fastforce simp: claim_from_def)
next
  case (2 s i)
  then show ?case
    by (fastforce simp: claim_from_def select_owner_insert split: if_splits)
next
  case (3 s i)
  then show ?case by (fastforce simp: claim_from_def)
qed

interpretation race_from: invariant_system
    "\<lambda>s. claim_init s \<and> select_owner t (table s) = None" "claim_step st req"
    "claim_from req t" for st req t
proof (unfold_locales, goal_cases)
  case (1 s)
  then show ?case by (simp add: claim_from_def)
qed (rule claim_from_step)

section \<open>Properties\<close>

text \<open>The whole effect of a claim: it is granted to the admin, to the owner and to the
  first caller on an unowned thread, and it adds a row only in the last case.\<close>

theorem claim_or_check_effect:
  "fst (claim_or_check st t u rows) =
     (is_admin st u \<or> select_owner t rows = None \<or> select_owner t rows = Some u) \<and>
   snd (claim_or_check st t u rows) =
     (if \<not> is_admin st u \<and> select_owner t rows = None
      then rows @ [\<lparr>thread_id = t, owner_username = u\<rparr>] else rows)"
proof (rule conjI)
  show "fst (claim_or_check st t u rows) =
     (is_admin st u \<or> select_owner t rows = None \<or> select_owner t rows = Some u)"
    using own.denied_iff [of st t u rows] by (cases "select_owner t rows") auto
  show "snd (claim_or_check st t u rows) = (if \<not> is_admin st u \<and> select_owner t rows = None
      then rows @ [\<lparr>thread_id = t, owner_username = u\<rparr>] else rows)"
    using select_owner_None_iff [of t rows]
    by (auto simp: claim_or_check_def Let_def insert_on_conflict_do_nothing_def)
qed

text \<open>Ownership is exclusive and permanent: once a user other than the admin was granted a
  thread, no later history of requests lets a different one through.\<close>

theorem granted_thread_is_exclusive:
  assumes "fst (claim_or_check st t u rows)" and "\<not> is_admin st u" and "\<not> is_admin st v"
    and "v \<noteq> u"
  shows "\<not> fst (claim_or_check st t v
      (snd (serve_all (\<lambda>(t, u). claim_or_check st t u) rs (snd (claim_or_check st t u rows)))))"
  using assms own.exclusive by blast

theorem granted_thread_is_exclusive_witness:
  "\<not> fst (claim_or_check default_settings ''t1'' ''bob''
      (snd (serve_all (\<lambda>(t, u). claim_or_check default_settings t u)
         [(''t1'', ''bob''), (''t2'', ''bob''), (''t1'', ''carol'')]
         (snd (claim_or_check default_settings ''t1'' ''alice'' [])))))"
  by (rule granted_thread_is_exclusive)
    (simp_all add: claim_or_check_def is_admin_def default_settings_def
      insert_on_conflict_do_nothing_def select_owner_def)

text \<open>Concurrent first touches of an unowned thread have exactly one winner: when a caller
  has its answer, the thread's owner is one of the callers that asked for it, and the answer
  is yes exactly when that owner is the caller. No interleaving grants the thread twice.\<close>

theorem concurrent_claims_one_winner:
  assumes "claim_init s0" and "select_owner t (table s0) = None"
    and "(claim_step st req)\<^sup>*\<^sup>* s0 s"
    and "fst (req i) = t" and "\<not> is_admin st (snd (req i))" and "pcs s i = Claim_done b"
  shows "\<exists>u j. select_owner t (table s) = Some u \<and> req j = (t, u) \<and> (b \<longleftrightarrow> snd (req i) = u)"
proof -
  from race.inv_reachable [OF assms(1,3)] have "caller_inv st (req i) (table s) (Claim_done b)"
    using assms(6) by (metis claim_inv_def)
  with assms(4,5) obtain u where u: "select_owner t (table s) = Some u" "b \<longleftrightarrow> snd (req i) = u"
    by (auto simp: caller_inv_def)
  from race_from.inv_reachable [OF _ assms(3), of t] assms(1,2) have "claim_from req t s" by simp
  with u(1) obtain j where "req j = (t, u)" by (auto simp: claim_from_def)
  with u show ?thesis by blast
qed

theorem concurrent_claims_one_winner_witness:
  "\<exists>s u j. (claim_step default_settings (\<lambda>i. (''t'', if i = 0 then ''alice'' else ''bob'')))\<^sup>*\<^sup>*
      \<lparr>table = [], pcs = (\<lambda>i. Claim_start)\<rparr> s \<and> pcs s 0 = Claim_done True \<and>
    select_owner ''t'' (table s) = Some u \<and>
    (''t'', if j = (0::nat) then ''alice'' else ''bob'') = (''t'', u)"
proof -
  let ?req = "\<lambda>i::nat. (''t'', if i = 0 then ''alice'' else ''bob'')"
  let ?s0 = "\<lparr>table = [], pcs = (\<lambda>i. Claim_start)\<rparr>"
  let ?s1 = "\<lparr>table = [\<lparr>thread_id = ''t'', owner_username = ''alice''\<rparr>],
    pcs = (\<lambda>i. Claim_start)(0 := Claim_inserted)\<rparr>"
  let ?s2 = "\<lparr>table = [\<lparr>thread_id = ''t'', owner_username = ''alice''\<rparr>],
    pcs = (\<lambda>i. Claim_start)(0 := Claim_done True)\<rparr>"
  have "claim_step default_settings ?req ?s0 ?s1"
    using claim_step.insert [of ?s0 0 default_settings ?req]
    by (simp add: is_admin_def default_settings_def insert_on_conflict_do_nothing_def)
  moreover have "claim_step default_settings ?req ?s1 ?s2"
    using claim_step.select [of ?s1 0 default_settings ?req] by (simp add: select_owner_def)
  ultimately have run: "(claim_step default_settings ?req)\<^sup>*\<^sup>* ?s0 ?s2" by auto
  have "\<exists>u j. select_owner ''t'' (table ?s2) = Some u \<and> ?req j = (''t'', u) \<and>
      (True \<longleftrightarrow> snd (?req 0) = u)"
    by (rule concurrent_claims_one_winner [OF _ _ run])
      (simp_all add: claim_init_def rows_ok_def select_owner_def is_admin_def default_settings_def)
  with run show ?thesis by (metis fun_upd_same select_convs(2))
qed

end
