(* ===== verification/Schemas.thy ===== *)
theory Schemas
  imports Json
begin

text \<open>
  The request and response models of \<open>app/schemas/\<close>, each with the constraints its fields
  declare as a predicate. A UUID is the text of its canonical form; parsing one is the
  validation library's, so operations that need it take the parser as an argument.
\<close>

section \<open>agent_schema.py\<close>

record agent_request =
  request_id :: string
  conversation_id :: "string option"
  task_description :: string
  agent_id :: string
  priority :: int
  metadata :: "(string \<times> json) list option"

definition slug_char :: "char \<Rightarrow> bool" where
  "slug_char c = (let n = (of_char c :: nat) in
     97 \<le> n \<and> n \<le> 122 \<or> 65 \<le> n \<and> n \<le> 90 \<or> 48 \<le> n \<and> n \<le> 57 \<or>
     c = CHR ''_'' \<or> c = CHR ''-'')"

definition valid_agent_request :: "agent_request \<Rightarrow> bool" where
  "valid_agent_request r \<longleftrightarrow>
     10 \<le> length (task_description r) \<and> length (task_description r) \<le> 500 \<and>
     agent_id r \<noteq> [] \<and> list_all slug_char (agent_id r) \<and>
     1 \<le> priority r \<and> priority r \<le> 5"

record agent_response =
  resp_request_id :: string
  resp_status :: string
  resp_output :: string

text \<open>The constructor validates \<open>request_id\<close>; \<open>parse_uuid\<close> is the validation library's.\<close>

definition AgentResponse ::
    "(string \<Rightarrow> string option) \<Rightarrow> string \<Rightarrow> string \<Rightarrow> string \<Rightarrow> exn + agent_response" where
  "AgentResponse parse_uuid rid out stat =
     (case parse_uuid rid of
        Some u \<Rightarrow> Inr \<lparr>resp_request_id = u, resp_status = stat, resp_output = out\<rparr>
      | None \<Rightarrow> Inl (ValidationError [([''request_id''], ''Input should be a valid UUID'')]))"

record ask_response =
  ask_query :: string
  ask_output :: string

record history_turn =
  role_name :: string
  turn_content :: string

record conversation_history =
  conversation :: string
  turns :: "history_turn list"

datatype sentiment = Bullish | Bearish | Neutral

record investment_analysis =
  ticker :: string
  sentiment :: sentiment
  risk_score :: int
  key_drivers :: "string list"
  compliance_check :: bool

definition valid_investment_analysis :: "investment_analysis \<Rightarrow> bool" where
  "valid_investment_analysis a \<longleftrightarrow> 1 \<le> risk_score a \<and> risk_score a \<le> 10 \<and>
     3 \<le> length (key_drivers a)"

record research_report =
  topic :: string
  summary :: string
  sources_consulted :: "string list"
  confidence :: rat

definition valid_research_report :: "research_report \<Rightarrow> bool" where
  "valid_research_report r \<longleftrightarrow> 20 \<le> length (summary r) \<and> 0 \<le> confidence r \<and> confidence r \<le> 1"

record research_request =
  rr_topic :: string
  rr_thread_id :: string

definition valid_research_request :: "research_request \<Rightarrow> bool" where
  "valid_research_request r \<longleftrightarrow> 3 \<le> length (rr_topic r) \<and> length (rr_topic r) \<le> 500"

section \<open>stream.py and errors.py\<close>

record stream_event =
  phase :: string
  ev_node :: "string option"
  ev_content :: string

record error_response =
  success :: bool
  er_code :: string
  er_message :: string
  er_details :: details
  trace_id :: "string option"

end
