(* ===== verification/Engine.thy ===== *)
theory Engine
  imports Tools Memory Ownership Schemas
begin

text \<open>
  The main dispatch graph, \<open>app/graph/engine.py\<close>: its state and reducers, one definition
  per node, the edges, and the superstep that runs a node, merges its update into the
  state and follows the edge. The language models, the tool node and the library's message
  reducer are parameters, collected in \<open>run_env\<close>; the properties of the graph are in
  theory \<open>Engine_Props\<close>.
\<close>

section \<open>State and reducers\<close>

definition merge_logs :: "string list option \<Rightarrow> string list \<Rightarrow> string list" where
  "merge_logs existing upd =
     (let base = (case existing of None \<Rightarrow> [] | Some e \<Rightarrow> e)
      in base @ filter (\<lambda>line. line \<notin> set base) upd)"

datatype route = Technical | Billing | General | Investment

fun route_name :: "route \<Rightarrow> string" where
  "route_name Technical = ''technical''"
| "route_name Billing = ''billing''"
| "route_name General = ''general''"
| "route_name Investment = ''investment''"

text \<open>\<open>GraphState\<close>: a key no node has written yet is \<open>None\<close>.\<close>

record graph_state =
  messages :: "message list"
  status :: "string option"
  internal_logs :: "string list option"
  route_to :: "route option"
  revision_count :: "int option"
  critique :: "string option"
  retrieved_context :: "string list option"
  tool_result :: "json option"
  analysis :: "investment_analysis option option"

definition empty_state :: graph_state where
  "empty_state = \<lparr>messages = [], status = None, internal_logs = None, route_to = None,
     revision_count = None, critique = None, retrieved_context = None, tool_result = None,
     analysis = None\<rparr>"

text \<open>The dict a node returns: the keys it updates. \<open>no_update\<close> is the empty dict.\<close>

record delta =
  d_messages :: "message list"
  d_status :: "string option"
  d_logs :: "string list"
  d_route_to :: "route option"
  d_revision_count :: "int option"
  d_critique :: "string option"
  d_retrieved_context :: "string list option"
  d_tool_result :: "json option"
  d_analysis :: "investment_analysis option option"

definition no_update :: delta where
  "no_update = \<lparr>d_messages = [], d_status = None, d_logs = [], d_route_to = None,
     d_revision_count = None, d_critique = None, d_retrieved_context = None,
     d_tool_result = None, d_analysis = None\<rparr>"

definition overwrite :: "'a option \<Rightarrow> 'a option \<Rightarrow> 'a option" where
  "overwrite old new = (case new of None \<Rightarrow> old | Some v \<Rightarrow> Some v)"

text \<open>
  Merging an update: \<open>add_messages\<close> on \<open>messages\<close>, \<open>merge_logs\<close> on \<open>internal_logs\<close>, the
  keys without a reducer are overwritten.
\<close>

definition apply_delta ::
    "(message list \<Rightarrow> message list \<Rightarrow> message list) \<Rightarrow> graph_state \<Rightarrow> delta \<Rightarrow> graph_state" where
  "apply_delta add_messages s d = \<lparr>
     messages = (if d_messages d = [] then messages s else add_messages (messages s) (d_messages d)),
     status = overwrite (status s) (d_status d),
     internal_logs = (if d_logs d = [] then internal_logs s
       else Some (merge_logs (internal_logs s) (d_logs d))),
     route_to = overwrite (route_to s) (d_route_to d),
     revision_count = overwrite (revision_count s) (d_revision_count d),
     critique = overwrite (critique s) (d_critique d),
     retrieved_context = overwrite (retrieved_context s) (d_retrieved_context d),
     tool_result = overwrite (tool_result s) (d_tool_result d),
     analysis = overwrite (analysis s) (d_analysis d)\<rparr>"

text \<open>\<open>GraphOutput\<close>: what an invocation returns.\<close>

record graph_output =
  out_messages :: "message list"
  out_status :: "string option"
  out_analysis :: "investment_analysis option option"

definition output_of :: "graph_state \<Rightarrow> graph_output" where
  "output_of s = \<lparr>out_messages = messages s, out_status = status s, out_analysis = analysis s\<rparr>"

section \<open>Runtime context and effects\<close>

text \<open>
  Nodes of the graph, the chunks a streaming caller sees, and what a run changes outside
  the graph state: the number of model calls made so far and the chunks emitted. A model
  is a function of the number of calls made before, so equal prompts may be answered
  differently.
\<close>

datatype node = Router | Memory_retriever | Agent | Tools | Billing_worker | General_worker
  | Critic | Fetch_metrics | Format_report

datatype chunk = Custom string | Update node

record world =
  calls :: nat
  stream :: "chunk list"

type_synonym llm = "nat \<Rightarrow> message list \<Rightarrow> exn + message"

record run_env =
  ctx_llm :: llm
  ctx_tool_llm :: "llm option"
  ctx_db :: "ownership_rows option"
  ctx_username :: string
  bind_tools :: "string \<Rightarrow> llm"
  with_structured_output :: "nat \<Rightarrow> string \<Rightarrow> exn + investment_analysis option"
  tool_node :: "nat \<Rightarrow> (exn \<Rightarrow> string) \<Rightarrow> message list \<Rightarrow> exn + message list"
  tools_condition :: "message list \<Rightarrow> bool"
  add_messages :: "message list \<Rightarrow> message list \<Rightarrow> message list"
  str_exn :: "exn \<Rightarrow> string"
  repr_float :: "rat \<Rightarrow> string"
  env_settings :: settings
  env_backend :: backend
  env_memory :: memory_store

type_synonym node_result = "(exn + delta) \<times> world"

definition emit :: "string \<Rightarrow> world \<Rightarrow> world" where
  "emit text w = w\<lparr>stream := stream w @ [Custom text]\<rparr>"

definition called :: "world \<Rightarrow> world" where
  "called w = w\<lparr>calls := Suc (calls w)\<rparr>"

definition nl :: string where
  "nl = [CHR 0x0A]"

definition context_block :: "string list \<Rightarrow> string" where
  "context_block facts = join nl (map (\<lambda>fact. ''- '' @ fact) facts)"

definition context_prompt :: "string list \<Rightarrow> message" where
  "context_prompt facts = SystemMessage
     (''The following are past facts recorded in other conversations, '' @
      ''not part of the current exchange. Use them only if relevant:'' @ nl @
      context_block facts)"

definition with_context :: "graph_state \<Rightarrow> message list" where
  "with_context s = (case retrieved_context s of
       None \<Rightarrow> messages s
     | Some [] \<Rightarrow> messages s
     | Some facts \<Rightarrow> context_prompt facts # messages s)"

section \<open>The nodes\<close>

text \<open>\<open>router\<close>: classify the last message by keyword, case-insensitively.\<close>

definition technical_words :: "string list" where
  "technical_words = [''deploy'', ''status'', ''error'', ''logs'', ''service'', ''balance'',
     ''account'', ''python'', ''script'', ''calculate'', ''code'']"

definition billing_words :: "string list" where
  "billing_words = [''invoice'', ''payment'', ''billing'', ''charge'']"

definition investment_words :: "string list" where
  "investment_words = [''ticker'', ''stock'', ''invest'', ''analyze'', ''shares'']"

definition classify :: "string \<Rightarrow> route" where
  "classify msg = (let text = lower msg in
     if list_ex (\<lambda>w. has_infix w text) technical_words then Technical
     else if list_ex (\<lambda>w. has_infix w text) billing_words then Billing
     else if list_ex (\<lambda>w. has_infix w text) investment_words then Investment
     else General)"

definition route_request :: "graph_state \<Rightarrow> world \<Rightarrow> node_result" where
  "route_request s w = (case last_of (messages s) of
       Inl e \<Rightarrow> (Inl e, w)
     | Inr m \<Rightarrow> (let decision = classify (content m) in
         (Inr (no_update\<lparr>d_route_to := Some decision, d_status := Some ''routed'',
                d_logs := [''router: classified as '' @ route_name decision]\<rparr>),
          emit (''routed to '' @ route_name decision) w)))"

text \<open>\<open>memory_retriever\<close>: at most two hits, restricted to the caller's threads, cut to a
  character budget at the first hit that does not fit.\<close>

definition MAX_CONTEXT_CHARS :: nat where
  "MAX_CONTEXT_CHARS = 500 * 4"

fun fit_context :: "nat \<Rightarrow> hit list \<Rightarrow> exn + string list" where
  "fit_context budget [] = Inr []"
| "fit_context budget (h # hs) = (case hit_text h of
       None \<Rightarrow> Inl (TypeError ''object of type 'NoneType' has no len()'')
     | Some text \<Rightarrow> (if length text > budget then Inr []
         else bindr (fit_context (budget - length text) hs) (\<lambda>rest. Inr (text # rest))))"

definition scoped_search :: "run_env \<Rightarrow> string \<Rightarrow> nat \<Rightarrow> exn + hit list" where
  "scoped_search env query limit =
     (if is_admin (env_settings env) (ctx_username env)
      then search (env_settings env) (env_backend env) (env_memory env) query limit None
      else (case ctx_db env of
              None \<Rightarrow> Inl (AttributeError ''scalars'')
            | Some rows \<Rightarrow> search (env_settings env) (env_backend env) (env_memory env) query limit
                (Some (owned_thread_ids rows (ctx_username env)))))"

definition retrieve_semantic_memories :: "run_env \<Rightarrow> graph_state \<Rightarrow> world \<Rightarrow> node_result" where
  "retrieve_semantic_memories env s w =
     (bindr (last_of (messages s)) (\<lambda>m.
      bindr (scoped_search env (content m) 2) (\<lambda>hits.
      bindr (fit_context MAX_CONTEXT_CHARS hits) (\<lambda>context.
      Inr (no_update\<lparr>d_retrieved_context := Some context,
             d_logs := [''memory_retriever: fetched cross-thread context'']\<rparr>)))), w)"

text \<open>\<open>agent\<close>: the tool-bound model, or the plain one when none was injected.\<close>

definition call_model :: "run_env \<Rightarrow> graph_state \<Rightarrow> world \<Rightarrow> node_result" where
  "call_model env s w =
     (let w1 = emit ''invoking model'' w;
          model = (case ctx_tool_llm env of Some t \<Rightarrow> t | None \<Rightarrow> ctx_llm env)
      in case model (calls w1) (with_context s) of
           Inl e \<Rightarrow> (Inl e, called w1)
         | Inr response \<Rightarrow>
             (Inr (no_update\<lparr>d_messages := [response], d_status := Some ''completed'',
                    d_logs := [''agent: model call complete'']\<rparr>),
              emit ''model responded'' (called w1)))"

definition billing_worker :: "run_env \<Rightarrow> graph_state \<Rightarrow> world \<Rightarrow> node_result" where
  "billing_worker env s w =
     (case ctx_llm env (calls w) (with_context s) of
        Inl e \<Rightarrow> (Inl e, called w)
      | Inr response \<Rightarrow>
          (Inr (no_update\<lparr>d_messages := [response], d_status := Some ''completed'',
                 d_logs := [''billing: model call complete'']\<rparr>), called w))"

text \<open>\<open>general\<close>: one draft; re-entered by the critic loop.\<close>

definition general_context_lines :: "graph_state \<Rightarrow> string list" where
  "general_context_lines s =
     (case retrieved_context s of
        None \<Rightarrow> [] | Some [] \<Rightarrow> []
      | Some facts \<Rightarrow> ''Relevant past facts from other conversations:'' #
          map (\<lambda>fact. ''- '' @ fact) facts) @
     (let note = (case critique s of None \<Rightarrow> [] | Some c \<Rightarrow> c) in
      if note \<noteq> [] \<and> note \<noteq> ''PASS''
      then [''Address this feedback on your last draft: '' @ note] else [])"

definition general_worker :: "run_env \<Rightarrow> graph_state \<Rightarrow> world \<Rightarrow> node_result" where
  "general_worker env s w =
     (let count = (case revision_count s of None \<Rightarrow> 0 | Some c \<Rightarrow> c);
          ctx_lines = general_context_lines s;
          prompt = (if ctx_lines = [] then messages s
                    else SystemMessage (join nl ctx_lines) # messages s)
      in case ctx_llm env (calls w) prompt of
           Inl e \<Rightarrow> (Inl e, called w)
         | Inr response \<Rightarrow>
             (Inr (no_update\<lparr>d_messages := [response], d_status := Some ''completed'',
                    d_logs := [''general: model call complete (attempt '' @
                      show_int (count + 1) @ '')''],
                    d_revision_count := Some (count + 1)\<rparr>), called w))"

text \<open>\<open>critic\<close>: grade the latest draft; a third attempt passes whatever it is.\<close>

definition GENERAL_REVISION_LIMIT :: int where
  "GENERAL_REVISION_LIMIT = 3"

definition good_draft :: "string \<Rightarrow> bool" where
  "good_draft draft \<longleftrightarrow> has_infix ''revised'' (lower draft) \<or> length draft > 90"

definition verdict_of :: "string \<Rightarrow> int \<Rightarrow> string" where
  "verdict_of draft count =
     (if good_draft draft then ''PASS''
      else if count \<ge> GENERAL_REVISION_LIMIT then ''PASS''
      else ''draft is a bare stub; add detail'')"

definition critic :: "graph_state \<Rightarrow> world \<Rightarrow> node_result" where
  "critic s w =
     (case last_of (messages s) of
        Inl e \<Rightarrow> (Inl e, w)
      | Inr m \<Rightarrow> (case revision_count s of
            None \<Rightarrow> (Inl (KeyError ''revision_count''), w)
          | Some count \<Rightarrow> (let verdict = verdict_of (content m) count in
              (Inr (no_update\<lparr>d_critique := Some verdict, d_status := Some ''critiqued'',
                     d_logs := [''critic: attempt '' @ show_int count @ '' -> '' @ verdict]\<rparr>),
               emit (''critic verdict: '' @ verdict) w))))"

text \<open>\<open>fetch_metrics\<close> and \<open>format_report\<close>: the fixed investment path.\<close>

definition fetch_market_metrics :: "run_env \<Rightarrow> graph_state \<Rightarrow> world \<Rightarrow> node_result" where
  "fetch_market_metrics env s w =
     (bindr (bind_tools env ''get_market_metrics'' (calls w) (messages s)) (\<lambda>response.
      case tool_calls response of
        [] \<Rightarrow> Inl IndexError
      | call # _ \<Rightarrow> bindr (call_market_metrics (tc_args call)) (\<lambda>result.
          Inr (no_update\<lparr>d_logs := [''fetch_market_metrics: '' @ repr_json (repr_float env) result],
                 d_tool_result := Some result\<rparr>))), called w)"

definition report_prompt :: "(rat \<Rightarrow> string) \<Rightarrow> json \<Rightarrow> string" where
  "report_prompt fr r = ''Based on these metrics: '' @ repr_json fr r @
     '', write an InvestmentAnalysis. key_drivers must list at least 3 distinct '' @
     ''market drivers - do not stop at 2.''"

definition generate_structured_report :: "run_env \<Rightarrow> graph_state \<Rightarrow> world \<Rightarrow> node_result" where
  "generate_structured_report env s w =
     (case tool_result s of
        None \<Rightarrow> (Inl (KeyError ''tool_result''), w)
      | Some r \<Rightarrow>
          (bindr (with_structured_output env (calls w) (report_prompt (repr_float env) r)) (\<lambda>report.
           Inr (no_update\<lparr>d_analysis := Some report,
                  d_logs := [''format_report: structured analysis generated'']\<rparr>)), called w))"

text \<open>\<open>tools\<close>: the library's tool node, with \<open>format_tool_error\<close> as its error handler.\<close>

definition tools_node :: "run_env \<Rightarrow> graph_state \<Rightarrow> world \<Rightarrow> node_result" where
  "tools_node env s w =
     (bindr (tool_node env (calls w) (format_tool_error (str_exn env)) (messages s)) (\<lambda>ms.
      Inr (no_update\<lparr>d_messages := ms\<rparr>)), w)"

section \<open>The edges and the superstep\<close>

definition after_memory_retriever :: "graph_state \<Rightarrow> node" where
  "after_memory_retriever s =
     (if route_to s = Some Technical then Agent
      else if route_to s = Some Billing then Billing_worker
      else if route_to s = Some Investment then Fetch_metrics
      else General_worker)"

definition after_critic :: "graph_state \<Rightarrow> exn + node option" where
  "after_critic s = (case critique s of
       None \<Rightarrow> Inl (KeyError ''critique'')
     | Some c \<Rightarrow> if c = ''PASS'' then Inr None else Inr (Some General_worker))"

text \<open>The declared edges: \<open>None\<close> is \<open>END\<close>.\<close>

fun next_node :: "run_env \<Rightarrow> node \<Rightarrow> graph_state \<Rightarrow> exn + node option" where
  "next_node env Router s = Inr (Some Memory_retriever)"
| "next_node env Memory_retriever s = Inr (Some (after_memory_retriever s))"
| "next_node env Agent s = Inr (if tools_condition env (messages s) then Some Tools else None)"
| "next_node env Tools s = Inr (Some Agent)"
| "next_node env Billing_worker s = Inr None"
| "next_node env General_worker s = Inr (Some Critic)"
| "next_node env Critic s = after_critic s"
| "next_node env Fetch_metrics s = Inr (Some Format_report)"
| "next_node env Format_report s = Inr None"

fun run_node :: "run_env \<Rightarrow> node \<Rightarrow> graph_state \<Rightarrow> world \<Rightarrow> node_result" where
  "run_node env Router s w = route_request s w"
| "run_node env Memory_retriever s w = retrieve_semantic_memories env s w"
| "run_node env Agent s w = call_model env s w"
| "run_node env Tools s w = tools_node env s w"
| "run_node env Billing_worker s w = billing_worker env s w"
| "run_node env General_worker s w = general_worker env s w"
| "run_node env Critic s w = critic s w"
| "run_node env Fetch_metrics s w = fetch_market_metrics env s w"
| "run_node env Format_report s w = generate_structured_report env s w"

text \<open>A configuration: the pending node (\<open>None\<close> at the end), the state, the effects.\<close>

record config =
  pending :: "node option"
  gstate :: graph_state
  outside :: world

definition ended :: "config \<Rightarrow> bool" where
  "ended c \<longleftrightarrow> pending c = None"

definition superstep :: "run_env \<Rightarrow> config \<Rightarrow> exn option \<times> config" where
  "superstep env c = (case pending c of
       None \<Rightarrow> (None, c)
     | Some n \<Rightarrow> (case run_node env n (gstate c) (outside c) of
           (Inl e, w) \<Rightarrow> (Some e, c\<lparr>outside := w\<rparr>)
         | (Inr d, w) \<Rightarrow>
             (let s = apply_delta (add_messages env) (gstate c) d;
                  w' = w\<lparr>stream := stream w @ [Update n]\<rparr>
              in case next_node env n s of
                   Inl e \<Rightarrow> (Some e, c\<lparr>outside := w'\<rparr>)
                 | Inr n' \<Rightarrow> (None, \<lparr>pending = n', gstate = s, outside = w'\<rparr>))))"

text \<open>
  Starting a run on a thread whose latest checkpoint holds \<open>s\<close>: the input's messages are
  merged and the run enters at \<open>router\<close>.
\<close>

definition start_config :: "run_env \<Rightarrow> graph_state \<Rightarrow> message list \<Rightarrow> config" where
  "start_config env s input = \<lparr>pending = Some Router,
     gstate = apply_delta (add_messages env) s (no_update\<lparr>d_messages := input\<rparr>),
     outside = \<lparr>calls = 0, stream = []\<rparr>\<rparr>"

definition invoke_graph ::
    "run_env \<Rightarrow> nat \<Rightarrow> graph_state \<Rightarrow> message list \<Rightarrow> exn option \<times> config" where
  "invoke_graph env limit s input =
     run_graph (superstep env) ended limit (start_config env s input)"

end
