(* ===== verification/Engine_Props.thy ===== *)
theory Engine_Props
  imports Engine
begin

text \<open>
  Lemmas about the main graph: what each node may write, the invariants of a run (logs and
  messages only grow, the path a run takes), how many supersteps a run needs, and the
  critic loop. The library's documented laws used here are \<open>appends\<close> (the message reducer
  appends new messages) and \<open>tools_law\<close> (the tool edge follows pending tool calls).
\<close>

section \<open>Laws of the library parameters\<close>

definition appends :: "run_env \<Rightarrow> bool" where
  "appends env \<longleftrightarrow> (\<forall>xs ys. add_messages env xs ys = xs @ ys)"

definition tools_law :: "run_env \<Rightarrow> bool" where
  "tools_law env \<longleftrightarrow> (\<forall>ms. tools_condition env ms \<longleftrightarrow> ms \<noteq> [] \<and> tool_calls (last ms) \<noteq> [])"

section \<open>What the nodes write\<close>

lemmas node_defs = route_request_def retrieve_semantic_memories_def call_model_def
  billing_worker_def general_worker_def critic_def generate_structured_report_def tools_node_def

lemma no_update_simps [simp]:
  "d_messages no_update = []" "d_status no_update = None" "d_logs no_update = []"
  "d_route_to no_update = None" "d_revision_count no_update = None"
  "d_critique no_update = None" "d_retrieved_context no_update = None"
  "d_tool_result no_update = None" "d_analysis no_update = None"
  by (simp_all add: no_update_def)

lemma overwrite_simps [simp]: "overwrite old None = old" "overwrite old (Some v) = Some v"
  by (simp_all add: overwrite_def)

text \<open>Inversion of the forced tool call: a reply with at least one well-formed call.\<close>

lemma fetch_market_metrics_Inr:
  "fetch_market_metrics env s w = (Inr d, w') \<longleftrightarrow>
   (\<exists>resp call rest result.
      bind_tools env ''get_market_metrics'' (calls w) (messages s) = Inr resp \<and>
      tool_calls resp = call # rest \<and> call_market_metrics (tc_args call) = Inr result \<and>
      d = no_update\<lparr>d_logs := [''fetch_market_metrics: '' @ repr_json (repr_float env) result],
            d_tool_result := Some result\<rparr> \<and> w' = called w)"
  by (cases "bind_tools env ''get_market_metrics'' (calls w) (messages s)")
    (auto simp: fetch_market_metrics_def bindr_Inr_iff split: list.split)

lemma stream_emit [simp]: "stream (emit t w) = stream w @ [Custom t]"
  by (simp add: emit_def)

lemma stream_called [simp]: "stream (called w) = stream w"
  by (simp add: called_def)

lemma calls_emit [simp]: "calls (emit t w) = calls w"
  by (simp add: emit_def)

lemma calls_called [simp]: "calls (called w) = Suc (calls w)"
  by (simp add: called_def)

text \<open>A node that writes \<open>messages\<close> is a worker or the tool node; only \<open>general\<close> writes
  \<open>revision_count\<close>, only \<open>critic\<close> writes \<open>critique\<close>, only \<open>router\<close> writes \<open>route_to\<close>.\<close>

lemma node_writes:
  assumes "run_node env n s w = (Inr d, w')"
  shows "(d_messages d \<noteq> [] \<longrightarrow> n \<in> {Agent, Tools, Billing_worker, General_worker}) \<and>
    length (d_logs d) \<le> 1 \<and>
    (n \<noteq> General_worker \<longrightarrow> d_revision_count d = None) \<and>
    (n \<noteq> Critic \<longrightarrow> d_critique d = None) \<and>
    (n \<noteq> Router \<longrightarrow> d_route_to d = None) \<and>
    (n \<noteq> Fetch_metrics \<longrightarrow> d_tool_result d = None)"
  using assms
  by (cases n) (auto simp: node_defs fetch_market_metrics_Inr Let_def bindr_Inr_iff
      split: sum.splits option.splits)

section \<open>Supersteps\<close>

lemma superstep_None: "pending c = None \<Longrightarrow> superstep env c = (None, c)"
  by (simp add: superstep_def)

lemma superstep_error:
  "pending c = Some n \<Longrightarrow> fst (superstep env c) = Some e \<Longrightarrow>
   gstate (snd (superstep env c)) = gstate c \<and> pending (snd (superstep env c)) = pending c"
  by (auto simp: superstep_def Let_def split: prod.splits sum.splits)

text \<open>A successful superstep: the node's update, merged, and the edge taken.\<close>

lemma superstep_ok:
  assumes "pending c = Some n" and "superstep env c = (None, c')"
  obtains d w n' where "run_node env n (gstate c) (outside c) = (Inr d, w)"
    and "gstate c' = apply_delta (add_messages env) (gstate c) d"
    and "next_node env n (gstate c') = Inr n'" and "pending c' = n'"
    and "outside c' = w\<lparr>stream := stream w @ [Update n]\<rparr>"
  using assms by (auto simp: superstep_def Let_def split: prod.splits sum.splits)

text \<open>The state after a superstep is the old one or the old one with a node's update.\<close>

lemma superstep_state:
  assumes "\<not> ended c"
  obtains (same) "gstate (snd (superstep env c)) = gstate c"
  | (merged) n d w where "pending c = Some n"
      "run_node env n (gstate c) (outside c) = (Inr d, w)"
      "gstate (snd (superstep env c)) = apply_delta (add_messages env) (gstate c) d"
proof (cases "superstep env c")
  case (Pair e c')
  obtain n where n: "pending c = Some n" using assms by (auto simp: ended_def)
  show ?thesis
  proof (cases e)
    case None
    with Pair have "superstep env c = (None, c')" by simp
    with n show ?thesis by (rule superstep_ok) (use merged n Pair in auto)
  next
    case (Some x)
    with Pair n superstep_error [of c n env x] same show ?thesis by auto
  qed
qed

section \<open>Logs and messages only grow\<close>

lemma merge_logs_prefix: "prefix (case old of None \<Rightarrow> [] | Some l \<Rightarrow> l) (merge_logs old new)"
  by (simp add: merge_logs_def Let_def)

lemma merge_logs_distinct:
  "distinct (case old of None \<Rightarrow> [] | Some l \<Rightarrow> l) \<Longrightarrow> distinct new \<Longrightarrow> distinct (merge_logs old new)"
  by (auto simp: merge_logs_def Let_def)

definition logs_of :: "graph_state \<Rightarrow> string list" where
  "logs_of s = (case internal_logs s of None \<Rightarrow> [] | Some l \<Rightarrow> l)"

lemma logs_of_apply_delta:
  "logs_of (apply_delta am s d) =
     (if d_logs d = [] then logs_of s else merge_logs (internal_logs s) (d_logs d))"
  by (simp add: logs_of_def apply_delta_def)

lemma logs_apply_delta_prefix: "prefix (logs_of s) (logs_of (apply_delta am s d))"
  unfolding logs_of_apply_delta using merge_logs_prefix by (simp add: logs_of_def)

lemma logs_apply_delta_distinct:
  "distinct (logs_of s) \<Longrightarrow> distinct (d_logs d) \<Longrightarrow> distinct (logs_of (apply_delta am s d))"
  unfolding logs_of_apply_delta using merge_logs_distinct by (simp add: logs_of_def)

lemma distinct_short: "length xs \<le> 1 \<Longrightarrow> distinct xs"
  by (cases xs) auto

definition logs_inv :: "string list \<Rightarrow> config \<Rightarrow> bool" where
  "logs_inv base c \<longleftrightarrow> prefix base (logs_of (gstate c)) \<and>
     (distinct base \<longrightarrow> distinct (logs_of (gstate c)))"

lemma logs_inv_step:
  assumes inv: "logs_inv base c" and "\<not> ended c"
  shows "logs_inv base (snd (superstep env c))"
  using assms(2)
proof (cases rule: superstep_state [where env = env])
  case same
  with inv show ?thesis by (simp add: logs_inv_def)
next
  case (merged n d w)
  from node_writes [OF merged(2)] have "distinct (d_logs d)" by (blast intro: distinct_short)
  with inv merged(3) show ?thesis
    by (auto simp: logs_inv_def intro: logs_apply_delta_distinct
        prefix_order.trans [OF _ logs_apply_delta_prefix])
qed

interpretation logs: graph_invariant "superstep env" ended "logs_inv base" for env base
  by unfold_locales (rule logs_inv_step)

definition messages_inv :: "run_env \<Rightarrow> message list \<Rightarrow> config \<Rightarrow> bool" where
  "messages_inv env base c \<longleftrightarrow> appends env \<and> prefix base (messages (gstate c))"

lemma messages_apply_delta:
  "appends env \<Longrightarrow> messages (apply_delta (add_messages env) s d) = messages s @ d_messages d"
  by (simp add: appends_def apply_delta_def)

interpretation msgs: graph_invariant "superstep env" ended "messages_inv env base" for env base
proof (unfold_locales, goal_cases)
  case (1 c)
  from 1(2) show ?case
  proof (cases rule: superstep_state [where env = env])
    case same
    with 1 show ?thesis by (simp add: messages_inv_def)
  next
    case (merged n d w)
    with 1 show ?thesis by (auto simp: messages_inv_def messages_apply_delta)
  qed
qed

lemma start_simps [simp]:
  "pending (start_config env s input) = Some Router"
  "outside (start_config env s input) = \<lparr>calls = 0, stream = []\<rparr>"
  "logs_of (gstate (start_config env s input)) = logs_of s"
  "revision_count (gstate (start_config env s input)) = revision_count s"
  by (simp_all add: start_config_def apply_delta_def logs_of_def)

lemma start_messages:
  "appends env \<Longrightarrow> messages (gstate (start_config env s input)) = messages s @ input"
  by (simp add: start_config_def messages_apply_delta)

section \<open>The path of a run\<close>

text \<open>The nodes whose updates a streaming caller sees, in order.\<close>

fun updates :: "chunk list \<Rightarrow> node list" where
  "updates [] = []"
| "updates (Custom t # cs) = updates cs"
| "updates (Update n # cs) = n # updates cs"

lemma updates_append [simp]: "updates (xs @ ys) = updates xs @ updates ys"
  by (induction xs rule: updates.induct) auto

lemma node_stream:
  "run_node env n s w = (r, w') \<Longrightarrow> updates (stream w') = updates (stream w)"
  by (cases n) (auto simp: node_defs fetch_market_metrics_def Let_def split: sum.splits option.splits)

lemma node_edge_ok:
  "run_node env n s w = (Inr d, w') \<Longrightarrow>
   next_node env n (apply_delta am s d) \<in> range Inr"
  by (cases n) (auto simp: node_defs Let_def apply_delta_def after_critic_def
      split: sum.splits option.splits)

text \<open>Every superstep either fails in its node, leaving state, position and path, or succeeds.\<close>

lemma superstep_outcome:
  assumes p: "pending c = Some n"
  obtains (fail) e w where "superstep env c = (Some e, c\<lparr>outside := w\<rparr>)"
      and "run_node env n (gstate c) (outside c) = (Inl e, w)"
      and "updates (stream w) = updates (stream (outside c))"
  | (ok) d w n' s where "run_node env n (gstate c) (outside c) = (Inr d, w)"
      and "s = apply_delta (add_messages env) (gstate c) d"
      and "next_node env n s = Inr n'"
      and "superstep env c =
        (None, \<lparr>pending = n', gstate = s, outside = w\<lparr>stream := stream w @ [Update n]\<rparr>\<rparr>)"
      and "updates (stream w) = updates (stream (outside c))"
proof (cases "run_node env n (gstate c) (outside c)")
  case (Pair r w)
  note upd = node_stream [OF Pair]
  show ?thesis
  proof (cases r)
    case (Inl e)
    with Pair p upd fail show ?thesis by (simp add: superstep_def)
  next
    case (Inr d)
    with Pair node_edge_ok [of env n "gstate c" "outside c" d w "add_messages env"]
    obtain n' where "next_node env n (apply_delta (add_messages env) (gstate c) d) = Inr n'"
      by auto
    with Inr Pair p upd ok show ?thesis by (simp add: superstep_def Let_def)
  qed
qed

definition turns_of :: "node \<Rightarrow> node \<Rightarrow> nat \<Rightarrow> node list" where
  "turns_of a b k = concat (replicate k [a, b])"

lemma turns_of_0 [simp]: "turns_of a b 0 = []"
  by (simp add: turns_of_def)

lemma turns_of_empty [simp]: "\<exists>k. [] = turns_of a b k"
  by (rule exI [of _ 0]) simp

lemma turns_of_Suc: "turns_of a b (Suc k) = turns_of a b k @ [a, b]"
  unfolding turns_of_def by (induction k) auto

text \<open>The node sequences a completed run of each route shows; \<open>k\<close> counts the extra rounds.\<close>

fun route_path :: "route \<Rightarrow> nat \<Rightarrow> node list" where
  "route_path Technical k = [Router, Memory_retriever] @ turns_of Agent Tools k @ [Agent]"
| "route_path Billing k = [Router, Memory_retriever, Billing_worker]"
| "route_path Investment k = [Router, Memory_retriever, Fetch_metrics, Format_report]"
| "route_path General k = [Router, Memory_retriever] @ turns_of General_worker Critic (Suc k)"

fun path_at :: "string \<Rightarrow> node option \<Rightarrow> graph_state \<Rightarrow> node list \<Rightarrow> bool" where
  "path_at q None s us = (\<exists>k. us = route_path (classify q) k)"
| "path_at q (Some Router) s us =
     (us = [] \<and> (\<exists>m. last_of (messages s) = Inr m \<and> content m = q))"
| "path_at q (Some Memory_retriever) s us = (us = [Router] \<and> route_to s = Some (classify q))"
| "path_at q (Some Agent) s us = (classify q = Technical \<and>
     (\<exists>k. us = [Router, Memory_retriever] @ turns_of Agent Tools k))"
| "path_at q (Some Tools) s us = (classify q = Technical \<and>
     (\<exists>k. us = [Router, Memory_retriever] @ turns_of Agent Tools k @ [Agent]))"
| "path_at q (Some Billing_worker) s us =
     (classify q = Billing \<and> us = [Router, Memory_retriever])"
| "path_at q (Some General_worker) s us = (classify q = General \<and>
     (\<exists>k. us = [Router, Memory_retriever] @ turns_of General_worker Critic k))"
| "path_at q (Some Critic) s us = (classify q = General \<and>
     (\<exists>k. us = [Router, Memory_retriever] @ turns_of General_worker Critic k @ [General_worker]))"
| "path_at q (Some Fetch_metrics) s us =
     (classify q = Investment \<and> us = [Router, Memory_retriever])"
| "path_at q (Some Format_report) s us =
     (classify q = Investment \<and> us = [Router, Memory_retriever, Fetch_metrics])"

definition path_inv :: "string \<Rightarrow> config \<Rightarrow> bool" where
  "path_inv q c \<longleftrightarrow> path_at q (pending c) (gstate c) (updates (stream (outside c)))"

lemma route_to_apply_delta:
  "d_route_to d = None \<Longrightarrow> route_to (apply_delta am s d) = route_to s"
  by (simp add: apply_delta_def)

lemma path_at_step:
  assumes at: "path_at q (Some n) s us" and run: "run_node env n s w = (Inr d, w')"
    and next_ok: "next_node env n (apply_delta am s d) = Inr n'"
  shows "path_at q n' (apply_delta am s d) (us @ [n])"
proof (cases n)
  case Router
  with at run next_ok show ?thesis
    by (auto simp: route_request_def apply_delta_def Let_def)
next
  case Memory_retriever
  with node_writes [OF run] have "route_to (apply_delta am s d) = route_to s"
    by (simp add: route_to_apply_delta)
  with Memory_retriever at next_ok show ?thesis
    by (cases "classify q") (auto simp: after_memory_retriever_def)
next
  case Agent
  with at next_ok show ?thesis by (auto split: if_splits)
next
  case Tools
  with at next_ok show ?thesis
    by (auto simp: turns_of_Suc [symmetric])
next
  case Critic
  with at next_ok show ?thesis
    by (auto simp: after_critic_def turns_of_Suc [symmetric] split: option.splits if_splits)
qed (use at next_ok in auto)

lemma path_inv_step: "path_inv q c \<Longrightarrow> \<not> ended c \<Longrightarrow> path_inv q (snd (superstep env c))"
proof -
  assume inv: "path_inv q c" and "\<not> ended c"
  then obtain n where p: "pending c = Some n" by (auto simp: ended_def)
  then show ?thesis
  proof (cases rule: superstep_outcome [where env = env])
    case (fail e w)
    with inv p show ?thesis by (simp add: path_inv_def)
  next
    case (ok d w n' s)
    from inv p have "path_at q (Some n) (gstate c) (updates (stream (outside c)))"
      by (simp add: path_inv_def)
    from path_at_step [OF this ok(1) ok(3) [unfolded ok(2)]] ok(2,4,5)
    show ?thesis by (simp add: path_inv_def)
  qed
qed

interpretation path: graph_invariant "superstep env" ended "path_inv q" for env q
  by unfold_locales (rule path_inv_step)

section \<open>What each route leaves in the conversation\<close>

text \<open>The revision count a node reads: an unset key counts as 0.\<close>

definition rc :: "graph_state \<Rightarrow> int" where
  "rc s = (case revision_count s of None \<Rightarrow> 0 | Some c \<Rightarrow> c)"

text \<open>
  The drafts \<open>ds\<close> were all sent back: none is good, and if there was one, the count after the
  last of them was still below the limit.
\<close>

definition sent_back :: "int \<Rightarrow> message list \<Rightarrow> bool" where
  "sent_back c0 ds \<longleftrightarrow> (\<forall>d \<in> set ds. \<not> good_draft (content d)) \<and>
     (ds \<noteq> [] \<longrightarrow> c0 + int (length ds) < GENERAL_REVISION_LIMIT)"

lemma sent_back_Nil [simp]: "sent_back c0 []"
  by (simp add: sent_back_def)

definition general_result :: "message list \<Rightarrow> int \<Rightarrow> graph_state \<Rightarrow> bool" where
  "general_result base c0 s \<longleftrightarrow>
     (\<exists>ds d. messages s = base @ ds @ [d] \<and> sent_back c0 ds \<and>
        (good_draft (content d) \<or> c0 + int (length ds) + 1 \<ge> GENERAL_REVISION_LIMIT) \<and>
        revision_count s = Some (c0 + int (length ds) + 1) \<and> critique s = Some ''PASS'')"

fun talk_at :: "string \<Rightarrow> message list \<Rightarrow> int \<Rightarrow> node option \<Rightarrow> graph_state \<Rightarrow> bool" where
  "talk_at q base c0 (Some General_worker) s =
     (\<exists>ds. messages s = base @ ds \<and> rc s = c0 + int (length ds) \<and> sent_back c0 ds)"
| "talk_at q base c0 (Some Critic) s =
     (\<exists>ds d. messages s = base @ ds @ [d] \<and> sent_back c0 ds \<and>
        revision_count s = Some (c0 + int (length ds) + 1))"
| "talk_at q base c0 (Some Agent) s = prefix base (messages s)"
| "talk_at q base c0 (Some Tools) s = prefix base (messages s)"
| "talk_at q base c0 (Some n) s = (messages s = base \<and> rc s = c0)"
| "talk_at q base c0 None s = (case classify q of
     General \<Rightarrow> general_result base c0 s
   | Investment \<Rightarrow> messages s = base
   | Billing \<Rightarrow> (\<exists>d. messages s = base @ [d])
   | Technical \<Rightarrow> prefix base (messages s))"

definition talk_inv :: "run_env \<Rightarrow> string \<Rightarrow> message list \<Rightarrow> int \<Rightarrow> config \<Rightarrow> bool" where
  "talk_inv env q base c0 c \<longleftrightarrow> appends env \<and> path_inv q c \<and>
     talk_at q base c0 (pending c) (gstate c)"

lemma rc_apply_delta:
  "rc (apply_delta am s d) = (case d_revision_count d of None \<Rightarrow> rc s | Some c \<Rightarrow> c)"
  by (auto simp: rc_def apply_delta_def overwrite_def split: option.splits)

lemma general_worker_Inr:
  "general_worker env s w = (Inr d, w') \<Longrightarrow>
   \<exists>m. d_messages d = [m] \<and> d_revision_count d = Some (rc s + 1)"
  by (auto simp: general_worker_def rc_def Let_def split: sum.splits option.splits)

lemma critic_Inr:
  "critic s w = (Inr d, w') \<Longrightarrow>
   \<exists>m c. last_of (messages s) = Inr m \<and> revision_count s = Some c \<and>
     d_critique d = Some (verdict_of (content m) c) \<and> d_messages d = [] \<and> d_revision_count d = None"
  by (auto simp: critic_def Let_def split: sum.splits option.splits)

lemma verdict_PASS_iff:
  "verdict_of t c = ''PASS'' \<longleftrightarrow> good_draft t \<or> c \<ge> GENERAL_REVISION_LIMIT"
  by (simp add: verdict_of_def)

lemma sent_back_snoc:
  "sent_back c0 ds \<Longrightarrow> \<not> good_draft (content d) \<Longrightarrow>
   c0 + int (length ds) + 1 < GENERAL_REVISION_LIMIT \<Longrightarrow> sent_back c0 (ds @ [d])"
  by (auto simp: sent_back_def)

lemma talk_at_critic_step:
  assumes am: "\<And>xs ys. am xs ys = xs @ ys"
    and at: "talk_at q base c0 (Some Critic) s" and g: "classify q = General"
    and run: "critic s w = (Inr d, w')" and nxt: "after_critic (apply_delta am s d) = Inr n'"
  shows "talk_at q base c0 n' (apply_delta am s d)"
proof -
  from at obtain ds x where ms: "messages s = base @ ds @ [x]" and sb: "sent_back c0 ds"
    and rcs: "revision_count s = Some (c0 + int (length ds) + 1)" by auto
  let ?c = "c0 + int (length ds) + 1"
  let ?t = "apply_delta am s d"
  from critic_Inr [OF run] ms rcs have d: "d_critique d = Some (verdict_of (content x) ?c)"
    "d_messages d = []" "d_revision_count d = None"
    by (auto simp: last_of_def)
  have t: "messages ?t = base @ ds @ [x]" "revision_count ?t = Some ?c"
    "critique ?t = Some (verdict_of (content x) ?c)"
    using d ms rcs by (simp_all add: apply_delta_def)
  show ?thesis
  proof (cases "verdict_of (content x) ?c = ''PASS''")
    case True
    with nxt t have "n' = None" by (simp add: after_critic_def)
    moreover from True have "good_draft (content x) \<or> ?c \<ge> GENERAL_REVISION_LIMIT"
      by (simp only: verdict_PASS_iff)
    ultimately show ?thesis using t sb g True by (auto simp: general_result_def)
  next
    case False
    with nxt t have n': "n' = Some General_worker" by (simp add: after_critic_def)
    from False have "\<not> good_draft (content x)" "?c < GENERAL_REVISION_LIMIT"
      by (auto simp: verdict_PASS_iff)
    with sb have "sent_back c0 (ds @ [x])" by (simp add: sent_back_snoc)
    moreover have "rc ?t = c0 + int (length (ds @ [x]))" using t by (simp add: rc_def)
    ultimately show ?thesis using t n' by (auto intro: exI [of _ "ds @ [x]"])
  qed
qed

lemma talk_at_step:
  assumes am: "\<And>xs ys. am xs ys = xs @ ys"
    and pth: "path_at q (Some n) s us" and at: "talk_at q base c0 (Some n) s"
    and run: "run_node env n s w = (Inr d, w')"
    and nxt: "next_node env n (apply_delta am s d) = Inr n'"
  shows "talk_at q base c0 n' (apply_delta am s d)"
proof -
  have ms: "messages (apply_delta am s d) = messages s @ d_messages d"
    by (simp add: apply_delta_def am)
  note writes = node_writes [OF run]
  show ?thesis
  proof (cases n)
    case Critic
    with at pth run nxt talk_at_critic_step [OF am] show ?thesis by simp
  next
    case General_worker
    with run general_worker_Inr [of env s w d w'] obtain m where
      d: "d_messages d = [m]" "d_revision_count d = Some (rc s + 1)" by auto
    from General_worker at obtain ds where "messages s = base @ ds" "rc s = c0 + int (length ds)"
      "sent_back c0 ds" by auto
    moreover have "revision_count (apply_delta am s d) = Some (rc s + 1)"
      using d by (simp add: apply_delta_def)
    ultimately show ?thesis using General_worker nxt ms d by auto
  next
    case Memory_retriever
    with at nxt writes ms show ?thesis
      by (auto simp: after_memory_retriever_def rc_apply_delta)
  next
    case Billing_worker
    with run obtain m where "d_messages d = [m]"
      by (auto simp: billing_worker_def split: sum.splits)
    with Billing_worker at pth nxt ms show ?thesis by auto
  qed (use at pth nxt writes ms in \<open>auto simp: rc_apply_delta prefix_def split: if_splits\<close>)
qed

lemma talk_inv_step:
  assumes inv: "talk_inv env q base c0 c" and ne: "\<not> ended c"
  shows "talk_inv env q base c0 (snd (superstep env c))"
proof -
  from inv have app: "appends env" and path: "path_inv q c"
    and at: "talk_at q base c0 (pending c) (gstate c)" by (auto simp: talk_inv_def)
  from ne obtain n where p: "pending c = Some n" by (auto simp: ended_def)
  have path': "path_inv q (snd (superstep env c))" by (rule path_inv_step [OF path ne])
  from p show ?thesis
  proof (cases rule: superstep_outcome [where env = env])
    case (fail e w)
    with inv path' show ?thesis by (simp add: talk_inv_def)
  next
    case (ok d w n' s)
    have am: "\<And>xs ys. add_messages env xs ys = xs @ ys" using app by (simp add: appends_def)
    from path p have pth: "path_at q (Some n) (gstate c) (updates (stream (outside c)))"
      by (simp add: path_inv_def)
    from talk_at_step [OF am pth at [unfolded p] ok(1) ok(3) [unfolded ok(2)]] ok(2,4) app path'
    show ?thesis by (simp add: talk_inv_def)
  qed
qed

interpretation talk: graph_invariant "superstep env" ended "talk_inv env q base c0" for env q base c0
  by unfold_locales (rule talk_inv_step)

text \<open>Where a run starts, all of these invariants hold.\<close>

lemma start_path:
  "appends env \<Longrightarrow> input \<noteq> [] \<Longrightarrow> path_inv (content (last input)) (start_config env s input)"
  by (simp add: path_inv_def start_messages last_of_def)

lemma start_talk:
  "appends env \<Longrightarrow> input \<noteq> [] \<Longrightarrow>
   talk_inv env (content (last input)) (messages s @ input) (rc s) (start_config env s input)"
  by (simp add: talk_inv_def start_path start_messages rc_def)

lemma invoke_talk:
  assumes "appends env" "input \<noteq> []" "invoke_graph env k s input = (None, c)"
  shows "pending c = None" "path_inv (content (last input)) c"
    "talk_at (content (last input)) (messages s @ input) (rc s) None (gstate c)"
proof -
  show p: "pending c = None"
    using assms(3) run_graph_result by (fastforce simp: invoke_graph_def ended_def)
  have "talk_inv env (content (last input)) (messages s @ input) (rc s) c"
    using talk.run_inv [OF start_talk [OF assms(1,2), where s = s], where k = k] assms(3)
    by (simp add: invoke_graph_def)
  then show "path_inv (content (last input)) c"
    "talk_at (content (last input)) (messages s @ input) (rc s) None (gstate c)"
    using p by (auto simp: talk_inv_def)
qed

section \<open>How many supersteps a run needs\<close>

text \<open>
  The services a non-technical run uses answer: the memory search with hits that carry text,
  the plain model, the model forced to call \<open>get_market_metrics\<close>, the structured model.
\<close>

definition services_ok :: "run_env \<Rightarrow> bool" where
  "services_ok env \<longleftrightarrow>
     (\<forall>q. \<exists>hs. scoped_search env q 2 = Inr hs \<and> (\<forall>h \<in> set hs. hit_text h \<noteq> None)) \<and>
     (\<forall>n ms. \<exists>m. ctx_llm env n ms = Inr m) \<and>
     (\<forall>n ms. \<exists>m tc rest t. bind_tools env ''get_market_metrics'' n ms = Inr m \<and>
        tool_calls m = tc # rest \<and> tc_args tc = [(''ticker'', t)]) \<and>
     (\<forall>n p. \<exists>r. with_structured_output env n p = Inr r)"

text \<open>Drafts the critic loop can still ask for when the revision count is \<open>c\<close>.\<close>

definition drafts_left :: "int \<Rightarrow> nat" where
  "drafts_left c = nat (max 1 (GENERAL_REVISION_LIMIT - c))"

fun supersteps_left :: "node option \<Rightarrow> graph_state \<Rightarrow> nat" where
  "supersteps_left None s = 0"
| "supersteps_left (Some Router) s = 2 + 2 * drafts_left (rc s)"
| "supersteps_left (Some Memory_retriever) s = 1 + 2 * drafts_left (rc s)"
| "supersteps_left (Some General_worker) s = 2 * drafts_left (rc s)"
| "supersteps_left (Some Critic) s = 1 + 2 * nat (GENERAL_REVISION_LIMIT - rc s)"
| "supersteps_left (Some Fetch_metrics) s = 2"
| "supersteps_left (Some n) s = 1"

fun ready :: "node option \<Rightarrow> graph_state \<Rightarrow> bool" where
  "ready (Some Critic) s = (messages s \<noteq> [] \<and> revision_count s \<noteq> None)"
| "ready (Some Format_report) s = (messages s \<noteq> [] \<and> tool_result s \<noteq> None)"
| "ready (Some Agent) s = False"
| "ready (Some Tools) s = False"
| "ready _ s = (messages s \<noteq> [])"

definition bounded_good :: "run_env \<Rightarrow> string \<Rightarrow> config \<Rightarrow> bool" where
  "bounded_good env q c \<longleftrightarrow> appends env \<and> services_ok env \<and> classify q \<noteq> Technical \<and>
     path_inv q c \<and> ready (pending c) (gstate c)"

lemma fit_context_total:
  "\<forall>h \<in> set hs. hit_text h \<noteq> None \<Longrightarrow> \<exists>ts. fit_context b hs = Inr ts"
proof (induction hs arbitrary: b)
  case Nil
  then show ?case by simp
next
  case (Cons h hs)
  then obtain t where t: "hit_text h = Some t" by auto
  from Cons obtain ts where "fit_context (b - length t) hs = Inr ts" by fastforce
  with t show ?case by auto
qed

lemma ready_node_ok:
  assumes sv: "services_ok env" and r: "ready (Some n) s"
  shows "\<exists>d w'. run_node env n s w = (Inr d, w')"
proof -
  have ms: "\<exists>m. last_of (messages s) = Inr m"
    using r by (cases n) (auto simp: last_of_def)
  show ?thesis
  proof (cases n)
    case Memory_retriever
    from ms obtain m where m: "last_of (messages s) = Inr m" by auto
    from sv obtain hs where hs: "scoped_search env (content m) 2 = Inr hs"
      "\<forall>h \<in> set hs. hit_text h \<noteq> None" unfolding services_ok_def by blast
    from fit_context_total [OF hs(2), of MAX_CONTEXT_CHARS] m hs(1) Memory_retriever
    show ?thesis by (auto simp: retrieve_semantic_memories_def)
  next
    case Fetch_metrics
    from sv obtain m tc rest t where "bind_tools env ''get_market_metrics'' (calls w) (messages s) = Inr m"
      "tool_calls m = tc # rest" "tc_args tc = [(''ticker'', t)]" unfolding services_ok_def by blast
    with Fetch_metrics show ?thesis
      by (simp add: fetch_market_metrics_def call_market_metrics_def)
  next
    case Format_report
    with r obtain res where "tool_result s = Some res" by auto
    moreover from sv obtain rep where
      "with_structured_output env (calls w) (report_prompt (repr_float env) res) = Inr rep"
      unfolding services_ok_def by blast
    ultimately show ?thesis using Format_report by (simp add: generate_structured_report_def)
  next
    case Billing_worker
    moreover from sv obtain m where "ctx_llm env (calls w) (with_context s) = Inr m"
      unfolding services_ok_def by blast
    ultimately show ?thesis by (simp add: billing_worker_def)
  next
    case General_worker
    have "\<And>ms. \<exists>m. ctx_llm env (calls w) ms = Inr m" using sv unfolding services_ok_def by blast
    with General_worker show ?thesis by (auto simp: general_worker_def Let_def split: sum.splits)
         (metis sum.distinct(1))+
  qed (use ms r in \<open>auto simp: route_request_def critic_def Let_def\<close>)
qed

lemma drafts_left_pos: "1 \<le> drafts_left c"
  by (simp add: drafts_left_def)

lemma supersteps_left_step:
  assumes am: "\<And>xs ys. am xs ys = xs @ ys"
    and pth: "path_at q (Some n) s us" and q: "classify q \<noteq> Technical" and r: "ready (Some n) s"
    and run: "run_node env n s w = (Inr d, w')"
    and nxt: "next_node env n (apply_delta am s d) = Inr n'"
  shows "ready n' (apply_delta am s d) \<and>
    supersteps_left n' (apply_delta am s d) < supersteps_left (Some n) s"
proof -
  have ms: "messages (apply_delta am s d) = messages s @ d_messages d"
    by (simp add: apply_delta_def am)
  note writes = node_writes [OF run]
  show ?thesis
  proof (cases n)
    case Memory_retriever
    have "route_to (apply_delta am s d) = route_to s"
      using writes Memory_retriever by (simp add: route_to_apply_delta)
    with Memory_retriever pth q r nxt writes ms drafts_left_pos [of "rc s"] show ?thesis
      by (auto simp: after_memory_retriever_def rc_apply_delta)
  next
    case General_worker
    with run general_worker_Inr [of env s w d w'] obtain m where
      d: "d_messages d = [m]" "d_revision_count d = Some (rc s + 1)" by auto
    then have "revision_count (apply_delta am s d) = Some (rc s + 1)"
      by (simp add: apply_delta_def)
    with General_worker nxt ms d show ?thesis
      by (auto simp: rc_apply_delta drafts_left_def)
  next
    case Critic
    with run critic_Inr [of s w d w'] obtain m c where d: "last_of (messages s) = Inr m"
      "revision_count s = Some c" "d_critique d = Some (verdict_of (content m) c)"
      "d_messages d = []" "d_revision_count d = None" by auto
    then have t: "critique (apply_delta am s d) = Some (verdict_of (content m) c)"
      "rc (apply_delta am s d) = c" "rc s = c"
      by (auto simp: apply_delta_def rc_apply_delta rc_def)
    show ?thesis
    proof (cases "verdict_of (content m) c = ''PASS''")
      case True
      with Critic nxt t r ms d show ?thesis by (simp add: after_critic_def)
    next
      case False
      then have "c < GENERAL_REVISION_LIMIT" by (simp add: verdict_PASS_iff)
      with False Critic nxt t r ms d show ?thesis
        by (auto simp: after_critic_def drafts_left_def)
    qed
  next
    case Fetch_metrics
    with run nxt r ms show ?thesis
      by (auto simp: fetch_market_metrics_Inr apply_delta_def)
  qed (use nxt r writes ms in \<open>auto simp: rc_apply_delta\<close>)
qed

lemma bounded_step:
  assumes g: "bounded_good env q c" and ne: "\<not> ended c"
  shows "fst (superstep env c) = None" and "bounded_good env q (snd (superstep env c))"
    and "supersteps_left (pending (snd (superstep env c))) (gstate (snd (superstep env c)))
      < supersteps_left (pending c) (gstate c)"
proof -
  from g have app: "appends env" and sv: "services_ok env" and q: "classify q \<noteq> Technical"
    and path: "path_inv q c" and r: "ready (pending c) (gstate c)"
    by (auto simp: bounded_good_def)
  from ne obtain n where p: "pending c = Some n" by (auto simp: ended_def)
  have am: "\<And>xs ys. add_messages env xs ys = xs @ ys" using app by (simp add: appends_def)
  have "fst (superstep env c) = None \<and> bounded_good env q (snd (superstep env c)) \<and>
    supersteps_left (pending (snd (superstep env c))) (gstate (snd (superstep env c)))
      < supersteps_left (pending c) (gstate c)"
    using p
  proof (cases rule: superstep_outcome [where env = env])
    case (fail e w)
    with ready_node_ok [OF sv r [unfolded p], of "outside c"] show ?thesis by simp
  next
    case (ok d w n' s)
    from path p have pth: "path_at q (Some n) (gstate c) (updates (stream (outside c)))"
      by (simp add: path_inv_def)
    from supersteps_left_step [OF am pth q r [unfolded p] ok(1) ok(3) [unfolded ok(2)]]
      ok(2,4) app sv q p path_inv_step [OF path ne, of env]
    show ?thesis by (simp add: bounded_good_def)
  qed
  then show "fst (superstep env c) = None" and "bounded_good env q (snd (superstep env c))"
    and "supersteps_left (pending (snd (superstep env c))) (gstate (snd (superstep env c)))
      < supersteps_left (pending c) (gstate c)" by auto
qed

interpretation bounded: bounded_graph "superstep env" ended "bounded_good env q"
    "\<lambda>c. supersteps_left (pending c) (gstate c)" for env q
  by unfold_locales (rule bounded_step, assumption+)+

section \<open>The tool loop\<close>

text \<open>
  The technical path while the tool-bound model keeps asking for tools: no superstep ends
  the run.
\<close>

definition asks_for_tools :: "run_env \<Rightarrow> bool" where
  "asks_for_tools env \<longleftrightarrow>
     (\<forall>n ms. \<exists>m. (case ctx_tool_llm env of Some t \<Rightarrow> t | None \<Rightarrow> ctx_llm env) n ms = Inr m \<and>
        tool_calls m \<noteq> [])"

definition tool_node_total :: "run_env \<Rightarrow> bool" where
  "tool_node_total env \<longleftrightarrow> (\<forall>n f ms. \<exists>rs. tool_node env n f ms = Inr rs)"

definition looping :: "run_env \<Rightarrow> config \<Rightarrow> bool" where
  "looping env c \<longleftrightarrow> appends env \<and> tools_law env \<and> asks_for_tools env \<and> tool_node_total env \<and>
     (pending c = Some Agent \<or> pending c = Some Tools)"

lemma looping_step:
  assumes "looping env c"
  shows "\<not> ended c \<and> fst (superstep env c) = None \<and> looping env (snd (superstep env c))"
proof -
  let ?s = "gstate c" and ?w = "outside c"
  from assms have am: "add_messages env = (@)" and law: "tools_law env"
    by (auto simp: looping_def appends_def fun_eq_iff)
  from assms consider "pending c = Some Agent" | "pending c = Some Tools"
    by (auto simp: looping_def)
  then show ?thesis
  proof cases
    case 1
    let ?m = "case ctx_tool_llm env of Some t \<Rightarrow> t | None \<Rightarrow> ctx_llm env"
    from assms have "asks_for_tools env" by (simp add: looping_def)
    then obtain m where m: "?m (calls ?w) (with_context ?s) = Inr m" "tool_calls m \<noteq> []"
      unfolding asks_for_tools_def by blast
    let ?d = "no_update\<lparr>d_messages := [m], d_status := Some ''completed'',
                    d_logs := [''agent: model call complete'']\<rparr>"
    let ?w' = "emit ''model responded'' (called (emit ''invoking model'' ?w))"
    have "run_node env Agent ?s ?w = (Inr ?d, ?w')"
      using m by (simp add: call_model_def Let_def)
    moreover have "tools_condition env (messages (apply_delta (add_messages env) ?s ?d))"
      using law m by (simp add: tools_law_def apply_delta_def am)
    ultimately show ?thesis using 1 assms
      by (simp add: superstep_def Let_def looping_def ended_def)
  next
    case 2
    from assms have "tool_node_total env" by (simp add: looping_def)
    then obtain rs where "tool_node env (calls ?w) (format_tool_error (str_exn env)) (messages ?s)
        = Inr rs" unfolding tool_node_total_def by blast
    with 2 assms show ?thesis
      by (simp add: superstep_def Let_def looping_def ended_def tools_node_def)
  qed
qed

text \<open>The two supersteps every run starts with.\<close>

lemma router_superstep:
  assumes "pending c = Some Router" and "last_of (messages (gstate c)) = Inr m"
  obtains c' where "superstep env c = (None, c')" and "pending c' = Some Memory_retriever"
    and "route_to (gstate c') = Some (classify (content m))"
    and "messages (gstate c') = messages (gstate c)"
  using assms by (simp add: superstep_def route_request_def apply_delta_def Let_def)

lemma retriever_superstep:
  assumes "pending c = Some Memory_retriever" and "last_of (messages (gstate c)) = Inr m"
    and "scoped_search env (content m) 2 = Inr hs" and "\<forall>h \<in> set hs. hit_text h \<noteq> None"
  obtains c' where "superstep env c = (None, c')"
    and "pending c' = Some (after_memory_retriever (gstate c))"
proof -
  from fit_context_total [OF assms(4)] obtain ts where "fit_context MAX_CONTEXT_CHARS hs = Inr ts" ..
  with assms that show ?thesis
    by (simp add: superstep_def retrieve_semantic_memories_def apply_delta_def Let_def
        after_memory_retriever_def)
qed

section \<open>Retrieval\<close>

text \<open>The context is the longest prefix of the hits whose texts fit the budget.\<close>

lemma fit_context_spec:
  "fit_context b hs = Inr ts \<Longrightarrow>
   \<exists>n \<le> length hs. map hit_text (take n hs) = map Some ts \<and> sum_list (map length ts) \<le> b \<and>
     (n < length hs \<longrightarrow> (\<exists>t. hit_text (hs ! n) = Some t \<and> b < sum_list (map length ts) + length t))"
proof (induction hs arbitrary: b ts)
  case Nil
  then show ?case by simp
next
  case (Cons h hs)
  from Cons.prems obtain t where t: "hit_text h = Some t" by (auto split: option.splits)
  show ?case
  proof (cases "length t > b")
    case True
    with Cons.prems t show ?thesis by (auto intro: exI [of _ 0])
  next
    case False
    with Cons.prems t obtain rest where r: "fit_context (b - length t) hs = Inr rest"
      and ts: "ts = t # rest" by (auto simp: bindr_Inr_iff)
    from Cons.IH [OF r] obtain n where n: "n \<le> length hs"
      "map hit_text (take n hs) = map Some rest" "sum_list (map length rest) \<le> b - length t"
      "n < length hs \<longrightarrow> (\<exists>u. hit_text (hs ! n) = Some u \<and>
         b - length t < sum_list (map length rest) + length u)" by blast
    with t ts False show ?thesis by (intro exI [of _ "Suc n"]) auto
  qed
qed

lemma retrieve_Inr:
  "retrieve_semantic_memories env s w = (Inr d, w') \<longleftrightarrow>
   (\<exists>m hits context. last_of (messages s) = Inr m \<and> scoped_search env (content m) 2 = Inr hits \<and>
      fit_context MAX_CONTEXT_CHARS hits = Inr context \<and> w' = w \<and>
      d = no_update\<lparr>d_retrieved_context := Some context,
             d_logs := [''memory_retriever: fetched cross-thread context'']\<rparr>)"
  by (auto simp: retrieve_semantic_memories_def bindr_Inr_iff)

lemma scoped_search_owned:
  assumes "query_law (env_backend env)" and "\<not> is_admin (env_settings env) (ctx_username env)"
    and "ctx_db env = Some rows" and "rows_ok rows"
    and "scoped_search env q n = Inr hs" and "h \<in> set hs"
  shows "\<exists>p \<in> set (points (env_memory env)). \<exists>t. hit_text h = map_of (payload p) ''text'' \<and>
    map_of (payload p) ''thread_id'' = Some t \<and> select_owner t rows = Some (ctx_username env)"
proof -
  from assms(2,3,5) have s: "search (env_settings env) (env_backend env) (env_memory env) q n
      (Some (owned_thread_ids rows (ctx_username env))) = Inr hs"
    by (simp add: scoped_search_def)
  from search_hits [OF assms(1) s assms(6)] obtain p where p: "p \<in> set (points (env_memory env))"
    "hit_text h = map_of (payload p) ''text''" "hit_thread_id h = map_of (payload p) ''thread_id''"
    by blast
  from search_scoped [OF assms(1) s assms(6)] obtain t where
    t: "hit_thread_id h = Some t" "t \<in> set (owned_thread_ids rows (ctx_username env))" by blast
  from p(3) t(1) have "map_of (payload p) ''thread_id'' = Some t" by simp
  moreover from t(2) have "select_owner t rows = Some (ctx_username env)"
    by (simp only: own.owned_iff [OF assms(4)])
  ultimately show ?thesis using p(1,2) by blast
qed

section \<open>The context of a run\<close>

text \<open>After the retriever, the context in the state is what the search for the latest message
  gave; no later node touches it.\<close>

definition fetched :: "run_env \<Rightarrow> string \<Rightarrow> graph_state \<Rightarrow> bool" where
  "fetched env q s \<longleftrightarrow> (\<exists>hits ctx. scoped_search env q 2 = Inr hits \<and>
     fit_context MAX_CONTEXT_CHARS hits = Inr ctx \<and> retrieved_context s = Some ctx)"

definition context_inv :: "run_env \<Rightarrow> string \<Rightarrow> config \<Rightarrow> bool" where
  "context_inv env q c \<longleftrightarrow>
     (if pending c = Some Router \<or> pending c = Some Memory_retriever
      then \<exists>m. last_of (messages (gstate c)) = Inr m \<and> content m = q
      else fetched env q (gstate c))"

lemma node_keeps_context:
  "run_node env n s w = (Inr d, w') \<Longrightarrow> n \<noteq> Memory_retriever \<Longrightarrow>
   d_retrieved_context d = None \<and> (n = Router \<longrightarrow> d_messages d = [])"
  by (cases n) (auto simp: node_defs fetch_market_metrics_Inr Let_def bindr_Inr_iff
      split: sum.splits option.splits)

lemma next_node_range:
  "next_node env n s = Inr n' \<Longrightarrow>
   if n = Router then n' = Some Memory_retriever else n' \<noteq> Some Router \<and> n' \<noteq> Some Memory_retriever"
  by (cases n) (auto simp: after_memory_retriever_def after_critic_def split: if_splits option.splits)

lemma fetched_step:
  "fetched env q s \<Longrightarrow> d_retrieved_context d = None \<Longrightarrow> fetched env q (apply_delta am s d)"
  by (simp add: fetched_def apply_delta_def)

lemma context_inv_step:
  assumes inv: "context_inv env q c" and "\<not> ended c"
  shows "context_inv env q (snd (superstep env c))"
proof -
  from assms(2) obtain n where p: "pending c = Some n" by (auto simp: ended_def)
  then show ?thesis
  proof (cases rule: superstep_outcome [where env = env])
    case (fail e w)
    with inv p show ?thesis by (simp add: context_inv_def)
  next
    case (ok d w n' s)
    note edge = next_node_range [OF ok(3)]
    consider "n = Router" | "n = Memory_retriever" | "n \<noteq> Router" "n \<noteq> Memory_retriever" by blast
    then show ?thesis
    proof cases
      case 1
      with node_keeps_context [OF ok(1)] have "d_messages d = []" by simp
      with 1 inv p edge ok(2,4) show ?thesis by (simp add: context_inv_def apply_delta_def)
    next
      case 2
      with ok(1) inv p have "fetched env q s"
        by (auto simp: retrieve_Inr context_inv_def fetched_def ok(2) apply_delta_def)
      with 2 edge ok(4) show ?thesis by (simp add: context_inv_def)
    next
      case 3
      with inv p have "fetched env q (gstate c)" by (simp add: context_inv_def)
      with 3 node_keeps_context [OF ok(1)] have "fetched env q s"
        by (simp add: ok(2) fetched_step)
      with 3 edge ok(4) show ?thesis by (simp add: context_inv_def)
    qed
  qed
qed

interpretation cross_thread: graph_invariant "superstep env" ended "context_inv env q" for env q
  by unfold_locales (rule context_inv_step)

lemma invoke_context:
  assumes "appends env" "input \<noteq> []" "invoke_graph env k s input = (None, c)"
  shows "fetched env (content (last input)) (gstate c)"
proof -
  have "context_inv env (content (last input)) (start_config env s input)"
    by (simp add: context_inv_def start_messages [OF assms(1)] last_of_def assms(2))
  from cross_thread.run_inv [OF this, of k] have "context_inv env (content (last input)) c"
    using assms(3) by (simp add: invoke_graph_def)
  with invoke_talk(1) [OF assms] show ?thesis by (simp add: context_inv_def)
qed

end
