(* ===== verification/Engine_Claims.thy ===== *)
theory Engine_Claims
  imports Engine_Props
begin

text \<open>
  The properties of the main graph, each with a witness on a concrete environment:
  \<open>sample_env\<close> answers the n-th model call with the n-th of the given replies, appends
  messages, and keeps one remembered fact.
\<close>

section \<open>A concrete environment\<close>

definition sample_backend :: backend where
  "sample_backend = \<lparr>aembed_query = (\<lambda>t. Inr [1]),
     create_collection = (\<lambda>m c n. Inr (m\<lparr>collections := collections m @ [(c, n)]\<rparr>)),
     upsert = (\<lambda>m c ps. Inr (m\<lparr>points := points m @ ps\<rparr>)),
     query_points = (\<lambda>m v n f. Inr (take n (map (\<lambda>p. (1, p)) (filter (\<lambda>p. case f of None \<Rightarrow> True
        | Some ids \<Rightarrow> (case map_of (payload p) ''thread_id'' of None \<Rightarrow> False
            | Some t \<Rightarrow> t \<in> set ids)) (points m)))))\<rparr>"

definition sample_memory :: memory_store where
  "sample_memory = \<lparr>collections = [(''agent_memories'', 1)],
     points = [\<lparr>point_id = ''p1'', vector = [1],
       payload = [(''text'', ''the sky is blue''), (''thread_id'', ''t1'')]\<rparr>]\<rparr>"

definition sample_rows :: ownership_rows where
  "sample_rows = [\<lparr>thread_id = ''t1'', owner_username = ''alice''\<rparr>]"

definition sample_env :: "message list \<Rightarrow> run_env" where
  "sample_env replies = \<lparr>
     ctx_llm = (\<lambda>n ms. Inr (if n < length replies then replies ! n else AIMessage ''ok'' [])),
     ctx_tool_llm = None, ctx_db = Some sample_rows, ctx_username = ''alice'',
     bind_tools = (\<lambda>tool n ms. Inr (AIMessage [] [\<lparr>tc_name = tool,
        tc_args = [(''ticker'', JStr ''AAPL'')], tc_id = ''c1''\<rparr>])),
     with_structured_output = (\<lambda>n p. Inr (Some \<lparr>ticker = ''AAPL'', sentiment = Neutral,
        risk_score = 5, key_drivers = [''a'', ''b'', ''c''], compliance_check = True\<rparr>)),
     tool_node = (\<lambda>n f ms. Inr [\<lparr>msg_type = Tool_role, content = ''done'', tool_calls = []\<rparr>]),
     tools_condition = (\<lambda>ms. ms \<noteq> [] \<and> tool_calls (last ms) \<noteq> []),
     add_messages = (@), str_exn = (\<lambda>e. ''error''), repr_float = (\<lambda>x. ''150.0''),
     env_settings = default_settings, env_backend = sample_backend, env_memory = sample_memory\<rparr>"

lemma sample_appends: "appends (sample_env rs)"
  by (simp add: appends_def sample_env_def)

lemma sample_search: "scoped_search (sample_env rs) q 2 =
    Inr [\<lparr>score = 1, hit_text = Some ''the sky is blue'', hit_thread_id = Some ''t1''\<rparr>]"
  by (simp add: scoped_search_def sample_env_def is_admin_def default_settings_def search_def
      sample_backend_def sample_memory_def has_collection_def sample_rows_def
      owned_thread_ids_def hit_of_def)

lemma sample_services: "services_ok (sample_env rs)"
  unfolding services_ok_def sample_search by (auto simp: sample_env_def AIMessage_def)

lemma sample_query_law: "query_law sample_backend"
  by (auto simp: query_law_def sample_backend_def dest!: in_set_takeD split: option.splits)

lemmas sample_facts = sample_appends sample_services sample_search

lemma classify_hello [simp]: "classify ''hello'' = General"
  by code_simp

lemma classify_invest [simp]: "classify ''Should I invest in AAPL?'' = Investment"
  by code_simp

text \<open>Runs of the sample environment, with eight supersteps allowed.\<close>

definition sample_result :: "message list \<Rightarrow> graph_state \<Rightarrow> string \<Rightarrow> exn option \<times> config" where
  "sample_result rs s q = invoke_graph (sample_env rs) 8 s [HumanMessage q]"

lemma sample_general_run: "fst (sample_result [] empty_state ''hello'') = None"
  by code_simp

lemma sample_invest_run: "fst (sample_result [] empty_state ''Should I invest in AAPL?'') = None"
  by code_simp

lemma sample_run_None: "fst (sample_result rs s q) = None \<Longrightarrow>
    invoke_graph (sample_env rs) 8 s [HumanMessage q] = (None, snd (sample_result rs s q))"
  by (metis prod.collapse sample_result_def)

section \<open>Properties\<close>

text \<open>C19. Every run of the main graph that completes passes the router and the memory
  retriever exactly once and then exactly one worker path, chosen by the keywords of the
  latest message: the tool loop, one billing call, the two investment nodes, or rounds of
  draft and critique.\<close>

theorem completed_run_path:
  assumes "appends env" and "input \<noteq> []" and "invoke_graph env limit s input = (None, c)"
  shows "\<exists>k. updates (stream (outside c)) = route_path (classify (content (last input))) k"
  using invoke_talk(1,2) [OF assms] by (simp add: path_inv_def)

theorem completed_run_path_witness:
  "\<exists>c k. invoke_graph (sample_env []) 8 empty_state [HumanMessage ''hello''] = (None, c) \<and>
     updates (stream (outside c)) = route_path General k"
proof -
  note run = sample_run_None [OF sample_general_run]
  have "[HumanMessage ''hello''] \<noteq> []" by simp
  from completed_run_path [OF sample_appends this run] obtain k where
    "updates (stream (outside (snd (sample_result [] empty_state ''hello'')))) =
     route_path (classify (content (last [HumanMessage ''hello'']))) k" ..
  moreover have "content (last [HumanMessage ''hello'']) = ''hello''" by simp
  ultimately have "updates (stream (outside (snd (sample_result [] empty_state ''hello'')))) =
     route_path General k" by (simp only: classify_hello)
  with run show ?thesis by blast
qed

text \<open>C20. A general enquiry always gets an answer: with a model and a memory that answer,
  and enough supersteps for the drafts the revision limit still allows, the run completes,
  every draft but the last was a bare stub sent back by the critic, the last one is good or
  was the last attempt, the drafts are all the run adds to the conversation, and the
  critique ends as PASS.\<close>

theorem general_run_result:
  assumes "appends env" and "services_ok env" and "input \<noteq> []"
    and "classify (content (last input)) = General"
    and "2 + 2 * drafts_left (rc s) \<le> limit"
  shows "\<exists>c ds d. invoke_graph env limit s input = (None, c) \<and>
    messages (gstate c) = messages s @ input @ ds @ [d] \<and>
    (\<forall>x \<in> set ds. \<not> good_draft (content x)) \<and>
    (good_draft (content d) \<or> rc s + int (length ds) + 1 \<ge> GENERAL_REVISION_LIMIT) \<and>
    length ds + 1 \<le> drafts_left (rc s) \<and>
    revision_count (gstate c) = Some (rc s + int (length ds) + 1) \<and>
    critique (gstate c) = Some ''PASS''"
proof -
  have "bounded_good env (content (last input)) (start_config env s input)"
    using assms start_path [OF assms(1,3)] by (simp add: bounded_good_def start_messages)
  moreover have "rc (gstate (start_config env s input)) = rc s" by (simp add: rc_def)
  ultimately obtain c where c: "invoke_graph env limit s input = (None, c)"
    using bounded.run_returns [of env "content (last input)" "start_config env s input" limit]
      assms(5) by (auto simp: invoke_graph_def)
  from invoke_talk(3) [OF assms(1,3) c] assms(4)
  have "general_result (messages s @ input) (rc s) (gstate c)" by simp
  then obtain ds d where res: "messages (gstate c) = messages s @ input @ ds @ [d]"
    "sent_back (rc s) ds"
    "good_draft (content d) \<or> rc s + int (length ds) + 1 \<ge> GENERAL_REVISION_LIMIT"
    "revision_count (gstate c) = Some (rc s + int (length ds) + 1)"
    "critique (gstate c) = Some ''PASS''"
    by (auto simp: general_result_def)
  from res(2) have "length ds + 1 \<le> drafts_left (rc s)"
    by (cases ds) (auto simp: sent_back_def drafts_left_def)
  with c res show ?thesis unfolding sent_back_def by blast
qed

theorem general_run_result_witness:
  "\<exists>c ds d. invoke_graph (sample_env []) 8 empty_state [HumanMessage ''hello''] = (None, c) \<and>
    messages (gstate c) = HumanMessage ''hello'' # ds @ [d] \<and> length ds + 1 \<le> 3 \<and>
    critique (gstate c) = Some ''PASS''"
  using general_run_result [OF sample_appends sample_services, of "[HumanMessage ''hello'']"
      empty_state 8 "[]"]
  by (auto simp: rc_def empty_state_def drafts_left_def GENERAL_REVISION_LIMIT_def)

text \<open>C35. Every run off the technical path completes within \<open>2 + 2 * max(1, 3 - count)\<close>
  supersteps when the services answer, \<open>count\<close> being the thread's stored revision count:
  eight on a fresh thread, far below the runtime's default limit.\<close>

theorem nontechnical_run_returns:
  assumes "appends env" and "services_ok env" and "input \<noteq> []"
    and "classify (content (last input)) \<noteq> Technical"
    and "2 + 2 * drafts_left (rc s) \<le> limit"
  shows "fst (invoke_graph env limit s input) = None"
proof -
  have "bounded_good env (content (last input)) (start_config env s input)"
    using assms start_path [OF assms(1,3)] by (simp add: bounded_good_def start_messages)
  moreover have "rc (gstate (start_config env s input)) = rc s" by (simp add: rc_def)
  ultimately show ?thesis
    using bounded.run_returns [of env "content (last input)" "start_config env s input" limit]
      assms(5) by (auto simp: invoke_graph_def)
qed

theorem nontechnical_run_returns_witness:
  "fst (invoke_graph (sample_env []) 8 empty_state [HumanMessage ''Should I invest in AAPL?'']) = None"
  by (rule nontechnical_run_returns [OF sample_appends sample_services])
    (simp_all add: rc_def empty_state_def drafts_left_def GENERAL_REVISION_LIMIT_def)

text \<open>The revision budget is the thread's, not the run's: nothing resets the stored
  count, so on a thread whose count has reached two a general run makes one single draft
  and accepts it whatever it says.\<close>

theorem revision_budget_spent:
  assumes "appends env" and "services_ok env" and "input \<noteq> []"
    and "classify (content (last input)) = General"
    and "revision_count s = Some n" and "2 \<le> n" and "4 \<le> limit"
  shows "\<exists>c d. invoke_graph env limit s input = (None, c) \<and>
    messages (gstate c) = messages s @ input @ [d] \<and>
    critique (gstate c) = Some ''PASS'' \<and> revision_count (gstate c) = Some (n + 1)"
proof -
  from assms(5,6) have n: "rc s = n" "drafts_left (rc s) = 1"
    by (auto simp: rc_def drafts_left_def GENERAL_REVISION_LIMIT_def)
  have "bounded_good env (content (last input)) (start_config env s input)"
    using assms start_path [OF assms(1,3)] by (simp add: bounded_good_def start_messages)
  moreover have "rc (gstate (start_config env s input)) = n" using n by (simp add: rc_def)
  ultimately obtain c where c: "invoke_graph env limit s input = (None, c)"
    using bounded.run_returns [of env "content (last input)" "start_config env s input" limit]
      assms(7) n by (auto simp: invoke_graph_def)
  from invoke_talk(3) [OF assms(1,3) c] assms(4) n(1)
  have "general_result (messages s @ input) n (gstate c)" by simp
  then obtain ds d where res: "messages (gstate c) = messages s @ input @ ds @ [d]"
    "sent_back n ds" "revision_count (gstate c) = Some (n + int (length ds) + 1)"
    "critique (gstate c) = Some ''PASS''"
    by (auto simp: general_result_def)
  from res(2) assms(6) have "ds = []"
    by (cases ds) (auto simp: sent_back_def GENERAL_REVISION_LIMIT_def)
  with c res show ?thesis by auto
qed

theorem revision_budget_spent_witness:
  "\<exists>c d. invoke_graph (sample_env []) 8 (empty_state\<lparr>revision_count := Some 2\<rparr>)
      [HumanMessage ''hello''] = (None, c) \<and>
    messages (gstate c) = [HumanMessage ''hello'', d] \<and> critique (gstate c) = Some ''PASS''"
  using revision_budget_spent [OF sample_appends sample_services, of "[HumanMessage ''hello'']"
      "empty_state\<lparr>revision_count := Some 2\<rparr>" 2 8 "[]"]
  by (auto simp: empty_state_def)

text \<open>A run on the investment path adds no message: the last message of its output is
  the caller's own question.\<close>

theorem investment_run_adds_no_message:
  assumes "appends env" and "input \<noteq> []" and "classify (content (last input)) = Investment"
    and "invoke_graph env limit s input = (None, c)"
  shows "out_messages (output_of (gstate c)) = messages s @ input"
  using invoke_talk(3) [OF assms(1,2,4)] assms(3) by (simp add: output_of_def)

theorem investment_run_adds_no_message_witness:
  "\<exists>c. invoke_graph (sample_env []) 8 empty_state [HumanMessage ''Should I invest in AAPL?''] = (None, c) \<and>
     out_messages (output_of (gstate c)) = [HumanMessage ''Should I invest in AAPL?'']"
proof -
  note run = sample_run_None [OF sample_invest_run]
  have "out_messages (output_of (gstate (snd (sample_result [] empty_state
      ''Should I invest in AAPL?'')))) = messages empty_state @ [HumanMessage ''Should I invest in AAPL?'']"
    by (rule investment_run_adds_no_message [OF sample_appends _ _ run]) simp_all
  with run show ?thesis by (auto simp: empty_state_def)
qed

text \<open>The retrieved context is the longest prefix of the hits that fits the budget of
  2000 characters: its texts add up to at most that, and a hit left out would not have
  fitted.\<close>

theorem retrieved_context_budget:
  assumes "retrieve_semantic_memories env s w = (Inr d, w')"
  shows "\<exists>m hits ctx n. last_of (messages s) = Inr m \<and>
    scoped_search env (content m) 2 = Inr hits \<and> d_retrieved_context d = Some ctx \<and>
    n \<le> length hits \<and> map Some ctx = map hit_text (take n hits) \<and>
    sum_list (map length ctx) \<le> 2000 \<and>
    (n < length hits \<longrightarrow> (\<exists>t. hit_text (hits ! n) = Some t \<and>
       2000 < sum_list (map length ctx) + length t))"
proof -
  from assms obtain m hits ctx where
    r: "last_of (messages s) = Inr m" "scoped_search env (content m) 2 = Inr hits"
       "fit_context MAX_CONTEXT_CHARS hits = Inr ctx" "d_retrieved_context d = Some ctx"
    by (auto simp: retrieve_Inr)
  from fit_context_spec [OF r(3)] obtain n where n: "n \<le> length hits"
    "map hit_text (take n hits) = map Some ctx"
    "sum_list (map length ctx) \<le> 2000"
    "n < length hits \<longrightarrow> (\<exists>t. hit_text (hits ! n) = Some t \<and>
       2000 < sum_list (map length ctx) + length t)"
    by (auto simp: MAX_CONTEXT_CHARS_def)
  from r(1,2,4) n show ?thesis by metis
qed

theorem retrieved_context_budget_witness:
  "\<exists>d w' ctx. retrieve_semantic_memories (sample_env [])
      (empty_state\<lparr>messages := [HumanMessage ''sky'']\<rparr>) \<lparr>calls = 0, stream = []\<rparr> = (Inr d, w') \<and>
    d_retrieved_context d = Some ctx \<and> sum_list (map length ctx) \<le> 2000"
proof -
  obtain d w' where run: "retrieve_semantic_memories (sample_env [])
      (empty_state\<lparr>messages := [HumanMessage ''sky'']\<rparr>) \<lparr>calls = 0, stream = []\<rparr> = (Inr d, w')"
    by (simp add: retrieve_semantic_memories_def sample_search last_of_def empty_state_def
        MAX_CONTEXT_CHARS_def)
  from retrieved_context_budget [OF run] run show ?thesis by blast
qed

text \<open>For a caller who is not the admin, every fact the retrieval node puts into the
  context is a stored memory tagged with a thread that the ownership table assigns to that
  caller.\<close>

theorem retrieval_scoped_to_owner:
  assumes "query_law (env_backend env)" and "\<not> is_admin (env_settings env) (ctx_username env)"
    and "ctx_db env = Some rows" and "rows_ok rows"
    and "retrieve_semantic_memories env s w = (Inr d, w')"
    and "d_retrieved_context d = Some ctx" and "text \<in> set ctx"
  shows "\<exists>p \<in> set (points (env_memory env)). \<exists>t. map_of (payload p) ''text'' = Some text \<and>
    map_of (payload p) ''thread_id'' = Some t \<and> select_owner t rows = Some (ctx_username env)"
proof -
  from assms(5,6) obtain m :: message and hits where
    r: "scoped_search env (content m) 2 = Inr hits" "fit_context MAX_CONTEXT_CHARS hits = Inr ctx"
    by (auto simp: retrieve_Inr)
  from fit_context_spec [OF r(2)] obtain n where
    "map hit_text (take n hits) = map Some ctx" by blast
  with assms(7) have "Some text \<in> set (map hit_text (take n hits))" by simp
  then obtain h where h: "h \<in> set hits" "hit_text h = Some text" by (auto dest: in_set_takeD)
  from scoped_search_owned [OF assms(1-4) r(1) h(1)] h(2) show ?thesis by auto
qed

theorem retrieval_scoped_to_owner_witness:
  "\<exists>d w' (p :: point) t. retrieve_semantic_memories (sample_env [])
      (empty_state\<lparr>messages := [HumanMessage ''sky'']\<rparr>) \<lparr>calls = 0, stream = []\<rparr> = (Inr d, w') \<and>
    d_retrieved_context d = Some [''the sky is blue''] \<and>
    map_of (payload p) ''text'' = Some ''the sky is blue'' \<and>
    map_of (payload p) ''thread_id'' = Some t \<and> select_owner t sample_rows = Some ''alice''"
proof -
  obtain d w' where run: "retrieve_semantic_memories (sample_env [])
      (empty_state\<lparr>messages := [HumanMessage ''sky'']\<rparr>) \<lparr>calls = 0, stream = []\<rparr> = (Inr d, w')"
      and d: "d_retrieved_context d = Some [''the sky is blue'']"
    by (simp add: retrieve_semantic_memories_def sample_search last_of_def empty_state_def
        MAX_CONTEXT_CHARS_def)
  have u: "ctx_username (sample_env []) = ''alice''" by (simp add: sample_env_def)
  have "\<exists>p \<in> set (points (env_memory (sample_env []))). \<exists>t.
      map_of (payload p) ''text'' = Some ''the sky is blue'' \<and>
      map_of (payload p) ''thread_id'' = Some t \<and>
      select_owner t sample_rows = Some (ctx_username (sample_env []))"
    by (rule retrieval_scoped_to_owner [OF _ _ _ _ run d])
      (simp_all add: sample_query_law rows_ok_def sample_rows_def,
       simp_all add: sample_env_def sample_query_law is_admin_def default_settings_def sample_rows_def)
  with run d show ?thesis unfolding u by blast
qed

text \<open>The tool loop has no budget of its own: on a technical question, while the model
  keeps asking for tools and the tool node answers, every limit is used up and the run ends
  in GraphRecursionError.\<close>

theorem tool_loop_uses_up_limit:
  assumes "appends env" and "tools_law env" and "asks_for_tools env" and "tool_node_total env"
    and "input \<noteq> []" and "classify (content (last input)) = Technical"
    and "\<exists>hs. scoped_search env (content (last input)) 2 = Inr hs \<and> (\<forall>h \<in> set hs. hit_text h \<noteq> None)"
  shows "fst (invoke_graph env limit s input) = Some GraphRecursionError"
proof -
  let ?c0 = "start_config env s input"
  have last: "last_of (messages (gstate ?c0)) = Inr (last input)"
    using assms(1,5) by (simp add: start_messages last_of_def)
  obtain c1 where c1: "superstep env ?c0 = (None, c1)" "pending c1 = Some Memory_retriever"
    "route_to (gstate c1) = Some (classify (content (last input)))"
    "messages (gstate c1) = messages (gstate ?c0)"
    by (rule router_superstep [OF _ last, of env]) simp_all
  obtain hs where hs: "scoped_search env (content (last input)) 2 = Inr hs"
    "\<forall>h \<in> set hs. hit_text h \<noteq> None" using assms(7) by blast
  obtain c2 where c2: "superstep env c1 = (None, c2)"
    "pending c2 = Some (after_memory_retriever (gstate c1))"
    by (rule retriever_superstep [OF c1(2) last [folded c1(4)] hs])
  then have c2: "superstep env c1 = (None, c2)" "pending c2 = Some Agent"
    using c1(3) assms(6) by (simp_all add: after_memory_retriever_def)
  have "looping env c2" using assms c2 by (simp add: looping_def)
  then have loop: "\<exists>c'. run_graph (superstep env) ended k c2 = (Some GraphRecursionError, c')" for k
    by (rule run_graph_diverges) (rule looping_step)
  have e: "\<not> ended ?c0" "\<not> ended c1" using c1(2) by (auto simp: ended_def)
  show ?thesis
  proof (cases limit)
    case 0
    with e show ?thesis by (simp add: invoke_graph_def)
  next
    case (Suc m)
    show ?thesis
    proof (cases m)
      case 0
      with Suc e c1 show ?thesis by (simp add: invoke_graph_def)
    next
      fix k
      assume "m = Suc k"
      with Suc e c1 c2 loop [of k] show ?thesis by (auto simp: invoke_graph_def)
    qed
  qed
qed

theorem tool_loop_uses_up_limit_witness:
  "fst (invoke_graph ((sample_env [])\<lparr>ctx_tool_llm :=
      Some (\<lambda>n ms. Inr (AIMessage [] [\<lparr>tc_name = ''get_weather'', tc_args = [], tc_id = ''c''\<rparr>]))\<rparr>)
    25 empty_state [HumanMessage ''deploy'']) = Some GraphRecursionError"
proof (rule tool_loop_uses_up_limit)
  let ?env = "(sample_env [])\<lparr>ctx_tool_llm :=
      Some (\<lambda>n ms. Inr (AIMessage [] [\<lparr>tc_name = ''get_weather'', tc_args = [], tc_id = ''c''\<rparr>]))\<rparr>"
  have "scoped_search ?env q 2 = scoped_search (sample_env []) q 2" for q
    by (simp add: scoped_search_def sample_env_def)
  then show "\<exists>hs. scoped_search ?env (content (last [HumanMessage ''deploy''])) 2 = Inr hs \<and>
      (\<forall>h \<in> set hs. hit_text h \<noteq> None)" by (simp add: sample_search)
  have "classify ''deploy'' = Technical" by code_simp
  then show "classify (content (last [HumanMessage ''deploy''])) = Technical" by simp
qed (simp_all add: appends_def tools_law_def asks_for_tools_def tool_node_total_def sample_env_def)

text \<open>Whatever happens in a run, failures and the recursion limit included, the audit
  lines recorded before it stay, in order, at the front of the log, and a log without
  duplicates stays without.\<close>

theorem internal_logs_append_only:
  "prefix (logs_of s) (logs_of (gstate (snd (invoke_graph env limit s input)))) \<and>
   (distinct (logs_of s) \<longrightarrow> distinct (logs_of (gstate (snd (invoke_graph env limit s input)))))"
  using logs.run_inv [of "logs_of s" "start_config env s input" env limit]
  by (simp add: logs_inv_def invoke_graph_def)

theorem internal_logs_append_only_witness:
  "distinct (logs_of (gstate (snd (invoke_graph (sample_env []) 8
     (empty_state\<lparr>internal_logs := Some [''earlier'']\<rparr>) [HumanMessage ''hello'']))))"
  using internal_logs_append_only [of "empty_state\<lparr>internal_logs := Some [''earlier'']\<rparr>"
      "sample_env []" 8 "[HumanMessage ''hello'']"]
  by (simp add: logs_of_def)

end
