(* ===== verification/Engine_Types.thy ===== *)
theory Engine_Types
  imports Engine_Claims
begin

text \<open>
  The type of the graph's state: the values its keys can take, kept by every superstep of
  every run, and the status a completed run ends with on each route.
\<close>

section \<open>Well-formed states\<close>

definition statuses :: "string list" where
  "statuses = [''routed'', ''completed'', ''critiqued'']"

definition verdicts :: "string list" where
  "verdicts = [''PASS'', ''draft is a bare stub; add detail'']"

definition state_ok :: "graph_state \<Rightarrow> bool" where
  "state_ok s \<longleftrightarrow> (\<forall>t. status s = Some t \<longrightarrow> t \<in> set statuses) \<and>
     (\<forall>n. revision_count s = Some n \<longrightarrow> 1 \<le> n) \<and>
     (\<forall>v. critique s = Some v \<longrightarrow> v \<in> set verdicts \<and> revision_count s \<noteq> None) \<and>
     (\<forall>ctx. retrieved_context s = Some ctx \<longrightarrow> sum_list (map length ctx) \<le> MAX_CONTEXT_CHARS)"

text \<open>The updates a node returns on a well-formed state.\<close>

definition delta_ok :: "graph_state \<Rightarrow> delta \<Rightarrow> bool" where
  "delta_ok s d \<longleftrightarrow> (\<forall>t. d_status d = Some t \<longrightarrow> t \<in> set statuses) \<and>
     (\<forall>n. d_revision_count d = Some n \<longrightarrow> 1 \<le> n) \<and>
     (\<forall>v. d_critique d = Some v \<longrightarrow> v \<in> set verdicts \<and> revision_count s \<noteq> None) \<and>
     (\<forall>ctx. d_retrieved_context d = Some ctx \<longrightarrow> sum_list (map length ctx) \<le> MAX_CONTEXT_CHARS)"

lemma state_ok_empty: "state_ok empty_state"
  by (simp add: state_ok_def empty_state_def)

lemma apply_delta_ok: "state_ok s \<Longrightarrow> delta_ok s d \<Longrightarrow> state_ok (apply_delta am s d)"
  by (auto simp: state_ok_def delta_ok_def apply_delta_def overwrite_def split: option.splits)

lemma fit_context_bound: "fit_context b hs = Inr ctx \<Longrightarrow> sum_list (map length ctx) \<le> b"
  using fit_context_spec by blast

lemma verdict_of_verdicts: "verdict_of t n \<in> set verdicts"
  by (simp add: verdict_of_def verdicts_def)

lemma node_delta_ok:
  assumes "state_ok s" and "run_node env n s w = (Inr d, w')"
  shows "delta_ok s d"
proof (cases n)
  case General_worker
  with assms have "\<exists>r. d = no_update\<lparr>d_messages := [r], d_status := Some ''completed'',
      d_logs := [''general: model call complete (attempt '' @
        show_int ((case revision_count s of None \<Rightarrow> 0 | Some c \<Rightarrow> c) + 1) @ '')''],
      d_revision_count := Some ((case revision_count s of None \<Rightarrow> 0 | Some c \<Rightarrow> c) + 1)\<rparr>"
    by (auto simp: general_worker_def Let_def split: sum.splits)
  with assms(1) show ?thesis
    by (auto simp: delta_ok_def state_ok_def statuses_def split: option.splits)
next
  case Critic
  with assms show ?thesis
    by (auto simp: critic_def Let_def delta_ok_def statuses_def verdict_of_verdicts
        split: sum.splits option.splits)
next
  case Memory_retriever
  with assms show ?thesis
    by (auto simp: retrieve_Inr delta_ok_def dest: fit_context_bound)
qed (use assms in \<open>auto simp: route_request_def call_model_def billing_worker_def tools_node_def
    fetch_market_metrics_Inr generate_structured_report_def Let_def delta_ok_def statuses_def
    bindr_Inr_iff split: sum.splits option.splits\<close>)

interpretation typed: graph_invariant "superstep env" ended "\<lambda>c. state_ok (gstate c)" for env
proof (unfold_locales, goal_cases)
  case (1 c)
  from 1(2) show ?case
  proof (cases rule: superstep_state [where env = env])
    case same
    with 1 show ?thesis by simp
  next
    case (merged n d w)
    with 1 node_delta_ok show ?thesis by (simp add: apply_delta_ok)
  qed
qed

section \<open>The status along a run\<close>

fun status_at :: "node option \<Rightarrow> string option \<Rightarrow> bool" where
  "status_at (Some Router) t = True"
| "status_at (Some Agent) t = (t \<in> {Some ''routed'', Some ''completed''})"
| "status_at (Some Tools) t = (t = Some ''completed'')"
| "status_at (Some General_worker) t = (t \<in> {Some ''routed'', Some ''critiqued''})"
| "status_at (Some Critic) t = (t = Some ''completed'')"
| "status_at (Some n) t = (t = Some ''routed'')"
| "status_at None t = True"

fun final_status :: "route \<Rightarrow> string" where
  "final_status Technical = ''completed''"
| "final_status Billing = ''completed''"
| "final_status Investment = ''routed''"
| "final_status General = ''critiqued''"

definition status_inv :: "string \<Rightarrow> config \<Rightarrow> bool" where
  "status_inv q c \<longleftrightarrow> path_inv q c \<and> status_at (pending c) (status (gstate c)) \<and>
     (pending c = None \<longrightarrow> status (gstate c) = Some (final_status (classify q)))"

lemma node_status:
  "run_node env n s w = (Inr d, w') \<Longrightarrow> d_status d = (case n of
      Router \<Rightarrow> Some ''routed'' | Agent \<Rightarrow> Some ''completed'' | Billing_worker \<Rightarrow> Some ''completed''
    | General_worker \<Rightarrow> Some ''completed'' | Critic \<Rightarrow> Some ''critiqued'' | _ \<Rightarrow> None)"
  by (cases n) (auto simp: node_defs fetch_market_metrics_Inr Let_def bindr_Inr_iff
      split: sum.splits option.splits)

lemma status_inv_step:
  assumes inv: "status_inv q c" and "\<not> ended c"
  shows "status_inv q (snd (superstep env c))"
proof -
  from inv path_inv_step [OF _ assms(2)] have path: "path_inv q (snd (superstep env c))"
    by (simp add: status_inv_def)
  from assms(2) obtain n where p: "pending c = Some n" by (auto simp: ended_def)
  then show ?thesis
  proof (cases rule: superstep_outcome [where env = env])
    case (fail e w)
    with inv path p show ?thesis by (simp add: status_inv_def)
  next
    case (ok d w n' s)
    from inv p have at: "path_at q (Some n) (gstate c) (updates (stream (outside c)))"
      and st: "status_at (Some n) (status (gstate c))"
      by (simp_all add: status_inv_def path_inv_def)
    have s: "status s = overwrite (status (gstate c)) (d_status d)"
      by (simp add: ok(2) apply_delta_def)
    have "status_at n' (status s) \<and> (n' = None \<longrightarrow> status s = Some (final_status (classify q)))"
      using at st ok(3) unfolding s node_status [OF ok(1)]
      by (cases n) (auto simp: after_memory_retriever_def after_critic_def
          split: if_splits option.splits)
    with path ok(4) show ?thesis by (simp add: status_inv_def)
  qed
qed

interpretation statuses: graph_invariant "superstep env" ended "status_inv q" for env q
  by unfold_locales (rule status_inv_step)

section \<open>Properties\<close>

text \<open>C33. The state stays well-formed: whatever the models, the tools and the memory answer,
  and whether the run completes, fails or is cut off, the status is one of the three, the
  critique one of the two verdicts and only there with a count, the count at least one, and the
  context within its budget.\<close>

theorem run_keeps_state_typed:
  assumes "state_ok s"
  shows "state_ok (gstate (snd (invoke_graph env limit s input)))"
proof -
  have "state_ok (gstate (start_config env s input))"
    using assms by (simp add: start_config_def apply_delta_ok delta_ok_def)
  then show ?thesis unfolding invoke_graph_def by (rule typed.run_inv)
qed

theorem run_keeps_state_typed_witness:
  "state_ok (gstate (snd (invoke_graph (sample_env []) 3 empty_state [HumanMessage ''hello''])))"
  by (rule run_keeps_state_typed [OF state_ok_empty])

text \<open>The status tells how a run ended only in part: a completed run on the technical or
  billing route ends as completed and one on the general route as critiqued, but one on the
  investment route still says routed.\<close>

theorem completed_run_status:
  assumes "appends env" and "input \<noteq> []" and "invoke_graph env limit s input = (None, c)"
  shows "out_status (output_of (gstate c)) = Some (final_status (classify (content (last input))))"
proof -
  have "status_inv (content (last input)) (start_config env s input)"
    using start_path [OF assms(1,2)] by (simp add: status_inv_def)
  from statuses.run_inv [OF this] have "status_inv (content (last input))
      (snd (run_graph (superstep env) ended limit (start_config env s input)))" .
  with assms(3) have "status_inv (content (last input)) c" by (simp add: invoke_graph_def)
  with invoke_talk(1) [OF assms] show ?thesis by (simp add: status_inv_def output_of_def)
qed

theorem completed_run_status_witness:
  "\<exists>c. invoke_graph (sample_env []) 8 empty_state [HumanMessage ''Should I invest in AAPL?''] = (None, c) \<and>
     out_status (output_of (gstate c)) = Some ''routed''"
proof -
  note run = sample_run_None [OF sample_invest_run]
  have "[HumanMessage ''Should I invest in AAPL?''] \<noteq> []" by simp
  from completed_run_status [OF sample_appends this run] run show ?thesis by auto
qed

end
