(* ===== verification/General_Reference.thy ===== *)
theory General_Reference
  imports Engine_Claims
begin

text \<open>
  A reference definition of the general route: the drafting loop as one recursive function of
  the model, without nodes, edges, supersteps or state keys, and the proof that the graph of
  theory \<open>Engine\<close> computes the same conversation or the same error.
\<close>

section \<open>The loop\<close>

text \<open>What the model is shown: the retrieved facts and the last feedback, if there are any, as a
  system message before the conversation.\<close>

definition draft_prompt :: "string list \<Rightarrow> string option \<Rightarrow> message list \<Rightarrow> message list" where
  "draft_prompt facts feedback ms =
     (let ls = (if facts = [] then [] else ''Relevant past facts from other conversations:'' #
             map (\<lambda>t. ''- '' @ t) facts) @
           (case feedback of None \<Rightarrow> [] | Some f \<Rightarrow> if f = [] \<or> f = ''PASS'' then []
             else [''Address this feedback on your last draft: '' @ f])
      in if ls = [] then ms else SystemMessage (join nl ls) # ms)"

text \<open>\<open>k\<close> bounds the number of drafts, \<open>n\<close> counts the model's calls in the run and \<open>count\<close> the
  drafts on the thread.\<close>

fun draft_loop :: "llm \<Rightarrow> string list \<Rightarrow> nat \<Rightarrow> nat \<Rightarrow> int \<Rightarrow> string option \<Rightarrow> message list \<Rightarrow>
    exn + message list" where
  "draft_loop model facts 0 n count feedback ms = Inl GraphRecursionError"
| "draft_loop model facts (Suc k) n count feedback ms =
     bindr (model n (draft_prompt facts feedback ms)) (\<lambda>draft.
       let verdict = verdict_of (content draft) (count + 1) in
       if verdict = ''PASS'' then Inr (ms @ [draft])
       else draft_loop model facts k (Suc n) (count + 1) (Some verdict) (ms @ [draft]))"

lemma draft_prompt_state:
  "retrieved_context s = Some facts \<Longrightarrow>
   (if general_context_lines s = [] then messages s
    else SystemMessage (join nl (general_context_lines s)) # messages s) =
   draft_prompt facts (critique s) (messages s)"
  by (cases facts; cases "critique s") (auto simp: general_context_lines_def draft_prompt_def Let_def)

section \<open>One round of the graph\<close>

definition agrees :: "exn option \<times> config \<Rightarrow> exn + message list \<Rightarrow> bool" where
  "agrees run ref \<longleftrightarrow> (case ref of
       Inl e \<Rightarrow> fst run = Some e
     | Inr ms \<Rightarrow> fst run = None \<and> messages (gstate (snd run)) = ms)"

lemma out_messages_of: "out_messages (output_of s) = messages s"
  by (simp add: output_of_def)

lemma draft_superstep:
  assumes "appends env" and "pending c = Some General_worker"
    and "retrieved_context (gstate c) = Some facts"
    and "ctx_llm env (calls (outside c)) (draft_prompt facts (critique (gstate c)) (messages (gstate c))) = Inr draft"
  shows "\<exists>c'. superstep env c = (None, c') \<and> pending c' = Some Critic \<and>
    messages (gstate c') = messages (gstate c) @ [draft] \<and> calls (outside c') = Suc (calls (outside c)) \<and>
    retrieved_context (gstate c') = Some facts \<and> revision_count (gstate c') = Some (rc (gstate c) + 1)"
  using assms(2,4) messages_apply_delta [OF assms(1)]
  by (simp add: superstep_def general_worker_def Let_def draft_prompt_state [OF assms(3)] rc_def)
    (simp add: apply_delta_def assms(3))

lemma draft_superstep_raises:
  assumes "pending c = Some General_worker" and "retrieved_context (gstate c) = Some facts"
    and "ctx_llm env (calls (outside c)) (draft_prompt facts (critique (gstate c)) (messages (gstate c))) = Inl e"
  shows "\<exists>c'. superstep env c = (Some e, c')"
  using assms(1,3)
  by (simp add: superstep_def general_worker_def Let_def draft_prompt_state [OF assms(2)])

lemma critic_superstep:
  assumes "pending c = Some Critic" and "last_of (messages (gstate c)) = Inr m"
    and "revision_count (gstate c) = Some n"
  shows "\<exists>c'. superstep env c = (None, c') \<and> messages (gstate c') = messages (gstate c) \<and>
    pending c' = (if verdict_of (content m) n = ''PASS'' then None else Some General_worker) \<and>
    critique (gstate c') = Some (verdict_of (content m) n) \<and> rc (gstate c') = n \<and>
    retrieved_context (gstate c') = retrieved_context (gstate c) \<and> calls (outside c') = calls (outside c)"
  using assms
  by (simp add: superstep_def critic_def Let_def after_critic_def apply_delta_def rc_def)

lemma general_loop:
  assumes "appends env"
  shows "pending c = Some General_worker \<Longrightarrow> retrieved_context (gstate c) = Some facts \<Longrightarrow>
    drafts_left (rc (gstate c)) \<le> k \<Longrightarrow>
    agrees (run_graph (superstep env) ended (2 * k) c)
      (draft_loop (ctx_llm env) facts k (calls (outside c)) (rc (gstate c)) (critique (gstate c))
        (messages (gstate c)))"
proof (induction k arbitrary: c)
  case 0
  with drafts_left_pos [of "rc (gstate c)"] show ?case by simp
next
  case (Suc k)
  let ?ans = "ctx_llm env (calls (outside c))
      (draft_prompt facts (critique (gstate c)) (messages (gstate c)))"
  have live: "\<not> ended c" by (simp add: ended_def Suc.prems(1))
  show ?case
  proof (cases ?ans)
    case (Inl e)
    from draft_superstep_raises [OF Suc.prems(1,2) Inl] obtain c' where
      "superstep env c = (Some e, c')" ..
    with live Inl show ?thesis by (simp add: agrees_def)
  next
    case (Inr draft)
    from draft_superstep [OF assms Suc.prems(1,2) Inr] obtain c1 where
      c1: "superstep env c = (None, c1)" "pending c1 = Some Critic"
      "messages (gstate c1) = messages (gstate c) @ [draft]"
      "calls (outside c1) = Suc (calls (outside c))" "retrieved_context (gstate c1) = Some facts"
      "revision_count (gstate c1) = Some (rc (gstate c) + 1)" by blast
    let ?v = "verdict_of (content draft) (rc (gstate c) + 1)"
    from critic_superstep [OF c1(2) _ c1(6), of draft env] c1(3) obtain c2 where
      c2: "superstep env c1 = (None, c2)" "messages (gstate c2) = messages (gstate c1)"
      "pending c2 = (if ?v = ''PASS'' then None else Some General_worker)"
      "critique (gstate c2) = Some ?v" "rc (gstate c2) = rc (gstate c) + 1"
      "retrieved_context (gstate c2) = Some facts" "calls (outside c2) = Suc (calls (outside c))"
      using c1(4,5) by auto
    have "\<not> ended c1" by (simp add: ended_def c1(2))
    with live c1(1) c2(1) have run: "run_graph (superstep env) ended (2 * Suc k) c =
        run_graph (superstep env) ended (2 * k) c2" by simp
    show ?thesis
    proof (cases "?v = ''PASS''")
      case True
      with c2(3) have "ended c2" by (simp add: ended_def)
      with True Inr run c1(3) c2(2) show ?thesis by (simp add: agrees_def)
    next
      case False
      then have "rc (gstate c) + 1 < GENERAL_REVISION_LIMIT" by (simp add: verdict_PASS_iff)
      with Suc.prems(3) have "drafts_left (rc (gstate c2)) \<le> k"
        by (auto simp: c2(5) drafts_left_def)
      with Suc.IH [of c2] False c2 have "agrees (run_graph (superstep env) ended (2 * k) c2)
          (draft_loop (ctx_llm env) facts k (calls (outside c2)) (rc (gstate c2))
             (critique (gstate c2)) (messages (gstate c2)))" by simp
      with False Inr run c1(3) c2 show ?thesis by simp
    qed
  qed
qed


section \<open>The whole run\<close>

lemma entry_supersteps:
  assumes "appends env" and "input \<noteq> []" and "classify (content (last input)) = General"
    and "scoped_search env (content (last input)) 2 = Inr hits"
    and "fit_context MAX_CONTEXT_CHARS hits = Inr facts"
  shows "\<exists>c1 c. superstep env (start_config env s input) = (None, c1) \<and> \<not> ended c1 \<and>
    superstep env c1 = (None, c) \<and> pending c = Some General_worker \<and>
    retrieved_context (gstate c) = Some facts \<and> rc (gstate c) = rc s \<and>
    critique (gstate c) = critique s \<and> calls (outside c) = 0 \<and>
    messages (gstate c) = messages s @ input"
proof -
  let ?c0 = "start_config env s input"
  have msg: "last_of (messages (gstate ?c0)) = Inr (last input)"
    using assms(2) by (simp add: start_messages [OF assms(1)] last_of_def)
  have c0: "messages (gstate ?c0) = messages s @ input" "critique (gstate ?c0) = critique s"
    "rc (gstate ?c0) = rc s" "calls (outside ?c0) = 0" "pending ?c0 = Some Router"
    by (simp_all add: start_messages [OF assms(1)] rc_def) (simp add: start_config_def apply_delta_def)
  obtain c1 where c1: "superstep env ?c0 = (None, c1)" "pending c1 = Some Memory_retriever"
    "messages (gstate c1) = messages s @ input" "critique (gstate c1) = critique s"
    "rc (gstate c1) = rc s" "calls (outside c1) = 0" "route_to (gstate c1) = Some General"
    using c0 msg assms(3)
    by (simp add: superstep_def route_request_def Let_def apply_delta_def rc_def)
  have "last_of (messages (gstate c1)) = Inr (last input)"
    using msg c0(1) c1(3) by simp
  with c1 assms(4,5) obtain c where "superstep env c1 = (None, c)" "pending c = Some General_worker"
    "retrieved_context (gstate c) = Some facts" "rc (gstate c) = rc s" "critique (gstate c) = critique s"
    "calls (outside c) = 0" "messages (gstate c) = messages s @ input"
    by (simp add: superstep_def retrieve_semantic_memories_def Let_def apply_delta_def rc_def
        after_memory_retriever_def)
  with c1 show ?thesis by (auto simp: ended_def)
qed

text \<open>C21. On the general route the graph is the drafting loop: with the context the retriever
  fetched and enough supersteps for \<open>k\<close> drafts, \<open>k\<close> being at least the drafts the thread has left,
  a run ends with exactly the conversation of the reference definition, or raises exactly the
  error the model raised in it. The reference never runs out of drafts.\<close>

theorem general_run_equals_reference:
  assumes "appends env" and "input \<noteq> []" and "classify (content (last input)) = General"
    and "scoped_search env (content (last input)) 2 = Inr hits"
    and "fit_context MAX_CONTEXT_CHARS hits = Inr facts"
    and "drafts_left (rc s) \<le> k"
  shows "(case draft_loop (ctx_llm env) facts k 0 (rc s) (critique s) (messages s @ input) of
      Inl e \<Rightarrow> fst (invoke_graph env (2 + 2 * k) s input) = Some e
    | Inr ms \<Rightarrow> fst (invoke_graph env (2 + 2 * k) s input) = None \<and>
        out_messages (output_of (gstate (snd (invoke_graph env (2 + 2 * k) s input)))) = ms)"
proof -
  from entry_supersteps [OF assms(1-5)] obtain c1 c where
    c: "superstep env (start_config env s input) = (None, c1)" "\<not> ended c1"
    "superstep env c1 = (None, c)" "pending c = Some General_worker"
    "retrieved_context (gstate c) = Some facts" "rc (gstate c) = rc s" "critique (gstate c) = critique s"
    "calls (outside c) = 0" "messages (gstate c) = messages s @ input" by blast
  have run: "invoke_graph env (2 + 2 * k) s input = run_graph (superstep env) ended (2 * k) c"
    using c(1-3) by (auto simp: invoke_graph_def ended_def)
  from general_loop [OF assms(1) c(4,5), of k] assms(6) c(6-9) show ?thesis
    unfolding run agrees_def out_messages_of by simp
qed

theorem general_run_equals_reference_witness:
  "fst (invoke_graph (sample_env []) 8 empty_state [HumanMessage ''hello'']) = None \<and>
   messages (gstate (snd (invoke_graph (sample_env []) 8 empty_state [HumanMessage ''hello'']))) =
     [HumanMessage ''hello'', AIMessage ''ok'' [], AIMessage ''ok'' [], AIMessage ''ok'' []]"
proof -
  have loop: "draft_loop (ctx_llm (sample_env [])) [''the sky is blue''] 3 0 (rc empty_state)
      (critique empty_state) (messages empty_state @ [HumanMessage ''hello'']) =
    Inr [HumanMessage ''hello'', AIMessage ''ok'' [], AIMessage ''ok'' [], AIMessage ''ok'' []]"
    by code_simp
  have "fit_context MAX_CONTEXT_CHARS [\<lparr>score = 1, hit_text = Some ''the sky is blue'',
      hit_thread_id = Some ''t1''\<rparr>] = Inr [''the sky is blue'']"
    by (simp add: MAX_CONTEXT_CHARS_def)
  from general_run_equals_reference [where env = "sample_env []" and s = empty_state and k = 3
      and input = "[HumanMessage ''hello'']", OF sample_appends _ _ _ this] loop
  show ?thesis
    by (simp add: sample_search output_of_def)
      (simp add: rc_def empty_state_def drafts_left_def GENERAL_REVISION_LIMIT_def)
qed

end
