(* ===== verification/Claim_Order.thy ===== *)
theory Claim_Order
  imports Ownership
begin

text \<open>
  The interleaved claims of theory \<open>Ownership\<close> refine the sequential operation: whatever the
  interleaving, table and answers are those of \<open>claim_or_check\<close> run to the end for one caller
  after another, in the order of the callers' first steps.
\<close>

section \<open>Serving callers one after another\<close>

definition claim_of :: "settings \<Rightarrow> string \<times> string \<Rightarrow> ownership_rows \<Rightarrow> bool \<times> ownership_rows" where
  "claim_of st r rows = claim_or_check st (fst r) (snd r) rows"

definition serial :: "settings \<Rightarrow> (nat \<Rightarrow> string \<times> string) \<Rightarrow> nat list \<Rightarrow> ownership_rows \<Rightarrow> ownership_rows" where
  "serial st req order rows = fold (\<lambda>i rows. snd (claim_of st (req i) rows)) order rows"

lemma serial_Nil [simp]: "serial st req [] rows = rows"
  by (simp add: serial_def)

lemma serial_snoc [simp]:
  "serial st req (order @ [i]) rows = snd (claim_of st (req i) (serial st req order rows))"
  by (simp add: serial_def)

lemma serial_append: "serial st req (xs @ ys) rows = serial st req ys (serial st req xs rows)"
  by (simp add: serial_def)

lemma serial_owner_kept:
  "select_owner t rows = Some u \<Longrightarrow> select_owner t (serial st req order rows) = Some u"
proof (induction order arbitrary: rows)
  case Nil
  then show ?case by simp
next
  case (Cons i order)
  then show ?case
    using own.owner_kept [OF Cons.prems] by (simp add: serial_def claim_of_def)
qed

text \<open>The answer a caller gets at its place in the order, read off the final table.\<close>

lemma serial_answer:
  assumes order: "order = xs @ i # ys" and na: "\<not> is_admin st (snd (req i))"
  shows "fst (claim_of st (req i) (serial st req xs rows)) \<longleftrightarrow>
    select_owner (fst (req i)) (serial st req order rows) = Some (snd (req i))"
proof -
  let ?d = "snd (claim_of st (req i) (serial st req xs rows))"
  have final: "serial st req order rows = serial st req ys ?d"
    using serial_append [of st req "xs @ [i]" ys rows] by (simp add: order)
  have granted: "fst (claim_of st (req i) (serial st req xs rows)) \<longleftrightarrow>
      select_owner (fst (req i)) ?d = Some (snd (req i))"
    using own.claim_granted [OF na] by (simp add: claim_of_def)
  obtain v where "select_owner (fst (req i)) ?d = Some v"
    using own.claim_owner [OF na, of "fst (req i)" "fst (req i)"]
    by (cases "select_owner (fst (req i)) (serial st req xs rows)") (auto simp: claim_of_def)
  with serial_owner_kept [OF this] granted final show ?thesis by simp
qed

section \<open>The simulation\<close>

definition simulated ::
    "settings \<Rightarrow> (nat \<Rightarrow> string \<times> string) \<Rightarrow> ownership_rows \<Rightarrow> claim_state \<Rightarrow> nat list \<Rightarrow> bool" where
  "simulated st req rows s order \<longleftrightarrow> distinct order \<and> table s = serial st req order rows \<and>
     (\<forall>i. i \<in> set order \<longleftrightarrow> pcs s i \<noteq> Claim_start) \<and>
     (\<forall>i. pcs s i = Claim_inserted \<longrightarrow> \<not> is_admin st (snd (req i))) \<and>
     (\<forall>xs i ys b. order = xs @ i # ys \<longrightarrow> pcs s i = Claim_done b \<longrightarrow>
        b = fst (claim_of st (req i) (serial st req xs rows)))"

lemma snoc_split:
  "order @ [j] = xs @ i # ys \<Longrightarrow>
   (i = j \<and> xs = order \<and> ys = []) \<or> (\<exists>zs. order = xs @ i # zs \<and> ys = zs @ [j])"
  by (cases ys rule: rev_cases) auto

text \<open>A caller's first step appends it to the order; \<open>v\<close> is where that step leaves it.\<close>

lemma simulated_start:
  assumes sim: "simulated st req rows s order" and start: "pcs s i = Claim_start"
    and rows': "rows' = snd (claim_of st (req i) (table s))"
    and v: "v \<noteq> Claim_start" "v = Claim_inserted \<longrightarrow> \<not> is_admin st (snd (req i))"
      "\<forall>b. v = Claim_done b \<longrightarrow> b = fst (claim_of st (req i) (table s))"
  shows "simulated st req rows (s\<lparr>table := rows', pcs := (pcs s)(i := v)\<rparr>) (order @ [i])"
proof -
  from sim start have i: "i \<notin> set order" by (simp add: simulated_def)
  have "b = fst (claim_of st (req j) (serial st req xs rows))"
    if split: "order @ [i] = xs @ j # ys" and pc: "((pcs s)(i := v)) j = Claim_done b" for xs j ys b
    using snoc_split [OF split]
  proof
    assume "j = i \<and> xs = order \<and> ys = []"
    with pc v(3) sim show ?thesis by (simp add: simulated_def)
  next
    assume "\<exists>zs. order = xs @ j # zs \<and> ys = zs @ [i]"
    then obtain zs where zs: "order = xs @ j # zs" by blast
    with i have "j \<noteq> i" by auto
    with zs pc sim show ?thesis by (simp add: simulated_def)
  qed
  with sim i rows' v show ?thesis by (auto simp: simulated_def)
qed

lemma simulated_step:
  assumes sim: "simulated st req rows s order" and step: "claim_step st req s s'"
  shows "\<exists>order'. simulated st req rows s' order'"
  using step
proof cases
  case (admin i)
  have "claim_of st (req i) (table s) = (True, table s)"
    using admin by (simp add: claim_of_def claim_or_check_def)
  with simulated_start [OF sim, of i "table s" "Claim_done True"] admin
  have "simulated st req rows s' (order @ [i])" by simp
  then show ?thesis ..
next
  case (insert i)
  have "snd (claim_of st (req i) (table s)) = insert_on_conflict_do_nothing
      \<lparr>thread_id = fst (req i), owner_username = snd (req i)\<rparr> (table s)"
    using insert by (simp add: claim_of_def claim_or_check_def Let_def)
  with simulated_start [OF sim, of i _ Claim_inserted] insert
  have "simulated st req rows s' (order @ [i])" by simp
  then show ?thesis ..
next
  case (select i)
  from sim select have na: "\<not> is_admin st (snd (req i))" by (simp add: simulated_def)
  have "b = fst (claim_of st (req j) (serial st req xs rows))"
    if split: "order = xs @ j # ys" and pc: "pcs s' j = Claim_done b" for xs j ys b
  proof (cases "j = i")
    case True
    with serial_answer [OF split, of st req rows] na pc select sim show ?thesis
      by (simp add: simulated_def)
  next
    case False
    with split pc select sim show ?thesis by (simp add: simulated_def)
  qed
  with sim select have "simulated st req rows s' order" by (auto simp: simulated_def)
  then show ?thesis ..
qed

text \<open>As an invariant of the interleaved system, started on \<open>rows\<close>.\<close>

interpretation simulation: invariant_system "\<lambda>s. claim_init s \<and> table s = rows" "claim_step st req"
    "\<lambda>s. \<exists>order. simulated st req rows s order" for st req rows
proof (unfold_locales, goal_cases)
  case (1 s)
  then have "simulated st req rows s []" by (simp add: simulated_def claim_init_def)
  then show ?case ..
next
  case (2 s s')
  then show ?case using simulated_step by blast
qed

section \<open>Properties\<close>

text \<open>C23. Concurrent claims are linearizable: in every reachable state there is an order of the
  callers that have begun, each once, such that running \<open>claim_or_check\<close> to the end for one
  after another gives the table there is, and every caller that has its answer got the one
  of its place in that order.\<close>

theorem claims_linearizable:
  assumes "claim_init s0" and "(claim_step st req)\<^sup>*\<^sup>* s0 s"
  shows "\<exists>order. distinct order \<and> (\<forall>i. i \<in> set order \<longleftrightarrow> pcs s i \<noteq> Claim_start) \<and>
    table s = fold (\<lambda>i rows. snd (claim_or_check st (fst (req i)) (snd (req i)) rows)) order (table s0) \<and>
    (\<forall>xs i ys b. order = xs @ i # ys \<longrightarrow> pcs s i = Claim_done b \<longrightarrow>
       b = fst (claim_or_check st (fst (req i)) (snd (req i))
         (fold (\<lambda>i rows. snd (claim_or_check st (fst (req i)) (snd (req i)) rows)) xs (table s0))))"
proof -
  from simulation.inv_reachable [OF _ assms(2), of "table s0"] assms(1)
  obtain order where "simulated st req (table s0) s order" by auto
  then show ?thesis
    by (intro exI [of _ order]) (simp add: simulated_def serial_def claim_of_def)
qed

theorem claims_linearizable_witness:
  "\<exists>s order. (claim_step default_settings (\<lambda>i. (''t'', ''alice'')))\<^sup>*\<^sup>*
      \<lparr>table = [], pcs = (\<lambda>i. Claim_start)\<rparr> s \<and> pcs s 7 = Claim_inserted \<and> set order = {7 :: nat} \<and>
    table s = fold (\<lambda>i rows. snd (claim_or_check default_settings ''t'' ''alice'' rows)) order []"
proof -
  let ?req = "\<lambda>i::nat. (''t'', ''alice'')"
  let ?s0 = "\<lparr>table = [], pcs = (\<lambda>i. Claim_start)\<rparr>"
  let ?s1 = "\<lparr>table = [\<lparr>thread_id = ''t'', owner_username = ''alice''\<rparr>],
    pcs = (\<lambda>i. Claim_start)(7 := Claim_inserted)\<rparr>"
  have "claim_step default_settings ?req ?s0 ?s1"
    using claim_step.insert [of ?s0 7 default_settings ?req]
    by (simp add: is_admin_def default_settings_def insert_on_conflict_do_nothing_def)
  then have run: "(claim_step default_settings ?req)\<^sup>*\<^sup>* ?s0 ?s1" by (rule r_into_rtranclp)
  have "claim_init ?s0" by (simp add: claim_init_def rows_ok_def)
  from claims_linearizable [OF this run] obtain order where
    "\<forall>i. i \<in> set order \<longleftrightarrow> pcs ?s1 i \<noteq> Claim_start"
    "table ?s1 = fold (\<lambda>i rows. snd (claim_or_check default_settings ''t'' ''alice'' rows)) order []"
    by auto
  moreover from this(1) have "set order = {7}" by (auto split: if_splits)
  ultimately show ?thesis using run by (intro exI [of _ ?s1] exI [of _ order]) simp
qed

end
