(* ===== verification/Finance_Api.thy ===== *)
theory Finance_Api
  imports Json
begin

text \<open>
  The finance API of \<open>internal_api/finance_api.py\<close>: client-credentials tokens with an
  expiry, and account balances behind them. Clock readings and expiry times are exact
  rationals (the rounding of float sums is not modelled); the token text drawn by a call
  is an argument.
\<close>

record http_response =
  http_status :: int
  http_body :: "json option"

text \<open>Tokens issued so far, with their expiry times: the dict \<open>_ISSUED\<close>.\<close>

type_synonym issued = "(string \<times> rat) list"

definition TOKEN_TTL_S :: int where
  "TOKEN_TTL_S = 3600"

definition clients :: "settings \<Rightarrow> (string \<times> string) list" where
  "clients st = [(finance_oauth_client_id st, finance_oauth_client_secret st)]"

definition balances :: "(string \<times> (string \<times> json) list) list" where
  "balances = [(''ACC-1001'', [(''balance'', JFloat 1250500.75), (''currency'', JStr ''USD'')]),
     (''ACC-2002'', [(''balance'', JFloat 84000), (''currency'', JStr ''EUR'')])]"

definition issue_token ::
    "settings \<Rightarrow> rat \<Rightarrow> string \<Rightarrow> string \<Rightarrow> string \<Rightarrow> string \<Rightarrow> string \<Rightarrow> issued \<Rightarrow>
     (exn + json) \<times> issued" where
  "issue_token st now fresh grant_type client_id client_secret scope iss =
     (if grant_type \<noteq> ''client_credentials''
      then (Inl (HTTPException 400 ''unsupported_grant_type''), iss)
      else if map_of (clients st) client_id \<noteq> Some client_secret
      then (Inl (HTTPException 401 ''invalid_client''), iss)
      else (Inr (JObj [(''access_token'', JStr fresh), (''token_type'', JStr ''Bearer''),
              (''expires_in'', JInt TOKEN_TTL_S), (''scope'', JStr scope)]),
            AList.update fresh (now + of_int TOKEN_TTL_S) iss))"

definition require_token :: "rat \<Rightarrow> string option \<Rightarrow> issued \<Rightarrow> exn option \<times> issued" where
  "require_token now authorization iss =
     (case authorization of
        None \<Rightarrow> (Some (HTTPException 401 ''missing bearer token''), iss)
      | Some a \<Rightarrow>
          (if \<not> prefix ''Bearer '' a then (Some (HTTPException 401 ''missing bearer token''), iss)
           else (let token = drop (length ''Bearer '') a in
             case map_of iss token of
               None \<Rightarrow> (Some (HTTPException 401 ''unknown token''), iss)
             | Some expiry \<Rightarrow>
                 (if now > expiry then (Some (HTTPException 401 ''token expired''),
                                        AList.delete token iss)
                  else (None, iss)))))"

definition get_balance ::
    "rat \<Rightarrow> string \<Rightarrow> string option \<Rightarrow> issued \<Rightarrow> (exn + json) \<times> issued" where
  "get_balance now account_id authorization iss =
     (case require_token now authorization iss of
        (Some e, iss') \<Rightarrow> (Inl e, iss')
      | (None, iss') \<Rightarrow> (case map_of balances account_id of
            None \<Rightarrow> (Inl (HTTPException 404 (''no such account: '' @ account_id)), iss')
          | Some record \<Rightarrow>
              (Inr (JObj (dict_merge [(''account_id'', JStr account_id)] record)), iss')))"

text \<open>The HTTP response of a handler's result: the framework turns an \<open>HTTPException\<close> into its
  status and any other exception into a 500.\<close>

fun respond :: "exn + json \<Rightarrow> http_response" where
  "respond (Inr j) = \<lparr>http_status = 200, http_body = Some j\<rparr>"
| "respond (Inl (HTTPException s d)) =
     \<lparr>http_status = s, http_body = Some (JObj [(''detail'', JStr d)])\<rparr>"
| "respond (Inl e) = \<lparr>http_status = 500, http_body = None\<rparr>"

section \<open>Facts about tokens\<close>

definition bearer :: "string \<Rightarrow> string" where
  "bearer t = ''Bearer '' @ t"

definition accepts :: "rat \<Rightarrow> issued \<Rightarrow> string \<Rightarrow> bool" where
  "accepts now iss t \<longleftrightarrow> (\<exists>e. map_of iss t = Some e \<and> now \<le> e)"

lemma require_token_bearer:
  "fst (require_token now (Some (bearer t)) iss) = None \<longleftrightarrow> accepts now iss t"
  by (auto simp: require_token_def bearer_def accepts_def Let_def split: option.splits)

lemma require_token_401:
  "fst (require_token now a iss) = Some e \<Longrightarrow> \<exists>d. e = HTTPException 401 d"
  by (auto simp: require_token_def Let_def split: option.splits if_splits)

lemma require_token_keeps: "fst (require_token now a iss) = None \<Longrightarrow> snd (require_token now a iss) = iss"
  by (auto simp: require_token_def Let_def split: option.splits if_splits)

lemma issue_token_accepts:
  assumes "issue_token st now fresh gt ci cs sc iss = (Inr j, iss')"
    and "now' \<le> now + of_int TOKEN_TTL_S"
  shows "accepts now' iss' fresh"
  using assms by (auto simp: issue_token_def accepts_def update_conv' split: if_splits)

text \<open>Only a token the API issued, and not one past its expiry, opens an account.\<close>

lemma get_balance_Inr:
  "fst (get_balance now acc (Some (bearer t)) iss) = Inr j \<longleftrightarrow>
   accepts now iss t \<and> (\<exists>r. map_of balances acc = Some r \<and>
     j = JObj (dict_merge [(''account_id'', JStr acc)] r))"
  using require_token_bearer [of now t iss]
  by (auto simp: get_balance_def split: option.splits prod.splits)

end
