(* ===== verification/Oauth.thy ===== *)
theory Oauth
  imports Finance_Api
begin

text \<open>
  The client-credentials token cache of \<open>app/mcp/oauth.py\<close>. First the operations one after
  the other, over a network \<open>net\<close> whose state carries the clock; then the coroutines that
  share one cache and its lock, as a labelled step relation.
\<close>

section \<open>The cache and its operations\<close>

record token_cache =
  access_token :: "string option"
  expires_at :: rat

definition new_cache :: token_cache where
  "new_cache = \<lparr>access_token = None, expires_at = 0\<rparr>"

definition REFRESH_MARGIN_S :: rat where
  "REFRESH_MARGIN_S = 60"

definition is_stale :: "rat \<Rightarrow> token_cache \<Rightarrow> bool" where
  "is_stale now c \<longleftrightarrow> access_token c = None \<or> now \<ge> expires_at c - REFRESH_MARGIN_S"

definition force_refresh :: "token_cache \<Rightarrow> token_cache" where
  "force_refresh c = c\<lparr>access_token := None\<rparr>"

text \<open>
  The network: a POST of a form, a GET with an \<open>Authorization\<close> header, the clock, the library's
  \<open>raise_for_status\<close>, \<open>float(...)\<close> on a JSON value, and the text of a JSON value that is
  not a string.
\<close>

record 'w net =
  http_post :: "string \<Rightarrow> (string \<times> string) list \<Rightarrow> 'w \<Rightarrow> (exn + http_response) \<times> 'w"
  http_get :: "string \<Rightarrow> string \<Rightarrow> 'w \<Rightarrow> (exn + http_response) \<times> 'w"
  clock :: "'w \<Rightarrow> rat"
  raise_for_status :: "http_response \<Rightarrow> exn option"
  py_float :: "json \<Rightarrow> exn + rat"
  py_repr :: "json \<Rightarrow> string"

definition token_form :: "settings \<Rightarrow> (string \<times> string) list" where
  "token_form st = [(''grant_type'', ''client_credentials''),
     (''client_id'', finance_oauth_client_id st),
     (''client_secret'', finance_oauth_client_secret st),
     (''scope'', finance_oauth_scope st)]"

text \<open>\<open>resp.json()\<close> and \<open>body[key]\<close>.\<close>

definition json_body :: "http_response \<Rightarrow> exn + json" where
  "json_body r = (case http_body r of None \<Rightarrow> Inl (ValueError ''JSON decode error'') | Some j \<Rightarrow> Inr j)"

definition json_key :: "string \<Rightarrow> json \<Rightarrow> exn + json" where
  "json_key k j = (case j of
       JObj ps \<Rightarrow> (case map_of ps k of None \<Rightarrow> Inl (KeyError k) | Some v \<Rightarrow> Inr v)
     | _ \<Rightarrow> Inl (TypeError ''not a mapping''))"

text \<open>The value stored as the token: \<open>null\<close> is \<open>None\<close>, anything else is used as text.\<close>

definition token_text :: "'w net \<Rightarrow> json \<Rightarrow> string option" where
  "token_text net j = (case j of JNull \<Rightarrow> None | JStr s \<Rightarrow> Some s | _ \<Rightarrow> Some (py_repr net j))"

text \<open>
  \<open>_fetch\<close>: the token is stored before \<open>expires_in\<close> is read, so a body without a usable
  \<open>expires_in\<close> raises with the new token and the old expiry in the cache.
\<close>

definition fetch :: "settings \<Rightarrow> 'w net \<Rightarrow> token_cache \<Rightarrow> 'w \<Rightarrow> exn option \<times> token_cache \<times> 'w" where
  "fetch st net c w =
     (case http_post net (finance_oauth_token_url st) (token_form st) w of
        (Inl e, w') \<Rightarrow> (Some e, c, w')
      | (Inr resp, w') \<Rightarrow>
         (case raise_for_status net resp of
            Some e \<Rightarrow> (Some e, c, w')
          | None \<Rightarrow>
             (case bindr (json_body resp) (json_key ''access_token'') of
                Inl e \<Rightarrow> (Some e, c, w')
              | Inr t \<Rightarrow>
                 (let c' = c\<lparr>access_token := token_text net t\<rparr> in
                  case bindr (bindr (json_body resp) (json_key ''expires_in'')) (py_float net) of
                    Inl e \<Rightarrow> (Some e, c', w')
                  | Inr d \<Rightarrow> (None, c'\<lparr>expires_at := clock net w' + d\<rparr>, w')))))"

text \<open>\<open>value\<close>, run by one coroutine alone: the two staleness checks see the same cache.\<close>

definition token_value ::
    "settings \<Rightarrow> 'w net \<Rightarrow> token_cache \<Rightarrow> 'w \<Rightarrow> (exn + string option) \<times> token_cache \<times> 'w" where
  "token_value st net c w =
     (if \<not> is_stale (clock net w) c then (Inr (access_token c), c, w)
      else (case fetch st net c w of
              (Some e, c', w') \<Rightarrow> (Inl e, c', w')
            | (None, c', w') \<Rightarrow> (Inr (access_token c'), c', w')))"

text \<open>A fetch that does not raise stores the token of the endpoint's answer.\<close>

lemma fetch_token:
  assumes "fetch st net c w = (None, c', w')"
  shows "\<exists>resp t. fst (http_post net (finance_oauth_token_url st) (token_form st) w) = Inr resp \<and>
    bindr (json_body resp) (json_key ''access_token'') = Inr t \<and> access_token c' = token_text net t"
  using assms by (auto simp: fetch_def Let_def split: prod.splits sum.splits option.splits)

lemma token_value_Inr:
  assumes "token_value st net c w = (Inr t, c', w')"
  shows "t = access_token c' \<and> (t = None \<longrightarrow> (\<exists>resp.
    fst (http_post net (finance_oauth_token_url st) (token_form st) w) = Inr resp \<and>
    bindr (json_body resp) (json_key ''access_token'') = Inr JNull))"
proof (cases "is_stale (clock net w) c")
  case True
  with assms have f: "fetch st net c w = (None, c', w')" and t: "t = access_token c'"
    by (auto simp: token_value_def split: prod.splits option.splits)
  have "token_text net j = None \<Longrightarrow> j = JNull" for j
    by (simp add: token_text_def split: json.splits)
  with fetch_token [OF f] t show ?thesis by metis
next
  case False
  with assms show ?thesis by (auto simp: token_value_def is_stale_def)
qed

section \<open>Coroutines sharing the cache\<close>

text \<open>
  Each coroutine calls \<open>value\<close> once. Between two awaits a coroutine runs without
  interruption, so a step is: the first check (returning at once or going for the lock);
  taking the free lock and checking again (returning and releasing, or starting the fetch);
  the fetch's completion (storing token and expiry, returning, releasing) or failure
  (raising, releasing), which may come after the token and before the expiry was stored. \<open>Force\<close> is another coroutine's \<open>force_refresh\<close> and \<open>Tick\<close> the
  passing of time.
\<close>

datatype value_pc = Called | Wait_lock | Fetching | Returned "string option" | Raised

datatype token_label = Check | Acquire | Fetched rat "string option" | Failed | Force | Tick

record token_system =
  cache :: token_cache
  now :: rat
  lock :: "nat option"
  vpc :: "nat \<Rightarrow> value_pc"
  fetches :: nat

inductive token_step :: "token_label \<Rightarrow> token_system \<Rightarrow> token_system \<Rightarrow> bool" where
  fresh: "vpc s i = Called \<Longrightarrow> \<not> is_stale (now s) (cache s) \<Longrightarrow>
     token_step Check s (s\<lparr>vpc := (vpc s)(i := Returned (access_token (cache s)))\<rparr>)"
| stale: "vpc s i = Called \<Longrightarrow> is_stale (now s) (cache s) \<Longrightarrow>
     token_step Check s (s\<lparr>vpc := (vpc s)(i := Wait_lock)\<rparr>)"
| reuse: "vpc s i = Wait_lock \<Longrightarrow> lock s = None \<Longrightarrow> \<not> is_stale (now s) (cache s) \<Longrightarrow>
     token_step Acquire s (s\<lparr>vpc := (vpc s)(i := Returned (access_token (cache s)))\<rparr>)"
| start_fetch: "vpc s i = Wait_lock \<Longrightarrow> lock s = None \<Longrightarrow> is_stale (now s) (cache s) \<Longrightarrow>
     token_step Acquire s (s\<lparr>lock := Some i, vpc := (vpc s)(i := Fetching),
       fetches := Suc (fetches s)\<rparr>)"
| fetched: "vpc s i = Fetching \<Longrightarrow>
     token_step (Fetched d tok) s (s\<lparr>cache := \<lparr>access_token = tok, expires_at = now s + d\<rparr>,
       lock := None, vpc := (vpc s)(i := Returned tok)\<rparr>)"
| failed: "vpc s i = Fetching \<Longrightarrow>
     token_step Failed s (s\<lparr>lock := None, vpc := (vpc s)(i := Raised)\<rparr>)"
| failed_late: "vpc s i = Fetching \<Longrightarrow>
     token_step Failed s (s\<lparr>cache := (cache s)\<lparr>access_token := tok\<rparr>, lock := None,
       vpc := (vpc s)(i := Raised)\<rparr>)"
| force: "token_step Force s (s\<lparr>cache := force_refresh (cache s)\<rparr>)"
| tick: "now s \<le> t \<Longrightarrow> token_step Tick s (s\<lparr>now := t\<rparr>)"

definition token_init :: "token_system \<Rightarrow> bool" where
  "token_init s \<longleftrightarrow> (\<forall>i. vpc s i = Called) \<and> lock s = None \<and> fetches s = 0"

inductive_cases token_stepE: "token_step l s t"

text \<open>The lock is held by the one coroutine that is fetching.\<close>

definition token_inv :: "token_system \<Rightarrow> bool" where
  "token_inv s \<longleftrightarrow> (\<forall>i. vpc s i = Fetching \<longleftrightarrow> lock s = Some i)"

definition any_step :: "token_system \<Rightarrow> token_system \<Rightarrow> bool" where
  "any_step s t \<longleftrightarrow> (\<exists>l. token_step l s t)"

lemma token_inv_step: "token_inv s \<Longrightarrow> any_step s t \<Longrightarrow> token_inv t"
  unfolding any_step_def by (elim exE token_stepE) (auto simp: token_inv_def, (metis value_pc.distinct)+)

interpretation tokens: invariant_system token_init any_step token_inv
proof (unfold_locales, goal_cases)
  case (1 s)
  then show ?case by (simp add: token_init_def token_inv_def)
qed (rule token_inv_step)

text \<open>No coroutine returns without a token as long as the endpoint never sends \<open>null\<close>.\<close>

definition issuing_step :: "token_system \<Rightarrow> token_system \<Rightarrow> bool" where
  "issuing_step s t \<longleftrightarrow> (\<exists>l. token_step l s t \<and> (\<forall>d. l \<noteq> Fetched d None))"

definition returns_inv :: "token_system \<Rightarrow> bool" where
  "returns_inv s \<longleftrightarrow> (\<forall>i. vpc s i \<noteq> Returned None)"

lemma returns_inv_step: "returns_inv s \<Longrightarrow> issuing_step s t \<Longrightarrow> returns_inv t"
  unfolding issuing_step_def
  by (elim exE conjE token_stepE) (auto simp: returns_inv_def is_stale_def)

interpretation returns: invariant_system token_init issuing_step returns_inv
proof (unfold_locales, goal_cases)
  case (1 s)
  then show ?case by (simp add: token_init_def returns_inv_def)
qed (rule returns_inv_step)

text \<open>
  Calm steps: no forced refresh, no failed fetch, time stands still, and a fetched token
  lives longer than the margin. From a cold cache, at most one fetch starts, and after it
  the cache stays fresh.
\<close>

definition calm :: "token_label \<Rightarrow> bool" where
  "calm l \<longleftrightarrow> (case l of Check \<Rightarrow> True | Acquire \<Rightarrow> True
     | Fetched d tok \<Rightarrow> REFRESH_MARGIN_S < d \<and> tok \<noteq> None
     | _ \<Rightarrow> False)"

definition calm_step :: "token_system \<Rightarrow> token_system \<Rightarrow> bool" where
  "calm_step s t \<longleftrightarrow> (\<exists>l. calm l \<and> token_step l s t)"

definition single_inv :: "token_system \<Rightarrow> bool" where
  "single_inv s \<longleftrightarrow> token_inv s \<and> fetches s \<le> 1 \<and>
     (fetches s = 0 \<longrightarrow> lock s = None \<and> is_stale (now s) (cache s) \<and>
        (\<forall>i. vpc s i = Called \<or> vpc s i = Wait_lock)) \<and>
     (fetches s = 1 \<longrightarrow> (if lock s = None
        then \<not> is_stale (now s) (cache s) \<and>
          (\<forall>i t. vpc s i = Returned t \<longrightarrow> t = access_token (cache s)) \<and> (\<forall>i. vpc s i \<noteq> Raised)
        else is_stale (now s) (cache s) \<and> (\<forall>i t. vpc s i \<noteq> Returned t) \<and> (\<forall>i. vpc s i \<noteq> Raised)))"

lemma single_inv_step: "single_inv s \<Longrightarrow> calm_step s t \<Longrightarrow> single_inv t"
proof -
  assume inv: "single_inv s" and "calm_step s t"
  then obtain l where c: "calm l" and st: "token_step l s t" by (auto simp: calm_step_def)
  have ti: "token_inv t" using inv st token_inv_step unfolding single_inv_def any_step_def by blast
  from st show ?thesis
  proof cases
    case (fresh i)
    with inv ti show ?thesis by (cases "fetches s = 0") (auto simp: single_inv_def split: if_splits)
  next
    case (stale i)
    with inv ti show ?thesis by (cases "fetches s = 0") (auto simp: single_inv_def split: if_splits)
  next
    case (reuse i)
    with inv ti show ?thesis by (cases "fetches s = 0") (auto simp: single_inv_def split: if_splits)
  next
    case (start_fetch i)
    with inv have z: "fetches s = 0" by (auto simp: single_inv_def le_Suc_eq split: if_splits)
    with inv have "vpc s j = Called \<or> vpc s j = Wait_lock" for j by (simp add: single_inv_def)
    then have "vpc s j \<noteq> Raised" "vpc s j \<noteq> Returned r" for j r
      by (metis value_pc.distinct)+
    with start_fetch z ti show ?thesis by (auto simp: single_inv_def)
  next
    case (fetched i d tok)
    from inv fetched have l: "lock s = Some i" "fetches s = 1"
      by (auto simp: single_inv_def token_inv_def le_Suc_eq)
    with inv have "\<forall>j t. vpc s j \<noteq> Returned t" "\<forall>j. vpc s j \<noteq> Raised" by (auto simp: single_inv_def)
    with fetched l c ti show ?thesis
      by (auto simp: single_inv_def is_stale_def calm_def split: if_splits)
  qed (use c in \<open>auto simp: calm_def\<close>)
qed

definition cold_start :: "token_system \<Rightarrow> bool" where
  "cold_start s \<longleftrightarrow> token_init s \<and> is_stale (now s) (cache s)"

interpretation single_flight: invariant_system cold_start calm_step single_inv
proof (unfold_locales, goal_cases)
  case (1 s)
  then show ?case by (simp add: cold_start_def token_init_def single_inv_def token_inv_def)
qed (rule single_inv_step)

end
