(* ===== verification/Utf8.thy ===== *)
theory Utf8
  imports Prelude
begin

text \<open>
  Text as lists of code points, its UTF-8 encoding (\<open>str.encode("utf-8")\<close>, strict) and
  decoding, and the newline translation of reading in text mode. The file server uses them
  through \<open>read_text\<close> and \<open>write_bytes\<close> (\<open>app/mcp/fs_server.py\<close>).
\<close>

section \<open>Encoding\<close>

text \<open>Surrogates have no encoding.\<close>

definition encode_char :: "nat \<Rightarrow> nat list option" where
  "encode_char c =
     (if c < 128 then Some [c]
      else if c < 2048 then Some [192 + c div 64, 128 + c mod 64]
      else if 55296 \<le> c \<and> c \<le> 57343 then None
      else if c < 65536 then Some [224 + c div 4096, 128 + c div 64 mod 64, 128 + c mod 64]
      else if c < 1114112 then
        Some [240 + c div 262144, 128 + c div 4096 mod 64, 128 + c div 64 mod 64, 128 + c mod 64]
      else None)"

fun encode :: "nat list \<Rightarrow> nat list option" where
  "encode [] = Some []"
| "encode (c # cs) = (case encode_char c of None \<Rightarrow> None
     | Some b \<Rightarrow> (case encode cs of None \<Rightarrow> None | Some bs \<Rightarrow> Some (b @ bs)))"

section \<open>Decoding\<close>

text \<open>The length of a sequence by its first byte, 0 for a byte that cannot start one, and the
  code point a sequence spells. A sequence is accepted when it is the encoding of that code
  point, which excludes overlong forms, surrogates and stray continuation bytes.\<close>

definition sequence_length :: "nat \<Rightarrow> nat" where
  "sequence_length b = (if b < 128 then 1 else if b < 192 then 0 else if b < 224 then 2
     else if b < 240 then 3 else if b < 248 then 4 else 0)"

fun code_point :: "nat list \<Rightarrow> nat" where
  "code_point [a] = a"
| "code_point [a, b] = (a - 192) * 64 + (b - 128)"
| "code_point [a, b, c] = (a - 224) * 4096 + (b - 128) * 64 + (c - 128)"
| "code_point [a, b, c, d] = (a - 240) * 262144 + (b - 128) * 4096 + (c - 128) * 64 + (d - 128)"
| "code_point _ = 0"

function decode :: "nat list \<Rightarrow> nat list option" where
  "decode [] = Some []"
| "decode (b # bs) =
     (let n = sequence_length b; sq = take n (b # bs); c = code_point sq in
      if n = 0 \<or> length (b # bs) < n then None
      else if encode_char c = Some sq then map_option ((#) c) (decode (drop n (b # bs)))
      else None)"
  by pat_completeness auto
termination by (relation "measure length") auto

declare decode.simps(2) [simp del]

section \<open>Universal newlines\<close>

text \<open>Reading in text mode turns CR LF and a lone CR into LF.\<close>

fun universal_newlines :: "nat list \<Rightarrow> nat list" where
  "universal_newlines [] = []"
| "universal_newlines [c] = [if c = 13 then 10 else c]"
| "universal_newlines (c # d # cs) =
     (if c = 13 then 10 # universal_newlines (if d = 10 then cs else d # cs)
      else c # universal_newlines (d # cs))"

lemma universal_newlines_id: "13 \<notin> set cs \<Longrightarrow> universal_newlines cs = cs"
  by (induction cs rule: universal_newlines.induct) auto

lemma universal_newlines_no_cr: "13 \<notin> set (universal_newlines cs)"
  by (induction cs rule: universal_newlines.induct) auto

lemma universal_newlines_eq_iff: "universal_newlines cs = cs \<longleftrightarrow> 13 \<notin> set cs"
  using universal_newlines_id universal_newlines_no_cr by metis

section \<open>Round trips\<close>

lemma digits3: "64 * x \<le> c \<Longrightarrow> 64 * y \<le> x \<Longrightarrow>
    y * 4096 + (x - 64 * y) * 64 + (c - 64 * x) = (c :: nat)"
  by arith

lemma digits4: "64 * x \<le> c \<Longrightarrow> 64 * y \<le> x \<Longrightarrow> 64 * z \<le> y \<Longrightarrow>
    z * 262144 + (y - 64 * z) * 4096 + (x - 64 * y) * 64 + (c - 64 * x) = (c :: nat)"
  by arith

lemma encode_char_code_point:
  assumes "encode_char c = Some s"
  shows "s \<noteq> [] \<and> sequence_length (hd s) = length s \<and> code_point s = c"
proof -
  have m: "c div 64 mod 64 = c div 64 - 64 * (c div 4096)"
    "c div 4096 mod 64 = c div 4096 - 64 * (c div 262144)" "c mod 64 = c - 64 * (c div 64)"
    by (simp_all add: modulo_nat_def div_mult2_eq [symmetric])
  have le: "64 * (c div 64) \<le> c" "64 * (c div 4096) \<le> c div 64" "64 * (c div 262144) \<le> c div 4096"
    using times_div_less_eq_dividend [of 64 c] times_div_less_eq_dividend [of 64 "c div 64"]
      times_div_less_eq_dividend [of 64 "c div 4096"]
    by (simp_all add: div_mult2_eq [symmetric])
  consider "c < 128" | "128 \<le> c" "c < 2048" | "2048 \<le> c" "c < 65536" | "65536 \<le> c" "c < 1114112"
  proof -
    have "c < 1114112" using assms by (simp add: encode_char_def split: if_splits)
    with that show thesis by linarith
  qed
  then show ?thesis
  proof cases
    case 1
    with assms show ?thesis by (auto simp: encode_char_def sequence_length_def)
  next
    case 2
    then have "s = [192 + c div 64, 128 + c mod 64]" and "c div 64 < 32"
      using assms by (auto simp: encode_char_def)
    then show ?thesis by (auto simp: sequence_length_def)
  next
    case 3
    then have "s = [224 + c div 4096, 128 + c div 64 mod 64, 128 + c mod 64]" and "c div 4096 < 16"
      using assms by (auto simp: encode_char_def split: if_splits)
    then show ?thesis using digits3 [OF le(1,2)] by (simp add: sequence_length_def m(1,3))
  next
    case 4
    then have "s = [240 + c div 262144, 128 + c div 4096 mod 64, 128 + c div 64 mod 64, 128 + c mod 64]"
      and "c div 262144 < 8"
      using assms by (auto simp: encode_char_def split: if_splits)
    then show ?thesis using digits4 [OF le] by (simp add: sequence_length_def m)
  qed
qed

lemma decode_sequence:
  assumes "encode_char c = Some s"
  shows "decode (s @ r) = map_option ((#) c) (decode r)"
proof -
  from encode_char_code_point [OF assms] obtain b s' where s: "s = b # s'"
    and l: "sequence_length b = length s" and c: "code_point s = c" by (cases s) auto
  have "decode (s @ r) = decode (b # (s' @ r))" by (simp add: s)
  also have "\<dots> = (let sq = take (length s) (s @ r) in
      if encode_char (code_point sq) = Some sq then map_option ((#) (code_point sq)) (decode (drop (length s) (s @ r)))
      else None)"
    by (simp add: decode.simps(2) l Let_def s)
  also have "\<dots> = map_option ((#) c) (decode r)" by (simp add: assms c)
  finally show ?thesis .
qed

lemma decode_encode: "encode cs = Some bs \<Longrightarrow> decode bs = Some cs"
  by (induction cs arbitrary: bs) (auto simp: decode_sequence split: option.splits)

lemma encode_decode: "decode bs = Some cs \<Longrightarrow> encode cs = Some bs"
proof (induction bs arbitrary: cs rule: decode.induct)
  case 1
  then show ?case by simp
next
  case (2 b bs)
  define n where "n = sequence_length b"
  define sq where "sq = take n (b # bs)"
  from "2.prems" obtain cs' where n: "n \<noteq> 0" "n \<le> length (b # bs)"
    and e: "encode_char (code_point sq) = Some sq"
    and d: "decode (drop n (b # bs)) = Some cs'" and cs: "cs = code_point sq # cs'"
    unfolding decode.simps(2) Let_def n_def [symmetric] sq_def [symmetric]
    by (auto split: if_splits)
  have "encode cs' = Some (drop n (b # bs))"
    by (rule "2.IH" [OF n_def sq_def refl _ e d]) (use n in auto)
  with e cs have "encode cs = Some (sq @ drop n (b # bs))" by simp
  then show ?case unfolding sq_def append_take_drop_id .
qed

text \<open>Translating newlines keeps a text encodable.\<close>

lemma encode_Some_iff: "(\<exists>bs. encode cs = Some bs) \<longleftrightarrow> (\<forall>c \<in> set cs. encode_char c \<noteq> None)"
  by (induction cs) (auto split: option.splits)

lemma set_universal_newlines: "set (universal_newlines cs) \<subseteq> insert 10 (set cs)"
  by (induction cs rule: universal_newlines.induct) (auto split: if_splits)

lemma encode_newlines:
  assumes "encode cs = Some bs"
  shows "\<exists>u. encode (universal_newlines cs) = Some u"
proof -
  have "encode_char 10 \<noteq> None" by (simp add: encode_char_def)
  moreover have "\<forall>c \<in> set cs. encode_char c \<noteq> None" using encode_Some_iff [of cs] assms by blast
  ultimately have "\<forall>c \<in> set (universal_newlines cs). encode_char c \<noteq> None"
    using set_universal_newlines [of cs] by blast
  then show ?thesis by (simp only: encode_Some_iff)
qed

end
