(* ===== verification/Mcp_Auth.thy ===== *)
theory Mcp_Auth
  imports Config Utf8
begin

text \<open>
  The bearer gate of the local tool servers, \<open>app/mcp/auth.py\<close>: the check at import, and the
  middleware in front of every request. Header and token are texts of code points; the
  comparison is on their UTF-8 bytes, and a text without an encoding raises.
\<close>

definition codes :: "string \<Rightarrow> nat list" where
  "codes s = map of_char s"

lemma codes_inject [simp]: "codes s = codes t \<longleftrightarrow> s = t"
  by (auto simp: codes_def inj_def intro: map_injective)

definition PLACEHOLDER :: string where
  "PLACEHOLDER = ''dev-only-change-me''"

definition startup_check :: "settings \<Rightarrow> exn + unit" where
  "startup_check st = (if app_env st \<noteq> ''dev'' \<and> mcp_auth_token st = PLACEHOLDER
     then Inl (OtherError (''MCP_AUTH_TOKEN is still the placeholder; set a real secret '' @
       ''(APP_ENV=dev bypasses this check for local work).''))
     else Inr ())"

definition utf8 :: "nat list \<Rightarrow> exn + nat list" where
  "utf8 t = (case encode t of None \<Rightarrow> Inl (ValueError ''surrogates not allowed'') | Some b \<Rightarrow> Inr b)"

definition bearer_header :: "settings \<Rightarrow> string" where
  "bearer_header st = ''Bearer '' @ mcp_auth_token st"

text \<open>\<open>EXPECTED\<close>, computed at import after the check; importing the module yields the middleware
  or raises.\<close>

definition expected :: "settings \<Rightarrow> exn + nat list" where
  "expected st = bindr (startup_check st) (\<lambda>_. utf8 (codes (bearer_header st)))"

datatype 'r gate_answer = Unauthorized | Passed 'r

definition dispatch ::
    "nat list \<Rightarrow> nat list option \<Rightarrow> ('s \<Rightarrow> 'r \<times> 's) \<Rightarrow> 's \<Rightarrow> (exn + 'r gate_answer) \<times> 's" where
  "dispatch secret header call_next s =
     (case utf8 (case header of None \<Rightarrow> [] | Some h \<Rightarrow> h) of
        Inl e \<Rightarrow> (Inl e, s)
      | Inr presented \<Rightarrow> if presented \<noteq> secret then (Inr Unauthorized, s)
          else (case call_next s of (r, s') \<Rightarrow> (Inr (Passed r), s')))"

section \<open>What the gate lets through\<close>

lemma utf8_inj: "utf8 a = Inr b \<Longrightarrow> utf8 a' = Inr b \<Longrightarrow> a = a'"
  by (auto simp: utf8_def dest!: decode_encode split: option.splits)

lemma expected_Inr:
  assumes "expected st = Inr secret"
  shows "utf8 (codes (bearer_header st)) = Inr secret \<and>
    (app_env st = ''dev'' \<or> mcp_auth_token st \<noteq> PLACEHOLDER)"
  using assms by (cases "app_env st \<noteq> ''dev'' \<and> mcp_auth_token st = PLACEHOLDER")
    (simp_all only: expected_def startup_check_def bindr_Inr_iff if_True if_False simp_thms
      HOL.simp_thms sum.distinct ex_simps, blast+)

lemma bearer_not_empty: "[] \<noteq> codes (bearer_header st)"
  by (simp add: bearer_header_def codes_def)

text \<open>The gate is exact: once the server has started, the wrapped application runs on a
  request exactly when its Authorization header is the word Bearer, a blank and the configured
  token, character for character; any other request is refused, or raises when its header has
  no encoding, and does not reach the application. Outside the development environment a
  server holding the placeholder token does not start.\<close>

theorem bearer_gate_exact:
  assumes "expected st = Inr secret"
  shows "dispatch secret header call_next s =
      (if header = Some (codes (bearer_header st))
       then (Inr (Passed (fst (call_next s))), snd (call_next s))
       else (bindr (utf8 (case header of None \<Rightarrow> [] | Some h \<Rightarrow> h)) (\<lambda>_. Inr Unauthorized), s)) \<and>
    (app_env st = ''dev'' \<or> mcp_auth_token st \<noteq> PLACEHOLDER)"
proof -
  let ?h = "case header of None \<Rightarrow> [] | Some h \<Rightarrow> h"
  from expected_Inr [OF assms] have secret: "utf8 (codes (bearer_header st)) = Inr secret"
    and start: "app_env st = ''dev'' \<or> mcp_auth_token st \<noteq> PLACEHOLDER" by blast+
  show ?thesis
  proof (cases "header = Some (codes (bearer_header st))")
    case True
    with secret start show ?thesis by (simp add: dispatch_def split_beta)
  next
    case False
    then have "?h \<noteq> codes (bearer_header st)" by (cases header) (simp_all add: bearer_not_empty)
    with utf8_inj [OF _ secret] have "utf8 ?h \<noteq> Inr secret" by blast
    with False start show ?thesis by (cases "utf8 ?h") (simp_all add: dispatch_def)
  qed
qed

theorem bearer_gate_exact_witness:
  "\<exists>secret. expected default_settings = Inr secret \<and>
     dispatch secret (Some (codes ''Bearer wrong'')) (\<lambda>n. ((), Suc n)) 0 = (Inr Unauthorized, 0) \<and>
     dispatch secret (Some (codes ''Bearer dev-only-change-me'')) (\<lambda>n. ((), Suc n)) 0 =
       (Inr (Passed ()), 1)"
proof -
  have "\<not> isl (expected default_settings)" by code_simp
  then obtain secret where e: "expected default_settings = Inr secret"
    by (metis sum.collapse(2))
  have "utf8 (codes ''Bearer wrong'') = Inr (codes ''Bearer wrong'')" by code_simp
  moreover have "bearer_header default_settings = ''Bearer dev-only-change-me''"
    by (simp add: bearer_header_def default_settings_def)
  ultimately show ?thesis
    using e bearer_gate_exact [OF e, of "Some (codes ''Bearer wrong'')" "\<lambda>n. ((), Suc n)" 0]
      bearer_gate_exact [OF e, of "Some (codes ''Bearer dev-only-change-me'')" "\<lambda>n. ((), Suc n)" 0]
    by (intro exI [of _ secret]) simp
qed

end
