(* ===== verification/Finance_Server.thy ===== *)
theory Finance_Server
  imports Oauth Mcp_Auth
begin

text \<open>
  The finance MCP server, \<open>app/mcp/finance_server.py\<close>: the balance lookup with its single
  retry after a 401 and its audit trail. The locale \<open>bearer_service\<close> is what the lookup
  relies on at the other end; it is interpreted on the finance API of theory
  \<open>Finance_Api\<close>, reached over a network with latency.
\<close>

section \<open>Start-up\<close>

text \<open>Importing the module: the gate's check first, then the client secret's, then the token
  cache on the configured endpoint.\<close>

definition start_finance_server :: "settings \<Rightarrow> exn + nat list \<times> token_cache" where
  "start_finance_server st = bindr (expected st) (\<lambda>secret.
     if app_env st \<noteq> ''dev'' \<and> finance_oauth_client_secret st = PLACEHOLDER
     then Inl (OtherError (''FINANCE_OAUTH_CLIENT_SECRET is still the placeholder; set a real '' @
       ''secret (APP_ENV=dev bypasses this for local work).''))
     else Inr (secret, new_cache))"

lemma started_with_secrets:
  assumes "start_finance_server st = Inr (secret, c)"
  shows "app_env st = ''dev'' \<or>
    mcp_auth_token st \<noteq> PLACEHOLDER \<and> finance_oauth_client_secret st \<noteq> PLACEHOLDER"
proof -
  from assms obtain x where "expected st = Inr x" and
    "\<not> (app_env st \<noteq> ''dev'' \<and> finance_oauth_client_secret st = PLACEHOLDER)"
    unfolding start_finance_server_def bindr_Inr_iff by (auto split: if_splits)
  with expected_Inr show ?thesis by blast
qed

section \<open>The lookup\<close>

definition balance_url :: "settings \<Rightarrow> string \<Rightarrow> string" where
  "balance_url st account_id = finance_api_url st @ ''/accounts/'' @ account_id @ ''/balance''"

definition py_show_option :: "string option \<Rightarrow> string" where
  "py_show_option t = (case t of None \<Rightarrow> ''None'' | Some s \<Rightarrow> s)"

text \<open>The loop over the attempts; running off its end returns \<open>None\<close>.\<close>

fun call_attempts ::
    "settings \<Rightarrow> 'w net \<Rightarrow> string \<Rightarrow> nat list \<Rightarrow> token_cache \<Rightarrow> 'w \<Rightarrow>
     (exn + json option) \<times> token_cache \<times> 'w" where
  "call_attempts st net acc [] c w = (Inr None, c, w)"
| "call_attempts st net acc (attempt # rest) c w =
     (case token_value st net c w of
        (Inl e, c1, w1) \<Rightarrow> (Inl e, c1, w1)
      | (Inr t, c1, w1) \<Rightarrow>
         (case http_get net (balance_url st acc) (bearer (py_show_option t)) w1 of
            (Inl e, w2) \<Rightarrow> (Inl e, c1, w2)
          | (Inr resp, w2) \<Rightarrow>
             (if http_status resp = 401 \<and> attempt = 1
              then call_attempts st net acc rest (force_refresh c1) w2
              else (case raise_for_status net resp of
                      Some e \<Rightarrow> (Inl e, c1, w2)
                    | None \<Rightarrow> (bindr (json_body resp) (\<lambda>j. Inr (Some j)), c1, w2)))))"

definition call_api ::
    "settings \<Rightarrow> 'w net \<Rightarrow> string \<Rightarrow> token_cache \<Rightarrow> 'w \<Rightarrow> (exn + json option) \<times> token_cache \<times> 'w" where
  "call_api st net acc c w = call_attempts st net acc [1, 2] c w"

section \<open>The audit trail\<close>

record balance_query_event =
  bq_account_id :: string
  bq_thread_id :: "string option"
  bq_username :: "string option"
  bq_outcome :: string
  bq_detail :: "string option"

type_synonym balance_events = "balance_query_event list"

text \<open>\<open>commit\<close> is the database's answer to storing the row.\<close>

definition audit ::
    "(balance_query_event \<Rightarrow> exn option) \<Rightarrow> balance_query_event \<Rightarrow> balance_events \<Rightarrow>
     exn option \<times> balance_events" where
  "audit commit ev rows = (case commit ev of None \<Rightarrow> (None, rows @ [ev]) | Some e \<Rightarrow> (Some e, rows))"

fun http_error_text :: "exn \<Rightarrow> string" where
  "http_error_text (HTTPError t) = t"
| "http_error_text _ = []"

definition get_account_balance ::
    "settings \<Rightarrow> 'w net \<Rightarrow> (balance_query_event \<Rightarrow> exn option) \<Rightarrow> string option \<Rightarrow> string \<Rightarrow>
     token_cache \<Rightarrow> 'w \<Rightarrow> balance_events \<Rightarrow>
     (exn + json option) \<times> token_cache \<times> 'w \<times> balance_events" where
  "get_account_balance st net commit client_id account_id c w rows =
     (case call_api st net account_id c w of
        (Inl e, c', w') \<Rightarrow>
          (if is_http_error e
           then (case audit commit \<lparr>bq_account_id = account_id, bq_thread_id = client_id,
                     bq_username = None, bq_outcome = ''error'',
                     bq_detail = Some (take 256 (http_error_text e))\<rparr> rows of
                   (None, rows') \<Rightarrow> (Inl e, c', w', rows')
                 | (Some e', rows') \<Rightarrow> (Inl e', c', w', rows'))
           else (Inl e, c', w', rows))
      | (Inr j, c', w') \<Rightarrow>
          (case audit commit \<lparr>bq_account_id = account_id, bq_thread_id = client_id,
                     bq_username = None, bq_outcome = ''ok'', bq_detail = None\<rparr> rows of
             (None, rows') \<Rightarrow> (Inr j, c', w', rows')
           | (Some e', rows') \<Rightarrow> (Inl e', c', w', rows')))"

text \<open>The loop never runs off its end: the second attempt returns or raises.\<close>

lemma call_api_not_None: "fst (call_api st net acc c w) \<noteq> Inr None"
  by (auto simp: call_api_def json_body_def split: prod.splits sum.splits option.splits)

section \<open>What the lookup needs of the service\<close>

locale bearer_service =
  fixes st :: settings and net :: "'w net"
    and good :: "'w \<Rightarrow> bool" and valid :: "'w \<Rightarrow> string \<Rightarrow> bool"
    and balance :: "string \<Rightarrow> json option"
  assumes post_issues: "good w \<Longrightarrow>
      \<exists>w' t d. fetch st net c w = (None, \<lparr>access_token = Some t, expires_at = clock net w' + d\<rparr>, w') \<and>
        good w' \<and> valid w' t"
    and get_valid: "good w \<Longrightarrow> valid w t \<Longrightarrow> balance acc = Some j \<Longrightarrow>
      \<exists>w'. http_get net (balance_url st acc) (bearer t) w =
          (Inr \<lparr>http_status = 200, http_body = Some j\<rparr>, w') \<and> good w'"
    and get_invalid: "good w \<Longrightarrow> \<not> valid w t \<Longrightarrow> balance acc = Some j \<Longrightarrow>
      \<exists>w' r. http_get net (balance_url st acc) (bearer t) w = (Inr r, w') \<and>
        http_status r = 401 \<and> good w'"
    and status_ok: "http_status r = 200 \<Longrightarrow> raise_for_status net r = None"
begin

text \<open>An attempt with a valid token in hand answers with the balance.\<close>

lemma attempt_valid:
  assumes "token_value st net c w = (Inr (Some t), c1, w1)" and "good w1" and "valid w1 t"
    and "balance acc = Some j"
  shows "\<exists>w'. call_attempts st net acc (a # as) c w = (Inr (Some j), c1, w') \<and> good w'"
proof -
  from get_valid [OF assms(2,3,4)] obtain w' where
    "http_get net (balance_url st acc) (bearer t) w1 =
       (Inr \<lparr>http_status = 200, http_body = Some j\<rparr>, w')" "good w'" by blast
  with assms(1) show ?thesis by (simp add: py_show_option_def status_ok json_body_def)
qed

lemma stale_attempt:
  assumes "is_stale (clock net w) c" and "good w" and "balance acc = Some j"
  shows "\<exists>c' w'. call_attempts st net acc (a # as) c w = (Inr (Some j), c', w') \<and> good w'"
proof -
  from post_issues [OF assms(2)] obtain w1 t d where
    f: "fetch st net c w = (None, \<lparr>access_token = Some t, expires_at = clock net w1 + d\<rparr>, w1)"
    "good w1" "valid w1 t" by blast
  with assms(1) have "token_value st net c w =
      (Inr (Some t), \<lparr>access_token = Some t, expires_at = clock net w1 + d\<rparr>, w1)"
    by (simp add: token_value_def)
  from attempt_valid [OF this f(2,3) assms(3)] show ?thesis by blast
qed

text \<open>Whatever the cache holds, the lookup of a known account succeeds.\<close>

lemma call_api_succeeds:
  assumes "good w" and "balance acc = Some j"
  shows "\<exists>c' w'. call_api st net acc c w = (Inr (Some j), c', w') \<and> good w'"
proof (cases "is_stale (clock net w) c")
  case True
  then show ?thesis unfolding call_api_def using assms by (rule stale_attempt)
next
  case False
  then obtain t where t: "access_token c = Some t" by (auto simp: is_stale_def)
  with False have tv: "token_value st net c w = (Inr (Some t), c, w)"
    by (simp add: token_value_def)
  show ?thesis
  proof (cases "valid w t")
    case True
    from attempt_valid [OF tv assms(1) True assms(2)] show ?thesis unfolding call_api_def by blast
  next
    case False
    from get_invalid [OF assms(1) False assms(2)] obtain w1 r where
      g: "http_get net (balance_url st acc) (bearer t) w = (Inr r, w1)" "http_status r = 401" "good w1"
      by blast
    have "is_stale (clock net w1) (force_refresh c)" by (simp add: is_stale_def force_refresh_def)
    from stale_attempt [OF this g(3) assms(2)] tv g(1,2) show ?thesis
      unfolding call_api_def by (simp add: py_show_option_def)
  qed
qed

end

section \<open>The service is the finance API\<close>

text \<open>
  The API behind a network: its clock, the latency of a message in either direction, the
  tokens issued, and a counter from which the call's fresh token text is drawn.
\<close>

record api_world =
  w_now :: rat
  w_delay :: rat
  w_issued :: issued
  w_drawn :: nat

definition arrive :: "api_world \<Rightarrow> api_world" where
  "arrive w = w\<lparr>w_now := w_now w + w_delay w\<rparr>"

definition form_field :: "(string \<times> string) list \<Rightarrow> string \<Rightarrow> string" where
  "form_field form k = (case map_of form k of None \<Rightarrow> [] | Some v \<Rightarrow> v)"

text \<open>The account a balance URL addresses: its path ends at a question mark or a number sign, the
  rest being query and fragment, and the account id is one segment of the path. Percent escapes
  and dot segments are left out.\<close>

definition path_account :: "string \<Rightarrow> string option" where
  "path_account rest = (let p = takeWhile (\<lambda>c. c \<noteq> CHR ''?'' \<and> c \<noteq> CHR 0x23) rest;
       acc = take (length p - length ''/balance'') p
     in if suffix ''/balance'' p \<and> CHR ''/'' \<notin> set acc then Some acc else None)"

definition url_account :: "settings \<Rightarrow> string \<Rightarrow> string option" where
  "url_account st url = (let base = finance_api_url st @ ''/accounts/''
     in if prefix base url then path_account (drop (length base) url) else None)"

definition api_post ::
    "settings \<Rightarrow> (nat \<Rightarrow> string) \<Rightarrow> string \<Rightarrow> (string \<times> string) list \<Rightarrow> api_world \<Rightarrow>
     (exn + http_response) \<times> api_world" where
  "api_post st draw url form w = (let w1 = arrive w in
     if url \<noteq> finance_oauth_token_url st then (Inr \<lparr>http_status = 404, http_body = None\<rparr>, arrive w1)
     else (case issue_token st (w_now w1) (draw (w_drawn w1)) (form_field form ''grant_type'')
              (form_field form ''client_id'') (form_field form ''client_secret'')
              (form_field form ''scope'') (w_issued w1) of
        (r, iss) \<Rightarrow> (Inr (respond r), arrive (w1\<lparr>w_issued := iss, w_drawn := Suc (w_drawn w1)\<rparr>))))"

definition api_get ::
    "settings \<Rightarrow> string \<Rightarrow> string \<Rightarrow> api_world \<Rightarrow> (exn + http_response) \<times> api_world" where
  "api_get st url auth w = (let w1 = arrive w in
     case url_account st url of
       None \<Rightarrow> (Inr \<lparr>http_status = 404, http_body = None\<rparr>, arrive w1)
     | Some acc \<Rightarrow> (case get_balance (w_now w1) acc (Some auth) (w_issued w1) of
         (r, iss) \<Rightarrow> (Inr (respond r), arrive (w1\<lparr>w_issued := iss\<rparr>))))"

definition api_net :: "settings \<Rightarrow> (nat \<Rightarrow> string) \<Rightarrow> api_world net" where
  "api_net st draw = \<lparr>http_post = api_post st draw, http_get = api_get st, clock = w_now,
     raise_for_status = (\<lambda>r. if 200 \<le> http_status r \<and> http_status r < 300 then None
        else Some (HTTPError ''status error'')),
     py_float = (\<lambda>j. case j of JInt i \<Rightarrow> Inr (of_int i) | JFloat x \<Rightarrow> Inr x
        | _ \<Rightarrow> Inl (TypeError ''float'')), py_repr = repr_json (\<lambda>x. [])\<rparr>"

text \<open>Latency is bounded by half the request timeout of ten seconds.\<close>

definition good_world :: "api_world \<Rightarrow> bool" where
  "good_world w \<longleftrightarrow> 0 \<le> w_delay w \<and> w_delay w \<le> 5"

definition known_balance :: "string \<Rightarrow> json option" where
  "known_balance acc = map_option (\<lambda>r. JObj (dict_merge [(''account_id'', JStr acc)] r))
     (map_of balances acc)"

lemma arrive_simps [simp]:
  "w_now (arrive w) = w_now w + w_delay w" "w_delay (arrive w) = w_delay w"
  "w_issued (arrive w) = w_issued w" "w_drawn (arrive w) = w_drawn w"
  "good_world (arrive w) = good_world w"
  by (simp_all add: arrive_def good_world_def)

lemma api_net_simps [simp]:
  "http_post (api_net st draw) = api_post st draw" "http_get (api_net st draw) = api_get st"
  "clock (api_net st draw) = w_now"
  by (simp_all add: api_net_def)

lemma known_balance_Some: "known_balance acc = Some j \<Longrightarrow> acc = ''ACC-1001'' \<or> acc = ''ACC-2002''"
  by (auto simp: known_balance_def balances_def split: if_splits)

lemma url_account_balance_url: "url_account st (balance_url st acc) = path_account (acc @ ''/balance'')"
  by (simp add: url_account_def balance_url_def)

text \<open>The balance behind whatever account the id makes the URL address.\<close>

definition addressed_balance :: "string \<Rightarrow> json option" where
  "addressed_balance acc = Option.bind (path_account (acc @ ''/balance'')) known_balance"

lemma addressed_Some:
  "addressed_balance acc = Some j \<Longrightarrow>
     \<exists>a. url_account st (balance_url st acc) = Some a \<and> known_balance a = Some j"
  by (simp add: addressed_balance_def url_account_balance_url bind_eq_Some_conv)

text \<open>A known account is addressed by its id, and also by its id with the rest of the path and a
  query appended.\<close>

lemma addressed_known: "known_balance acc = Some j \<Longrightarrow> addressed_balance acc = Some j"
  and addressed_alias: "known_balance acc = Some j \<Longrightarrow> addressed_balance (acc @ ''/balance?'' @ t) = Some j"
proof -
  assume k: "known_balance acc = Some j"
  from known_balance_Some [OF this] have "path_account (acc @ ''/balance'') = Some acc"
    and "path_account ((acc @ ''/balance?'' @ t) @ ''/balance'') = Some acc"
    by (auto simp: path_account_def suffix_def)
  with k show "addressed_balance acc = Some j" "addressed_balance (acc @ ''/balance?'' @ t) = Some j"
    by (simp_all add: addressed_balance_def)
qed

lemma api_fetch:
  "fetch st (api_net st draw) c w =
     (None, \<lparr>access_token = Some (draw (w_drawn w)), expires_at = w_now w + 2 * w_delay w + 3600\<rparr>,
      arrive ((arrive w)\<lparr>w_issued := AList.update (draw (w_drawn w)) (w_now w + w_delay w + 3600)
          (w_issued w), w_drawn := Suc (w_drawn w)\<rparr>))"
  by (simp add: fetch_def api_post_def Let_def token_form_def form_field_def issue_token_def
      clients_def api_net_def json_body_def json_key_def token_text_def TOKEN_TTL_S_def arrive_def)

lemma api_get_known:
  assumes "addressed_balance acc = Some j"
  shows "accepts (w_now w + w_delay w) (w_issued w) t \<Longrightarrow>
      fst (api_get st (balance_url st acc) (bearer t) w) = Inr \<lparr>http_status = 200, http_body = Some j\<rparr>"
    and "\<not> accepts (w_now w + w_delay w) (w_issued w) t \<Longrightarrow>
      \<exists>r. fst (api_get st (balance_url st acc) (bearer t) w) = Inr r \<and> http_status r = 401"
    and "good_world (snd (api_get st (balance_url st acc) (bearer t) w)) = good_world w"
proof -
  let ?now = "w_now w + w_delay w"
  obtain a where a: "url_account st (balance_url st acc) = Some a" "known_balance a = Some j"
    using addressed_Some [OF assms] by blast
  obtain r where r: "map_of balances a = Some r" "j = JObj (dict_merge [(''account_id'', JStr a)] r)"
    using a(2) by (auto simp: known_balance_def)
  show "good_world (snd (api_get st (balance_url st acc) (bearer t) w)) = good_world w"
    by (auto simp: api_get_def Let_def a(1) good_world_def split: prod.splits)
  show "fst (api_get st (balance_url st acc) (bearer t) w) = Inr \<lparr>http_status = 200, http_body = Some j\<rparr>"
    if "accepts ?now (w_issued w) t"
  proof -
    have "fst (get_balance ?now a (Some (bearer t)) (w_issued w)) = Inr j"
      using that r by (simp add: get_balance_Inr)
    then show ?thesis by (auto simp: api_get_def Let_def a(1) split: prod.splits)
  qed
  show "\<exists>r. fst (api_get st (balance_url st acc) (bearer t) w) = Inr r \<and> http_status r = 401"
    if "\<not> accepts ?now (w_issued w) t"
  proof -
    have "\<exists>d. fst (get_balance ?now a (Some (bearer t)) (w_issued w)) = Inl (HTTPException 401 d)"
      using that require_token_bearer [of ?now t "w_issued w"]
        require_token_401 [of ?now "Some (bearer t)" "w_issued w"]
      by (auto simp: get_balance_def split: option.splits prod.splits)
    then show ?thesis by (auto simp: api_get_def Let_def a(1) split: prod.splits)
  qed
qed

interpretation fin: bearer_service st "api_net st draw" good_world
    "\<lambda>w t. accepts (w_now w + w_delay w) (w_issued w) t" addressed_balance for st draw
proof (unfold_locales, goal_cases)
  case (1 w c)
  then show ?case
    by (simp add: api_fetch accepts_def update_conv' good_world_def)
next
  case (2 w t acc j)
  with api_get_known(1,3) [OF 2(3), where w = w and t = t and st = st] show ?case
    by (cases "api_get st (balance_url st acc) (bearer t) w") auto
next
  case (3 w t acc j)
  with api_get_known(2,3) [OF 3(3), where w = w and t = t and st = st] show ?case
    by (cases "api_get st (balance_url st acc) (bearer t) w") auto
next
  case (4 r)
  then show ?case by (simp add: api_net_def)
qed

end
