(* ===== verification/Finance_Claims.thy ===== *)
theory Finance_Claims
  imports Finance_Server
begin

text \<open>
  The properties of the finance side: the token cache under interleaving coroutines, the
  lookup with its retry and audit rows, and the API's tokens.
\<close>

section \<open>The token cache\<close>

definition cold :: token_system where
  "cold = \<lparr>cache = new_cache, now = 100, lock = None, vpc = (\<lambda>_. Called), fetches = 0\<rparr>"

definition cold_fetching :: token_system where
  "cold_fetching = cold\<lparr>vpc := (vpc cold)(0 := Fetching, 1 := Wait_lock), lock := Some 0, fetches := 1\<rparr>"

definition warm :: token_system where
  "warm = cold_fetching\<lparr>cache := \<lparr>access_token = Some ''tok'', expires_at = 100 + 3600\<rparr>,
     lock := None, vpc := (vpc cold_fetching)(0 := Returned (Some ''tok''))\<rparr>"

lemma cold_init: "token_init cold" "cold_start cold"
  by (simp_all add: cold_def cold_start_def token_init_def is_stale_def new_cache_def)

lemma calm_stepI: "token_step l s t \<Longrightarrow> calm l \<Longrightarrow> calm_step s t"
  by (auto simp: calm_step_def)

lemma calm_simps: "calm Check" "calm Acquire" "calm (Fetched 3600 (Some t))"
  by (simp_all add: calm_def REFRESH_MARGIN_S_def)

lemma cold_run:
  "calm_step\<^sup>*\<^sup>* cold cold_fetching" "calm_step cold_fetching warm"
proof -
  let ?s1 = "cold\<lparr>vpc := (vpc cold)(0 := Wait_lock)\<rparr>"
  let ?s2 = "?s1\<lparr>vpc := (vpc ?s1)(1 := Wait_lock)\<rparr>"
  have "token_step Check cold ?s1" "token_step Check ?s1 ?s2"
    by (rule token_step.stale; simp add: cold_def is_stale_def new_cache_def)+
  then have a: "calm_step cold ?s1" and b: "calm_step ?s1 ?s2"
    by - (rule calm_stepI [OF _ calm_simps(1)], assumption)+
  have "token_step Acquire ?s2 (?s2\<lparr>lock := Some 0, vpc := (vpc ?s2)(0 := Fetching),
      fetches := Suc (fetches ?s2)\<rparr>)"
    by (rule token_step.start_fetch) (auto simp: cold_def is_stale_def new_cache_def)
  also have "?s2\<lparr>lock := Some 0, vpc := (vpc ?s2)(0 := Fetching), fetches := Suc (fetches ?s2)\<rparr> =
      cold_fetching"
    by (auto simp: cold_def cold_fetching_def)
  finally have c: "calm_step ?s2 cold_fetching" by (rule calm_stepI) (rule calm_simps)
  show "calm_step\<^sup>*\<^sup>* cold cold_fetching"
    by (rule converse_rtranclp_into_rtranclp, rule a, rule converse_rtranclp_into_rtranclp, rule b,
        rule r_into_rtranclp, rule c)
  have "token_step (Fetched 3600 (Some ''tok'')) cold_fetching
     (cold_fetching\<lparr>cache := \<lparr>access_token = Some ''tok'', expires_at = now cold_fetching + 3600\<rparr>,
       lock := None, vpc := (vpc cold_fetching)(0 := Returned (Some ''tok''))\<rparr>)"
    by (rule token_step.fetched) (simp add: cold_fetching_def)
  then have "token_step (Fetched 3600 (Some ''tok'')) cold_fetching warm"
    by (simp add: warm_def cold_fetching_def cold_def)
  then show "calm_step cold_fetching warm" by (rule calm_stepI) (rule calm_simps)
qed

lemma calm_any: "calm_step\<^sup>*\<^sup>* s t \<Longrightarrow> any_step\<^sup>*\<^sup>* s t"
  by (rule rtranclp_mono [THEN predicate2D]) (auto simp: calm_step_def any_step_def)

lemma enabled_when_waiting:
  "token_inv s \<Longrightarrow> vpc s i = Wait_lock \<Longrightarrow> \<exists>l t. l \<noteq> Force \<and> l \<noteq> Tick \<and> token_step l s t"
proof (cases "lock s")
  case None
  moreover assume "vpc s i = Wait_lock"
  ultimately have "\<exists>t. token_step Acquire s t"
    by (cases "is_stale (now s) (cache s)") (blast intro: token_step.reuse token_step.start_fetch)+
  then show ?thesis by blast
next
  case (Some j)
  moreover assume "token_inv s"
  ultimately have "vpc s j = Fetching" by (simp add: token_inv_def)
  then show ?thesis by (blast intro: token_step.failed)
qed

text \<open>Whatever the coroutines calling \<open>value\<close>, the forced refreshes and the clock do, at
  most one coroutine fetches a token at a time, the lock is held exactly while it does, and a
  coroutine waiting for the lock is never stuck: a step of the cache's own coroutines is possible.\<close>
theorem token_fetch_exclusive:
  assumes "token_init s" and "any_step\<^sup>*\<^sup>* s t"
  shows "(vpc t i = Fetching \<longleftrightarrow> lock t = Some i) \<and>
    (vpc t i = Fetching \<and> vpc t j = Fetching \<longrightarrow> i = j) \<and>
    (vpc t i = Wait_lock \<longrightarrow> (\<exists>l u. l \<noteq> Force \<and> l \<noteq> Tick \<and> token_step l t u))"
proof -
  have inv: "token_inv t" using assms by (rule tokens.inv_reachable)
  then show ?thesis using enabled_when_waiting [OF inv, of i] by (auto simp: token_inv_def)
qed

theorem token_fetch_exclusive_witness:
  "(vpc cold_fetching 0 = Fetching \<longleftrightarrow> lock cold_fetching = Some 0) \<and>
   (\<exists>l u. l \<noteq> Force \<and> l \<noteq> Tick \<and> token_step l cold_fetching u)"
proof -
  have "vpc cold_fetching 1 = Wait_lock" by (simp add: cold_fetching_def)
  with token_fetch_exclusive [OF cold_init(1) calm_any [OF cold_run(1)], of 0 0]
    token_fetch_exclusive [OF cold_init(1) calm_any [OF cold_run(1)], of 1 1]
  show ?thesis by blast
qed



section \<open>The API's tokens\<close>

text \<open>A token issued for the right credentials opens the known accounts up to and including
  the end of its lifetime and no account after it; with wrong credentials or another grant type
  no token is issued.\<close>
theorem issued_token_lifetime:
  "case issue_token st t0 tok gt ci cs sc iss of
     (Inr _, iss') \<Rightarrow> gt = ''client_credentials'' \<and> map_of (clients st) ci = Some cs \<and>
       (fst (get_balance t acc (Some (bearer tok)) iss') = Inr j \<longleftrightarrow>
          t \<le> t0 + 3600 \<and> known_balance acc = Some j)
   | (Inl e, iss') \<Rightarrow> iss' = iss \<and> \<not> (gt = ''client_credentials'' \<and> map_of (clients st) ci = Some cs)"
  by (auto simp: issue_token_def get_balance_Inr accepts_def update_conv' known_balance_def
      TOKEN_TTL_S_def)

section \<open>The lookup\<close>

definition quiet_world :: api_world where
  "quiet_world = \<lparr>w_now = 1000, w_delay = 1, w_issued = [], w_drawn = 0\<rparr>"

definition old_cache :: token_cache where
  "old_cache = \<lparr>access_token = Some ''revoked'', expires_at = 9000\<rparr>"

definition ok_row :: "string \<Rightarrow> string option \<Rightarrow> balance_query_event" where
  "ok_row acc cid = \<lparr>bq_account_id = acc, bq_thread_id = cid, bq_username = None,
     bq_outcome = ''ok'', bq_detail = None\<rparr>"

text \<open>A lookup answers with the balance its id addresses and leaves one row with that id.\<close>

lemma addressed_lookup:
  assumes "good_world w" and "addressed_balance acc = Some j" and "commit (ok_row acc cid) = None"
  shows "\<exists>c' w'. get_account_balance st (api_net st draw) commit cid acc c w rows =
    (Inr (Some j), c', w', rows @ [ok_row acc cid])"
  using fin.call_api_succeeds [OF assms(1,2), of st draw c] assms(3)
  by (auto simp: get_account_balance_def audit_def ok_row_def)

text \<open>C29. A lookup of a known account over a network with latency answers with its balance
  whatever token the cache holds - none, an expired one or a revoked one that still looks fresh -
  and leaves exactly one audit row, with outcome \<open>ok\<close>.\<close>
theorem balance_lookup_succeeds:
  assumes "good_world w" and "known_balance acc = Some j" and "commit (ok_row acc cid) = None"
  shows "\<exists>c' w'. get_account_balance st (api_net st draw) commit cid acc c w rows =
    (Inr (Some j), c', w', rows @ [ok_row acc cid])"
  by (rule addressed_lookup [OF assms(1) addressed_known [OF assms(2)]]) (rule assms(3))

theorem balance_lookup_succeeds_witness:
  "\<exists>c' w'. get_account_balance default_settings (api_net default_settings show_nat) (\<lambda>_. None)
     (Some ''thread-1'') ''ACC-1001'' old_cache quiet_world [] =
     (Inr (Some (JObj [(''account_id'', JStr ''ACC-1001''), (''balance'', JFloat 1250500.75),
        (''currency'', JStr ''USD'')])), c', w', [] @ [ok_row ''ACC-1001'' (Some ''thread-1'')])"
  by (rule balance_lookup_succeeds)
    (simp_all add: quiet_world_def good_world_def known_balance_def balances_def dict_merge_def)



text \<open>Audit rows: when the database takes the row, a lookup that returns leaves one \<open>ok\<close>
  row, one that raises an HTTP error leaves one \<open>error\<close> row whose detail is at most 256
  characters, and one that raises anything else leaves none. No lookup touches earlier rows.\<close>
theorem balance_audit_rows:
  assumes "\<And>ev. commit ev = None"
  shows "case get_account_balance st net commit cid acc c w rows of
     (Inr (Some _), _, _, rows') \<Rightarrow> rows' = rows @ [ok_row acc cid]
   | (Inr None, _, _, _) \<Rightarrow> False
   | (Inl e, _, _, rows') \<Rightarrow>
       (if is_http_error e
        then \<exists>d. rows' = rows @ [\<lparr>bq_account_id = acc, bq_thread_id = cid, bq_username = None,
               bq_outcome = ''error'', bq_detail = Some d\<rparr>] \<and> length d \<le> 256
        else rows' = rows)"
  using call_api_not_None [of st net acc c w] assms
  by (auto simp: get_account_balance_def audit_def ok_row_def split: prod.splits sum.splits option.splits)

theorem balance_audit_rows_witness:
  "case get_account_balance default_settings (api_net default_settings show_nat) (\<lambda>_. None)
      None ''ACC-9'' old_cache quiet_world [] of
     (Inr (Some _), _, _, rows') \<Rightarrow> rows' = [] @ [ok_row ''ACC-9'' None]
   | (Inr None, _, _, _) \<Rightarrow> False
   | (Inl e, _, _, rows') \<Rightarrow>
       (if is_http_error e
        then \<exists>d. rows' = [] @ [\<lparr>bq_account_id = ''ACC-9'', bq_thread_id = None, bq_username = None,
               bq_outcome = ''error'', bq_detail = Some d\<rparr>] \<and> length d \<le> 256
        else rows' = [])"
  by (rule balance_audit_rows) simp

text \<open>The refresh margin covers the network: when a message takes at most half the margin in
  either direction, a token the client still holds for fresh is accepted by the API on arrival,
  so the 401 retry is only needed for tokens revoked early.\<close>
theorem fresh_token_accepted:
  assumes "fetch st (api_net st draw) c w = (None, c', w')"
    and "0 \<le> w_delay w" and "2 * w_delay w \<le> REFRESH_MARGIN_S"
    and "\<not> is_stale t c'"
  shows "\<exists>tok. access_token c' = Some tok \<and> accepts (t + w_delay w) (w_issued w') tok"
  using assms by (auto simp: api_fetch is_stale_def REFRESH_MARGIN_S_def accepts_def update_conv')

theorem fresh_token_accepted_witness:
  "\<exists>tok. access_token \<lparr>access_token = Some (show_nat 0), expires_at = 1000 + 2 * 1 + 3600\<rparr> = Some tok \<and>
     accepts (4500 + w_delay quiet_world)
       (w_issued (arrive ((arrive quiet_world)\<lparr>w_issued := AList.update (show_nat 0)
          (1000 + 1 + 3600) [], w_drawn := 1\<rparr>))) tok"
  by (rule fresh_token_accepted [where c = new_cache and st = default_settings and draw = show_nat])
    (simp_all add: api_fetch quiet_world_def REFRESH_MARGIN_S_def is_stale_def)

end
