(* ===== verification/Jail_Props.thy ===== *)
theory Jail_Props
  imports Paths_Jail
begin

text \<open>
  How the standard library's resolution relates to the operating system's: an invariant of
  the loop of \<open>realpath\<close>, from which follow that its result meets no symbolic link the
  system could follow, and that it agrees with the system on every path the system resolves.
\<close>

section \<open>The system's resolution\<close>

lemma walk_fuel: "walk fs n cur cs = Inr (q, m) \<Longrightarrow> m \<le> n"
  by (induction fs n cur cs rule: walk.induct) (auto split: if_splits option.splits obj.splits nat.splits intro: le_SucI)

text \<open>A path is resolved part by part.\<close>

lemma walk_split:
  "walk fs n cur (as @ bs) = Inr (q, m) \<Longrightarrow>
   \<exists>q' m'. walk fs n cur as = Inr (q', m') \<and> walk fs m' q' bs = Inr (q, m) \<and> m' \<le> n"
proof (induction fs n cur as rule: walk.induct)
  case (1 fs n cur)
  then show ?case by simp
next
  case (2 fs n cur c cs)
  note ih = 2(1-4) and w = 2(5)
  consider "no_name c" | "\<not> no_name c" "c = ''..''" | "\<not> no_name c" "c \<noteq> ''..''" by blast
  then show ?case
  proof cases
    case 1
    with w ih(1) show ?thesis by simp
  next
    case 2
    with w ih(2) show ?thesis by simp
  next
    case 3
    show ?thesis
    proof (cases "map_of fs (cur @ [c])")
      case None
      with 3 w show ?thesis by (auto split: if_splits)
    next
      case (Some x)
      show ?thesis
      proof (cases x)
        case (File b)
        with 3 Some w show ?thesis by (auto split: if_splits)
      next
        case Dir
        with 3 Some w have "walk fs n (cur @ [c]) (cs @ bs) = Inr (q, m)" by simp
        from ih(3) [OF 3 Some Dir this] show ?thesis by (simp add: 3 Some Dir)
      next
        case (Link t)
        with 3 Some w have "n \<noteq> 0" by (cases n) simp_all
        then obtain k where n: "n = Suc k" by (cases n) simp_all
        with 3 Some Link w have
          "walk fs k (link_base cur t) ((split_sep t @ cs) @ bs) = Inr (q, m)" by simp
        from ih(4) [OF 3 Some Link n this] show ?thesis
          by (auto simp: 3 Some Link n intro: le_SucI)
      qed
    qed
  qed
qed

definition link_walk :: "fs \<Rightarrow> nat \<Rightarrow> path \<Rightarrow> errno + path \<times> nat" where
  "link_walk fs n l = walk fs n (butlast l) [last l]"

lemma link_walk_snoc [simp]: "link_walk fs n (p @ [c]) = walk fs n p [c]"
  by (simp add: link_walk_def)

text \<open>A link the system can never resolve.\<close>

definition stuck :: "fs \<Rightarrow> path \<Rightarrow> bool" where
  "stuck fs l \<longleftrightarrow> (\<forall>n r. link_walk fs n l \<noteq> Inr r)"

text \<open>A canonical path: plain components, and no link but stuck ones on the way.\<close>

definition good :: "fs \<Rightarrow> path \<Rightarrow> bool" where
  "good fs p \<longleftrightarrow> (\<forall>c \<in> set p. \<not> no_name c \<and> c \<noteq> ''..'') \<and>
     (\<forall>a b t. p = a @ b \<longrightarrow> a \<noteq> [] \<longrightarrow> map_of fs a = Some (Link t) \<longrightarrow> stuck fs a)"

lemma good_Nil [simp]: "good fs []"
  by (simp add: good_def)

lemma good_stuck: "good fs p \<Longrightarrow> p \<noteq> [] \<Longrightarrow> map_of fs p = Some (Link t) \<Longrightarrow> stuck fs p"
  unfolding good_def by (metis append_Nil2)

lemma good_prefix: "good fs (a @ b) \<Longrightarrow> good fs a"
  unfolding good_def by (metis Un_iff append.assoc set_append)

lemma good_butlast: "good fs p \<Longrightarrow> good fs (butlast p)"
  by (cases p rule: rev_cases) (auto dest: good_prefix)

lemma good_snoc:
  assumes "good fs p" and "\<not> no_name c" and "c \<noteq> ''..''"
    and "\<And>t. map_of fs (p @ [c]) = Some (Link t) \<Longrightarrow> stuck fs (p @ [c])"
  shows "good fs (p @ [c])"
  unfolding good_def
proof (intro conjI allI impI)
  show "\<forall>x \<in> set (p @ [c]). \<not> no_name x \<and> x \<noteq> ''..''" using assms by (auto simp: good_def)
next
  fix a b t
  assume ab: "p @ [c] = a @ b" and a: "a \<noteq> []" "map_of fs a = Some (Link t)"
  show "stuck fs a"
  proof (cases b rule: rev_cases)
    case Nil
    with ab have e: "a = p @ [c]" by simp
    from a(2) have "map_of fs (p @ [c]) = Some (Link t)" unfolding e .
    then show ?thesis unfolding e by (rule assms(4))
  next
    case (snoc b' x)
    with ab have "p = a @ b'" by simp
    with assms(1) a show ?thesis unfolding good_def by blast
  qed
qed

text \<open>On a canonical path the system arrives where the path says, if it arrives at all.\<close>

lemma walk_good: "good fs p \<Longrightarrow> walk fs n [] p = Inr (q, m) \<Longrightarrow> q = p"
proof (induction p arbitrary: q m rule: rev_induct)
  case Nil
  then show ?case by simp
next
  case (snoc c p)
  from walk_split [OF snoc.prems(2)] obtain q' m' where
    w: "walk fs n [] p = Inr (q', m')" "walk fs m' q' [c] = Inr (q, m)" by blast
  have "q' = p" using snoc.IH [OF good_prefix [OF snoc.prems(1)] w(1)] .
  with w(2) have w: "walk fs m' p [c] = Inr (q, m)" by simp
  have c: "\<not> no_name c" "c \<noteq> ''..''" using snoc.prems(1) by (auto simp: good_def)
  have "map_of fs (p @ [c]) \<noteq> Some (Link t)" for t
  proof
    assume "map_of fs (p @ [c]) = Some (Link t)"
    with good_stuck [OF snoc.prems(1)] have "stuck fs (p @ [c])" by simp
    with w show False by (simp add: stuck_def)
  qed
  with w c show ?case by (auto split: option.splits obj.splits)
qed

section \<open>The loop of realpath\<close>

text \<open>The parts on the stack before a mark, or all of them.\<close>

fun upto_mark :: "path option \<Rightarrow> part list \<Rightarrow> string list" where
  "upto_mark l [] = []"
| "upto_mark l (Part c # st) = c # upto_mark l st"
| "upto_mark l (Mark k # st) = (if l = Some k then [] else upto_mark l st)"

fun marks :: "part list \<Rightarrow> path list" where
  "marks [] = []"
| "marks (Part c # st) = marks st"
| "marks (Mark k # st) = k # marks st"

lemma upto_mark_parts [simp]: "upto_mark l (map Part cs @ st) = cs @ upto_mark l st"
  by (induction cs) auto

lemma marks_parts [simp]: "marks (map Part cs @ st) = marks st"
  by (induction cs) auto

lemma upto_mark_all_parts [simp]: "upto_mark l (map Part cs) = cs" "marks (map Part cs) = []"
  using upto_mark_parts [of l cs "[]"] marks_parts [of cs "[]"] by simp_all

text \<open>
  \<open>goal\<close> is what the system finds for the path that is being resolved. The loop keeps: if the
  system resolves that path, it finds the same by going on from the current path with the
  parts on the stack; for every link being resolved it finds the link's target by going on
  with the parts before the link's mark, with fewer expansions left; a link resolved before
  leads where the table says.
\<close>

definition rp_inv :: "fs \<Rightarrow> (nat \<Rightarrow> path \<Rightarrow> nat \<Rightarrow> bool) \<Rightarrow> path \<Rightarrow> part list \<Rightarrow> seen \<Rightarrow> bool" where
  "rp_inv fs goal path st sn \<longleftrightarrow> good fs path \<and> distinct (marks st) \<and>
     (\<forall>l. l \<in> set (marks st) \<longleftrightarrow> map_of sn l = Some None) \<and>
     (\<forall>n q m. goal n q m \<longrightarrow> (\<exists>n' \<le> n. walk fs n' path (upto_mark None st) = Inr (q, m))) \<and>
     (\<forall>l n q m. l \<in> set (marks st) \<longrightarrow> link_walk fs n l = Inr (q, m) \<longrightarrow>
        (\<exists>n' < n. walk fs n' path (upto_mark (Some l) st) = Inr (q, m))) \<and>
     (\<forall>l p. map_of sn l = Some (Some p) \<longrightarrow> good fs p \<and>
        (\<forall>n q m. link_walk fs n l = Inr (q, m) \<longrightarrow> q = p))"

lemma inv_goal: "rp_inv fs goal path st sn \<Longrightarrow> goal n q m \<Longrightarrow>
    \<exists>n' \<le> n. walk fs n' path (upto_mark None st) = Inr (q, m)"
  by (simp add: rp_inv_def)

lemma inv_link: "rp_inv fs goal path st sn \<Longrightarrow> map_of sn l = Some None \<Longrightarrow>
    link_walk fs n l = Inr (q, m) \<Longrightarrow> \<exists>n' < n. walk fs n' path (upto_mark (Some l) st) = Inr (q, m)"
  by (simp add: rp_inv_def)

lemma inv_seen: "rp_inv fs goal path st sn \<Longrightarrow> map_of sn l = Some (Some p) \<Longrightarrow>
    good fs p \<and> (\<forall>n q m. link_walk fs n l = Inr (q, m) \<longrightarrow> q = p)"
  by (simp add: rp_inv_def)

lemma inv_marks: "rp_inv fs goal path st sn \<Longrightarrow> l \<in> set (marks st) \<longleftrightarrow> map_of sn l = Some None"
  by (simp add: rp_inv_def)

text \<open>Taking one part off the stack.\<close>

lemma inv_move:
  assumes inv: "rp_inv fs goal path (Part c # st) sn" and g: "good fs path'"
    and sim: "\<And>n ps q m. walk fs n path (c # ps) = Inr (q, m) \<Longrightarrow>
       \<exists>n' \<le> n. walk fs n' path' ps = Inr (q, m)"
  shows "rp_inv fs goal path' st sn"
proof -
  have "\<exists>n' \<le> n. walk fs n' path' (upto_mark None st) = Inr (q, m)" if "goal n q m" for n q m
  proof -
    from inv_goal [OF inv that] obtain n1 where n1: "n1 \<le> n"
      "walk fs n1 path (c # upto_mark None st) = Inr (q, m)" by auto
    from sim [OF n1(2)] n1(1) show ?thesis by (meson order_trans)
  qed
  moreover have "\<exists>n' < n. walk fs n' path' (upto_mark (Some l) st) = Inr (q, m)"
    if "l \<in> set (marks st)" "link_walk fs n l = Inr (q, m)" for l n q m
  proof -
    have "map_of sn l = Some None" using inv_marks [OF inv, of l] that(1) by simp
    from inv_link [OF inv this that(2)] obtain n1 where n1: "n1 < n"
      "walk fs n1 path (c # upto_mark (Some l) st) = Inr (q, m)" by auto
    from sim [OF n1(2)] n1(1) show ?thesis by (meson le_less_trans)
  qed
  ultimately show ?thesis using inv g unfolding rp_inv_def by simp
qed

lemma inv_mark:
  assumes inv: "rp_inv fs goal path (Mark l # st) sn"
  shows "rp_inv fs goal path st ((l, Some path) # sn)"
proof -
  have l: "map_of sn l = Some None" and nl: "l \<notin> set (marks st)" and g: "good fs path"
    using inv by (auto simp: rp_inv_def)
  have "q = path" if "link_walk fs n l = Inr (q, m)" for n q m
    using inv_link [OF inv l that] by auto
  moreover have "\<exists>n' < n. walk fs n' path (upto_mark (Some k) st) = Inr (q, m)"
    if "k \<in> set (marks st)" "link_walk fs n k = Inr (q, m)" for k n q m
  proof -
    have "k \<noteq> l" using nl that(1) by blast
    moreover have "map_of sn k = Some None" using inv_marks [OF inv, of k] that(1) by simp
    ultimately show ?thesis using inv_link [OF inv _ that(2)] by simp
  qed
  ultimately show ?thesis using inv nl g unfolding rp_inv_def by auto
qed

lemma inv_expand:
  assumes inv: "rp_inv fs goal path (Part c # st) sn" and c: "\<not> no_name c" "c \<noteq> ''..''"
    and link: "map_of fs (path @ [c]) = Some (Link t)" and new: "map_of sn (path @ [c]) = None"
  shows "rp_inv fs goal (link_base path t) (map Part (split_sep t) @ Mark (path @ [c]) # st)
    ((path @ [c], None) # sn)"
proof -
  let ?l = "path @ [c]" and ?b = "link_base path t"
  have nm: "?l \<notin> set (marks st)" using inv new by (auto simp: rp_inv_def)
  have follow: "\<exists>n' < n. walk fs n' ?b (split_sep t @ ps) = Inr (q, m)"
    if "walk fs n path (c # ps) = Inr (q, m)" for n ps q m
    using that c link by (cases n) auto
  have "good fs ?b" using inv by (simp add: link_base_def rp_inv_def)
  moreover have "\<exists>n' \<le> n. walk fs n' ?b (split_sep t @ upto_mark None st) = Inr (q, m)"
    if "goal n q m" for n q m
    using inv_goal [OF inv that] follow by (auto dest!: follow) (meson less_imp_le order_trans)
  moreover have "\<exists>n' < n. walk fs n' ?b (split_sep t) = Inr (q, m)"
    if "link_walk fs n ?l = Inr (q, m)" for n q m
    using follow [of n "[]" q m] that by simp
  moreover have "\<exists>n' < n. walk fs n' ?b (split_sep t @ upto_mark (Some l) st) = Inr (q, m)"
    if "l \<in> set (marks st)" "link_walk fs n l = Inr (q, m)" for l n q m
  proof -
    have "map_of sn l = Some None" using inv_marks [OF inv, of l] that(1) by simp
    from inv_link [OF inv this that(2)] obtain n1 where "n1 < n"
      "walk fs n1 path (c # upto_mark (Some l) st) = Inr (q, m)" by auto
    with follow show ?thesis by (meson less_trans)
  qed
  ultimately show ?thesis using inv nm unfolding rp_inv_def by auto
qed

text \<open>A link met again while it is being resolved is stuck.\<close>

lemma inv_loop:
  assumes inv: "rp_inv fs goal path (Part c # st) sn" and l: "map_of sn (path @ [c]) = Some None"
  shows "stuck fs (path @ [c])"
proof -
  have "walk fs n path [c] \<noteq> Inr (q, m)" for n q m
  proof (induction n arbitrary: q m rule: less_induct)
    case (less n)
    show ?case
    proof
      assume "walk fs n path [c] = Inr (q, m)"
      with inv_link [OF inv l, of n q m] obtain n1 where n1: "n1 < n"
        "walk fs n1 path ([c] @ upto_mark (Some (path @ [c])) st) = Inr (q, m)" by auto
      from walk_split [OF n1(2)] less.IH [OF n1(1)] show False by blast
    qed
  qed
  then show ?thesis by (auto simp: stuck_def)
qed

lemma realpath_inv:
  "rp_inv fs goal path st sn \<Longrightarrow>
   good fs (realpath fs path st sn) \<and> (\<forall>n q m. goal n q m \<longrightarrow> q = realpath fs path st sn)"
proof (induction fs path st sn rule: realpath.induct)
  case (1 fs path sn)
  then show ?case by (auto simp: rp_inv_def)
next
  case (2 fs path l rest sn)
  then show ?case using inv_mark [OF "2.prems"] "2.IH" by simp
next
  case (3 fs path c rest sn)
  let ?new = "path @ [c]"
  have g: "good fs path" using "3.prems" by (simp add: rp_inv_def)
  consider (skip) "no_name c" | (up) "\<not> no_name c" "c = ''..''"
    | (plain) "\<not> no_name c" "c \<noteq> ''..''" "\<And>t. map_of fs ?new \<noteq> Some (Link t)"
    | (link) t where "\<not> no_name c" "c \<noteq> ''..''" "map_of fs ?new = Some (Link t)"
    by blast
  then show ?case
  proof cases
    case skip
    then have "rp_inv fs goal path rest sn" by (intro inv_move [OF "3.prems" g]) auto
    with skip "3.IH"(1) show ?thesis by simp
  next
    case up
    then have "rp_inv fs goal (butlast path) rest sn"
      by (intro inv_move [OF "3.prems" good_butlast [OF g]]) auto
    with up "3.IH"(2) show ?thesis by simp
  next
    case plain
    have gn: "good fs ?new" using good_snoc [OF g plain(1,2)] plain(3) by blast
    have "rp_inv fs goal ?new rest sn"
    proof (rule inv_move [OF "3.prems" gn])
      fix n ps q m
      assume "walk fs n path (c # ps) = Inr (q, m)"
      with plain have "walk fs n ?new ps = Inr (q, m)"
        by (auto split: option.splits obj.splits if_splits)
      then show "\<exists>n' \<le> n. walk fs n' ?new ps = Inr (q, m)" by blast
    qed
    with plain "3.IH" show ?thesis by (auto split: option.splits obj.splits)
  next
    case link
    show ?thesis
    proof (cases "map_of sn ?new")
      case None
      from inv_expand [OF "3.prems" link None] link None "3.IH" show ?thesis by simp
    next
      case (Some r)
      show ?thesis
      proof (cases r)
        case (Some p)
        with \<open>map_of sn ?new = Some r\<close> have sp: "map_of sn ?new = Some (Some p)" by simp
        have "rp_inv fs goal p rest sn"
        proof (rule inv_move [OF "3.prems"])
          show "good fs p" using inv_seen [OF "3.prems" sp] by blast
        next
          fix n ps q m
          assume "walk fs n path (c # ps) = Inr (q, m)"
          with walk_split [of fs n path "[c]" ps] obtain q' m' where
            w: "walk fs n path [c] = Inr (q', m')" "walk fs m' q' ps = Inr (q, m)" "m' \<le> n" by auto
          with inv_seen [OF "3.prems" sp] have "q' = p" by auto
          with w show "\<exists>n' \<le> n. walk fs n' p ps = Inr (q, m)" by blast
        qed
        with link sp "3.IH" show ?thesis by simp
      next
        case None
        with Some have sp: "map_of sn ?new = Some None" by simp
        have st: "stuck fs ?new" using inv_loop [OF "3.prems" sp] .
        have gn: "good fs ?new" using good_snoc [OF g link(1,2)] st by blast
        have "rp_inv fs goal ?new rest sn"
        proof (rule inv_move [OF "3.prems" gn])
          fix n ps q m
          assume "walk fs n path (c # ps) = Inr (q, m)"
          with walk_split [of fs n path "[c]" ps] st
          show "\<exists>n' \<le> n. walk fs n' ?new ps = Inr (q, m)" by (auto simp: stuck_def)
        qed
        with link sp "3.IH" show ?thesis by simp
      qed
    qed
  qed
qed

section \<open>The two resolutions agree\<close>

lemma resolve_start: "rp_inv fs (\<lambda>n q m. walk fs n [] parts = Inr (q, m)) [] (map Part parts) []"
  by (auto simp: rp_inv_def)

lemma resolve_good: "good fs (resolve fs parts)"
  using realpath_inv [OF resolve_start] by (simp add: resolve_def)

lemma resolve_walk: "walk fs n [] parts = Inr (q, m) \<Longrightarrow> resolve fs parts = q"
  using realpath_inv [OF resolve_start, of fs parts] unfolding resolve_def by blast

lemma walk_resolved: "walk fs n [] (resolve fs parts) = Inr (q, m) \<Longrightarrow> q = resolve fs parts"
  by (rule walk_good [OF resolve_good])

end
