(* ===== verification/FS_Server.thy ===== *)
theory FS_Server
  imports Jail_Props Utf8 "HOL-Library.AList" "HOL-Library.List_Lexorder" "HOL-Library.Char_ord"
begin

text \<open>
  The file MCP server, \<open>app/mcp/fs_server.py\<close>: reading, writing and listing files inside the
  agent directory, with the audit rows. The system calls work on the file systems of theory
  \<open>Paths_Jail\<close>; permissions, name length limits and other users of the file system are
  left out.
\<close>

section \<open>System calls\<close>

definition MAXSYMLINKS :: nat where
  "MAXSYMLINKS = 40"

definition os_error :: "errno \<Rightarrow> exn" where
  "os_error e = OSError (case e of ENOENT \<Rightarrow> ''No such file or directory''
     | ENOTDIR \<Rightarrow> ''Not a directory'' | ELOOP \<Rightarrow> ''Too many levels of symbolic links''
     | EEXIST \<Rightarrow> ''File exists'' | EISDIR \<Rightarrow> ''Is a directory'')"

text \<open>The object at a canonical path; the root directory always exists.\<close>

definition object_at :: "fs \<Rightarrow> path \<Rightarrow> obj option" where
  "object_at fs p = (if p = [] then Some Dir else map_of fs p)"

definition stat :: "fs \<Rightarrow> path \<Rightarrow> errno + path \<times> obj" where
  "stat fs p = (case walk fs MAXSYMLINKS [] p of
       Inl e \<Rightarrow> Inl e
     | Inr (q, _) \<Rightarrow> (case object_at fs q of None \<Rightarrow> Inl ENOENT | Some x \<Rightarrow> Inr (q, x)))"

definition path_exists :: "fs \<Rightarrow> path \<Rightarrow> bool" where
  "path_exists fs p = (case stat fs p of Inl _ \<Rightarrow> False | Inr _ \<Rightarrow> True)"

definition is_dir :: "fs \<Rightarrow> path \<Rightarrow> bool" where
  "is_dir fs p = (case stat fs p of Inr (_, Dir) \<Rightarrow> True | _ \<Rightarrow> False)"

text \<open>\<open>mkdir\<close> of a path whose last component is a plain name: the parent is resolved, the name
  is not followed.\<close>

definition sys_mkdir :: "fs \<Rightarrow> path \<Rightarrow> errno + fs" where
  "sys_mkdir fs p =
     (if p = [] then Inl EEXIST
      else (case stat fs (butlast p) of
              Inl e \<Rightarrow> Inl e
            | Inr (d, Dir) \<Rightarrow> (if map_of fs (d @ [last p]) \<noteq> None then Inl EEXIST
                else Inr (AList.update (d @ [last p]) Dir fs))
            | Inr _ \<Rightarrow> Inl ENOTDIR))"

text \<open>\<open>Path.mkdir(parents=True, exist_ok=True)\<close>.\<close>

function mkdir_p :: "fs \<Rightarrow> path \<Rightarrow> exn option \<times> fs" where
  "mkdir_p fs p = (case sys_mkdir fs p of
       Inr fs' \<Rightarrow> (None, fs')
     | Inl ENOENT \<Rightarrow>
         (if p = [] then (Some (os_error ENOENT), fs)
          else (case mkdir_p fs (butlast p) of
                  (Some e, fs') \<Rightarrow> (Some e, fs')
                | (None, fs') \<Rightarrow> (case sys_mkdir fs' p of
                      Inr fs'' \<Rightarrow> (None, fs'')
                    | Inl e \<Rightarrow> if e \<noteq> ENOENT \<and> is_dir fs' p then (None, fs') else (Some (os_error e), fs'))))
     | Inl e \<Rightarrow> if is_dir fs p then (None, fs) else (Some (os_error e), fs))"
  by pat_completeness auto
termination by (relation "measure (\<lambda>(fs, p). length p)") auto

declare mkdir_p.simps [simp del]

text \<open>\<open>write_bytes\<close>: open for writing, creating or truncating, and write.\<close>

definition write_bytes :: "fs \<Rightarrow> path \<Rightarrow> nat list \<Rightarrow> exn + fs" where
  "write_bytes fs p b =
     (case walk fs MAXSYMLINKS [] p of
        Inl e \<Rightarrow> Inl (os_error e)
      | Inr (q, _) \<Rightarrow> (case object_at fs q of
            Some Dir \<Rightarrow> Inl (os_error EISDIR)
          | Some (Link _) \<Rightarrow> Inl (os_error ELOOP)
          | _ \<Rightarrow> Inr (AList.update q (File b) fs)))"

text \<open>\<open>read_text(encoding="utf-8")\<close>.\<close>

definition read_text :: "fs \<Rightarrow> path \<Rightarrow> exn + nat list" where
  "read_text fs p =
     (case stat fs p of
        Inl e \<Rightarrow> Inl (os_error e)
      | Inr (_, File b) \<Rightarrow> (case decode b of
            None \<Rightarrow> Inl (ValueError ''invalid start byte'')
          | Some cs \<Rightarrow> Inr (universal_newlines cs))
      | Inr (_, Dir) \<Rightarrow> Inl (os_error EISDIR)
      | Inr (_, Link _) \<Rightarrow> Inl (os_error ELOOP))"

section \<open>The tools\<close>

record file_audit_event =
  fa_path :: string
  fa_action :: string
  fa_byte_count :: nat
  fa_preview :: "nat list"

type_synonym file_events = "file_audit_event list"

definition log_event ::
    "(file_audit_event \<Rightarrow> exn option) \<Rightarrow> file_audit_event \<Rightarrow> file_events \<Rightarrow> exn option \<times> file_events" where
  "log_event commit ev rows = (case commit ev of None \<Rightarrow> (None, rows @ [ev]) | Some e \<Rightarrow> (Some e, rows))"

definition utf8_error :: exn where
  "utf8_error = ValueError ''surrogates not allowed''"

definition read_text_file ::
    "(file_audit_event \<Rightarrow> exn option) \<Rightarrow> fs \<Rightarrow> path \<Rightarrow> string \<Rightarrow> file_events \<Rightarrow>
     (exn + nat list) \<times> file_events" where
  "read_text_file commit fs jail path rows =
     (case bindr (resolve_in_root fs jail path) (read_text fs) of
        Inl e \<Rightarrow> (Inl e, rows)
      | Inr content \<Rightarrow> (case encode content of
          None \<Rightarrow> (Inl utf8_error, rows)
        | Some b \<Rightarrow> (case log_event commit \<lparr>fa_path = path, fa_action = ''read'',
                fa_byte_count = length b, fa_preview = take 200 content\<rparr> rows of
              (Some e, rows') \<Rightarrow> (Inl e, rows')
            | (None, rows') \<Rightarrow> (Inr content, rows'))))"

text \<open>The closure \<open>_write\<close>.\<close>

definition make_and_write :: "fs \<Rightarrow> path \<Rightarrow> nat list \<Rightarrow> exn option \<times> fs" where
  "make_and_write fs target b =
     (case mkdir_p fs (butlast target) of
        (Some e, fs') \<Rightarrow> (Some e, fs')
      | (None, fs') \<Rightarrow> (case write_bytes fs' target b of
          Inl e \<Rightarrow> (Some e, fs') | Inr fs'' \<Rightarrow> (None, fs'')))"

definition size_error :: "settings \<Rightarrow> nat \<Rightarrow> exn" where
  "size_error st n = ValueError (''write of '' @ show_nat n @ '' bytes exceeds the '' @
     show_int (agent_files_max_write_bytes st) @ ''-byte limit'')"

definition write_text_file ::
    "settings \<Rightarrow> (file_audit_event \<Rightarrow> exn option) \<Rightarrow> path \<Rightarrow> string \<Rightarrow> nat list \<Rightarrow> fs \<Rightarrow> file_events \<Rightarrow>
     (exn + string) \<times> fs \<times> file_events" where
  "write_text_file st commit jail path content fs rows =
     (case encode content of
        None \<Rightarrow> (Inl utf8_error, fs, rows)
      | Some b \<Rightarrow>
         if int (length b) > agent_files_max_write_bytes st
         then (Inl (size_error st (length b)), fs, rows)
         else (case resolve_in_root fs jail path of
            Inl e \<Rightarrow> (Inl e, fs, rows)
          | Inr target \<Rightarrow>
             (let existed = path_exists fs target in
              case make_and_write fs target b of
                (Some e, fs') \<Rightarrow> (Inl e, fs', rows)
              | (None, fs') \<Rightarrow>
                 (case log_event commit \<lparr>fa_path = path,
                      fa_action = (if existed then ''write'' else ''create''),
                      fa_byte_count = length b, fa_preview = take 200 content\<rparr> rows of
                    (Some e, rows') \<Rightarrow> (Inl e, fs', rows')
                  | (None, rows') \<Rightarrow>
                      (Inr (''wrote '' @ show_nat (length b) @ '' bytes to '' @ path), fs', rows')))))"

text \<open>The names of a directory's entries.\<close>

definition entry_names :: "fs \<Rightarrow> path \<Rightarrow> string list" where
  "entry_names fs d = map (last \<circ> fst) (filter (\<lambda>e. fst e \<noteq> [] \<and> butlast (fst e) = d) fs)"

definition list_directory :: "fs \<Rightarrow> path \<Rightarrow> string \<Rightarrow> exn + string list" where
  "list_directory fs jail path =
     bindr (resolve_in_root fs jail path) (\<lambda>d.
     case stat fs d of
       Inl e \<Rightarrow> Inl (os_error e)
     | Inr (q, Dir) \<Rightarrow> Inr (sort (entry_names fs q))
     | Inr _ \<Rightarrow> Inl (os_error ENOTDIR))"

end
