(* ===== verification/FS_Props.thy ===== *)
theory FS_Props
  imports FS_Server
begin

text \<open>
  Facts about the system calls on resolved paths: what they reach, what \<open>mkdir\<close> with parents
  and a write change, and that only symbolic links matter to \<open>realpath\<close>.
\<close>

section \<open>Well-formed file systems\<close>

text \<open>Entries have plain names and lie in directories.\<close>

definition fs_ok :: "fs \<Rightarrow> bool" where
  "fs_ok fs \<longleftrightarrow> (\<forall>p x. map_of fs p = Some x \<longrightarrow>
     p \<noteq> [] \<and> \<not> no_name (last p) \<and> last p \<noteq> ''..'' \<and> object_at fs (butlast p) = Some Dir)"

lemma fs_okD:
  assumes "fs_ok fs" and "map_of fs p = Some x"
  shows "p \<noteq> []" "\<not> no_name (last p)" "last p \<noteq> ''..''" "object_at fs (butlast p) = Some Dir"
  using assms by (auto simp: fs_ok_def)

lemma object_at_Nil [simp]: "object_at fs [] = Some Dir"
  by (simp add: object_at_def)

lemma object_at_snoc [simp]: "object_at fs (p @ [c]) = map_of fs (p @ [c])"
  by (simp add: object_at_def)

lemma parent_dir:
  "fs_ok fs \<Longrightarrow> object_at fs p = Some x \<Longrightarrow> object_at fs (butlast p) = Some Dir"
  by (auto simp: object_at_def split: if_splits dest: fs_okD)

lemma fs_ok_update:
  assumes ok: "fs_ok fs" and p: "p \<noteq> []" "\<not> no_name (last p)" "last p \<noteq> ''..''"
    and d: "object_at fs (butlast p) = Some Dir" and nd: "object_at fs p \<noteq> Some Dir \<or> x = Dir"
  shows "fs_ok (AList.update p x fs)"
proof -
  have keep: "object_at (AList.update p x fs) q = Some Dir" if "object_at fs q = Some Dir" for q
    using that nd by (auto simp: object_at_def update_conv' split: if_splits)
  show ?thesis
    unfolding fs_ok_def using ok p d keep by (auto simp: update_conv' split: if_splits dest: fs_okD)
qed

section \<open>Composing walks\<close>

lemma walk_dirs:
  "fs_ok fs \<Longrightarrow> object_at fs cur = Some Dir \<Longrightarrow> walk fs n cur (as @ bs) = Inr r \<Longrightarrow> bs \<noteq> [] \<Longrightarrow>
   \<exists>q m. walk fs n cur as = Inr (q, m) \<and> object_at fs q = Some Dir"
proof (induction fs n cur as rule: walk.induct)
  case (1 fs n cur)
  then show ?case by simp
next
  case (2 fs n cur c cs)
  note ih = "2.IH" and ok = "2.prems"(1) and d = "2.prems"(2) and w = "2.prems"(3) and ne = "2.prems"(4)
  consider "no_name c" | "\<not> no_name c" "c = ''..''" | "\<not> no_name c" "c \<noteq> ''..''" by blast
  then show ?case
  proof cases
    case 1
    with ih(1) [OF 1 ok d _ ne] w show ?thesis by simp
  next
    case 2
    with ih(2) [OF 2 ok parent_dir [OF ok d] _ ne] w show ?thesis by simp
  next
    case 3
    show ?thesis
    proof (cases "map_of fs (cur @ [c])")
      case None
      with 3 w ne show ?thesis by simp
    next
      case (Some x)
      show ?thesis
      proof (cases x)
        case (File b)
        with 3 Some w ne show ?thesis by simp
      next
        case Dir
        with 3 Some w have "walk fs n (cur @ [c]) (cs @ bs) = Inr r" by simp
        from ih(3) [OF 3 Some Dir ok _ this ne] show ?thesis by (simp add: 3 Some Dir)
      next
        case (Link t)
        with 3 Some w have "n \<noteq> 0" by (cases n) simp_all
        then obtain k where n: "n = Suc k" by (cases n) simp_all
        have lb: "object_at fs (link_base cur t) = Some Dir" using d by (simp add: link_base_def)
        from 3 Some Link n w have
          "walk fs k (link_base cur t) ((split_sep t @ cs) @ bs) = Inr r" by simp
        from ih(4) [OF 3 Some Link n ok lb this ne] show ?thesis by (simp add: 3 Some Link n)
      qed
    qed
  qed
qed

lemma walk_append:
  "walk fs n cur as = Inr (q, m) \<Longrightarrow> object_at fs q = Some Dir \<or> bs = [] \<Longrightarrow>
   walk fs n cur (as @ bs) = walk fs m q bs"
proof (induction fs n cur as rule: walk.induct)
  case (1 fs n cur)
  then show ?case by simp
next
  case (2 fs n cur c cs)
  note ih = "2.IH" and w = "2.prems"(1) and d = "2.prems"(2)
  consider "no_name c" | "\<not> no_name c" "c = ''..''" | "\<not> no_name c" "c \<noteq> ''..''" by blast
  then show ?case
  proof cases
    case 1
    with ih(1) w d show ?thesis by simp
  next
    case 2
    with ih(2) w d show ?thesis by simp
  next
    case 3
    show ?thesis
    proof (cases "map_of fs (cur @ [c])")
      case None
      with 3 w d show ?thesis by (auto split: if_splits)
    next
      case (Some x)
      show ?thesis
      proof (cases x)
        case (File b)
        with 3 Some w d show ?thesis by (auto split: if_splits)
      next
        case Dir
        with 3 Some w have "walk fs n (cur @ [c]) cs = Inr (q, m)" by simp
        from ih(3) [OF 3 Some Dir this d] show ?thesis by (simp add: 3 Some Dir)
      next
        case (Link t)
        with 3 Some w have "n \<noteq> 0" by (cases n) simp_all
        then obtain k where n: "n = Suc k" by (cases n) simp_all
        from 3 Some Link n w have "walk fs k (link_base cur t) (split_sep t @ cs) = Inr (q, m)" by simp
        from ih(4) [OF 3 Some Link n this d] show ?thesis by (simp add: 3 Some Link n)
      qed
    qed
  qed
qed

text \<open>An existing directory is reached by its canonical path.\<close>

lemma walk_dir: "fs_ok fs \<Longrightarrow> object_at fs d = Some Dir \<Longrightarrow> walk fs n [] d = Inr (d, n)"
proof (induction d rule: rev_induct)
  case Nil
  then show ?case by simp
next
  case (snoc c d)
  have e: "map_of fs (d @ [c]) = Some Dir" using snoc.prems(2) by simp
  have c: "\<not> no_name c" "c \<noteq> ''..''" and p: "object_at fs d = Some Dir"
    using fs_okD [OF snoc.prems(1) e] by simp_all
  from walk_append [OF snoc.IH [OF snoc.prems(1) p], of "[c]"] p c e show ?case by simp
qed

text \<open>What a walk to a resolved path finds: the path itself, in an existing directory.\<close>

lemma walk_parent:
  assumes "fs_ok fs" and "good fs (p @ [c])" and "walk fs n [] (p @ [c]) = Inr (q, m)"
  shows "object_at fs p = Some Dir"
proof -
  from walk_dirs [OF assms(1) object_at_Nil assms(3)] obtain q' m' where
    w: "walk fs n [] p = Inr (q', m')" and d: "object_at fs q' = Some Dir" by blast
  have "q' = p" by (rule walk_good [OF good_prefix [OF assms(2)] w])
  with d show ?thesis by simp
qed

lemma walk_child:
  assumes "fs_ok fs" and "object_at fs p = Some Dir" and "\<not> no_name c" and "c \<noteq> ''..''"
    and "\<And>t. map_of fs (p @ [c]) \<noteq> Some (Link t)"
  shows "walk fs n [] (p @ [c]) = Inr (p @ [c], n)"
  using walk_append [OF walk_dir [OF assms(1,2)], of "[c]"] assms
  by (auto split: option.splits obj.splits)

section \<open>Links on a path\<close>

definition link_on :: "fs \<Rightarrow> path \<Rightarrow> path \<Rightarrow> bool" where
  "link_on fs l p \<longleftrightarrow> l \<noteq> [] \<and> prefix l p \<and> (\<exists>t. map_of fs l = Some (Link t))"

lemma good_link_on: "good fs p \<Longrightarrow> link_on fs l p \<Longrightarrow> stuck fs l"
  unfolding good_def link_on_def prefix_def by blast

lemma stuck_walk:
  assumes "fs_ok fs" and "link_on fs l p" and "stuck fs l" and "walk fs n [] p = Inr (q, m)"
  shows False
proof -
  obtain a c b where l: "l = a @ [c]" and p: "p = (a @ [c]) @ b"
    using assms(2) unfolding link_on_def prefix_def by (metis rev_exhaust)
  obtain t where "map_of fs (a @ [c]) = Some (Link t)" using assms(2) l by (auto simp: link_on_def)
  then have "object_at fs a = Some Dir" using fs_okD(4) [OF assms(1)] by fastforce
  then have a: "walk fs n [] a = Inr (a, n)" by (rule walk_dir [OF assms(1)])
  from walk_split [OF assms(4) [unfolded p]] obtain q' m' where
    w: "walk fs n [] (a @ [c]) = Inr (q', m')" by blast
  from walk_split [OF w] a have "walk fs n a [c] = Inr (q', m')" by auto
  with assms(3) l show False by (simp add: stuck_def)
qed

lemma stuck_stat: "fs_ok fs \<Longrightarrow> link_on fs l p \<Longrightarrow> stuck fs l \<Longrightarrow> \<exists>e. stat fs p = Inl e"
  using stuck_walk [of fs l p MAXSYMLINKS]
  by (cases "walk fs MAXSYMLINKS [] p") (auto simp: stat_def)

lemma stat_good: "good fs p \<Longrightarrow> stat fs p = Inr (q, x) \<Longrightarrow> q = p \<and> object_at fs p = Some x"
  using walk_good [of fs p MAXSYMLINKS]
  by (auto simp: stat_def split: sum.splits prod.splits option.splits)

section \<open>realpath sees only links\<close>

definition same_links :: "fs \<Rightarrow> fs \<Rightarrow> bool" where
  "same_links fs fs' \<longleftrightarrow> (\<forall>p t. map_of fs p = Some (Link t) \<longleftrightarrow> map_of fs' p = Some (Link t))"

lemma realpath_links:
  "same_links fs fs' \<Longrightarrow>
   realpath fs' path st sn = realpath fs path st sn"
proof (induction fs path st sn rule: realpath.induct)
  case (1 fs path sn)
  then show ?case by simp
next
  case (2 fs path l rest sn)
  then show ?case by simp
next
  case (3 fs path c rest sn)
  note ih = "3.IH" and l = "3.prems"
  consider "no_name c \<or> c = ''..''"
    | (plain) "\<not> no_name c" "c \<noteq> ''..''" "\<And>t. map_of fs (path @ [c]) \<noteq> Some (Link t)"
    | (link) t where "\<not> no_name c" "c \<noteq> ''..''" "map_of fs (path @ [c]) = Some (Link t)"
    by blast
  then show ?case
  proof cases
    case 1
    with ih(1,2) l show ?thesis by auto
  next
    case plain
    with l have "\<And>t. map_of fs' (path @ [c]) \<noteq> Some (Link t)" by (auto simp: same_links_def)
    with plain ih l show ?thesis by (auto split: option.splits obj.splits)
  next
    case link
    with l have "map_of fs' (path @ [c]) = Some (Link t)" by (auto simp: same_links_def)
    with link ih l show ?thesis by (auto split: option.splits)
  qed
qed

section \<open>What making directories changes\<close>

definition plain :: "fs \<Rightarrow> path \<Rightarrow> bool" where
  "plain fs p \<longleftrightarrow> (\<forall>c \<in> set p. \<not> no_name c \<and> c \<noteq> ''..'') \<and> (\<forall>l. \<not> link_on fs l p)"

lemma plain_good: "plain fs p \<Longrightarrow> good fs p"
  unfolding plain_def good_def link_on_def prefix_def by blast

lemma plain_butlast: "plain fs p \<Longrightarrow> plain fs (butlast p)"
  by (auto simp: plain_def link_on_def dest: in_set_butlastD prefix_order.trans [OF _ prefixeq_butlast])

text \<open>\<open>fs'\<close> is \<open>fs\<close> with some missing directories on the way of \<open>p\<close> added.\<close>

definition dirs_added :: "fs \<Rightarrow> fs \<Rightarrow> path \<Rightarrow> bool" where
  "dirs_added fs fs' p \<longleftrightarrow> fs_ok fs' \<and> (\<forall>q. map_of fs' q = map_of fs q \<or>
     prefix q p \<and> map_of fs q = None \<and> map_of fs' q = Some Dir)"

lemma dirs_added_refl: "fs_ok fs \<Longrightarrow> dirs_added fs fs p"
  by (simp add: dirs_added_def)

lemma dirs_added_trans:
  "dirs_added fs fs1 p \<Longrightarrow> dirs_added fs1 fs2 p \<Longrightarrow> dirs_added fs fs2 p"
  unfolding dirs_added_def by metis

lemma dirs_added_mono: "dirs_added fs fs' p \<Longrightarrow> prefix p p' \<Longrightarrow> dirs_added fs fs' p'"
  unfolding dirs_added_def by (metis prefix_order.trans)

lemma dirs_added_links: "dirs_added fs fs' p \<Longrightarrow> same_links fs fs'"
  unfolding dirs_added_def same_links_def by (metis obj.distinct(5) option.distinct(1) option.inject)

lemma plain_links: "same_links fs fs' \<Longrightarrow> plain fs p \<Longrightarrow> plain fs' p"
  by (auto simp: plain_def link_on_def same_links_def)

lemma sys_mkdir_Inr:
  assumes "fs_ok fs" and "plain fs p" and "sys_mkdir fs p = Inr fs'"
  shows "dirs_added fs fs' p"
proof -
  from assms(3) obtain d where p: "p \<noteq> []" and st: "stat fs (butlast p) = Inr (d, Dir)"
    and n: "map_of fs (d @ [last p]) = None" and fs': "fs' = AList.update (d @ [last p]) Dir fs"
    by (auto simp: sys_mkdir_def split: if_splits sum.splits prod.splits obj.splits)
  have g: "good fs (butlast p)" using plain_good [OF plain_butlast [OF assms(2)]] .
  from stat_good [OF g st] have d: "d = butlast p" and o: "object_at fs (butlast p) = Some Dir" by auto
  with p n fs' have n: "map_of fs p = None" and fs': "fs' = AList.update p Dir fs" by simp_all
  have "\<not> no_name (last p) \<and> last p \<noteq> ''..''" using assms(2) p by (simp add: plain_def)
  with assms(1) p o have "fs_ok fs'" unfolding fs' by (intro fs_ok_update) auto
  with n show ?thesis unfolding fs' by (simp add: dirs_added_def update_conv')
qed

lemma sys_mkdir_Inr_object:
  assumes "plain fs p" and "sys_mkdir fs p = Inr fs'"
  shows "object_at fs' p = Some Dir"
proof -
  from assms(2) obtain d where p: "p \<noteq> []" and st: "stat fs (butlast p) = Inr (d, Dir)"
    and fs': "fs' = AList.update (d @ [last p]) Dir fs"
    by (auto simp: sys_mkdir_def split: if_splits sum.splits prod.splits obj.splits)
  have "good fs (butlast p)" using plain_good [OF plain_butlast [OF assms(1)]] .
  from stat_good [OF this st] have "d = butlast p" by simp
  with p fs' show ?thesis by (simp add: object_at_def update_conv')
qed

lemma mkdir_p_plain:
  "fs_ok fs \<Longrightarrow> plain fs p \<Longrightarrow> mkdir_p fs p = (r, fs') \<Longrightarrow> dirs_added fs fs' p"
proof (induction fs p arbitrary: r fs' rule: mkdir_p.induct)
  case (1 fs p)
  note ih = "1.IH" and ok = "1.prems"(1) and pl = "1.prems"(2) and mk = "1.prems"(3)
  show ?case
  proof (cases "sys_mkdir fs p")
    case (Inr fs1)
    with mk have "fs' = fs1" by (simp add: mkdir_p.simps)
    with sys_mkdir_Inr [OF ok pl Inr] show ?thesis by simp
  next
    case (Inl e)
    show ?thesis
    proof (cases "e = ENOENT \<and> p \<noteq> []")
      case False
      with mk Inl have "fs' = fs"
        by (cases e) (simp_all add: mkdir_p.simps split: if_splits)
      with ok show ?thesis by (simp add: dirs_added_refl)
    next
      case True
      obtain r1 fs1 where m1: "mkdir_p fs (butlast p) = (r1, fs1)" by (rule prod.exhaust)
      have a1: "dirs_added fs fs1 (butlast p)"
        by (rule ih [OF Inl _ _ ok plain_butlast [OF pl] m1]) (use True in simp_all)
      then have a1: "dirs_added fs fs1 p" by (rule dirs_added_mono) (rule prefixeq_butlast)
      show ?thesis
      proof (cases r1)
        case (Some e1)
        with mk Inl True m1 have "fs' = fs1" by (simp add: mkdir_p.simps)
        with a1 show ?thesis by simp
      next
        case None
        show ?thesis
        proof (cases "sys_mkdir fs1 p")
          case (Inl e2)
          with mk \<open>sys_mkdir fs p = Inl e\<close> True m1 None have "fs' = fs1"
            by (simp add: mkdir_p.simps [of fs] split: if_splits)
          with a1 show ?thesis by simp
        next
          case (Inr fs2)
          with mk Inl True m1 None have "fs' = fs2" by (simp add: mkdir_p.simps [of fs])
          moreover have "dirs_added fs1 fs2 p"
            using a1 Inr plain_links [OF dirs_added_links [OF a1] pl]
            by (intro sys_mkdir_Inr) (auto simp: dirs_added_def)
          ultimately show ?thesis using dirs_added_trans [OF a1] by simp
        qed
      qed
    qed
  qed
qed

text \<open>How \<open>mkdir_p\<close> ends when it does not raise.\<close>

lemma mkdir_p_None:
  assumes "fs_ok fs" and "plain fs p" and "mkdir_p fs p = (None, fs')"
  shows "is_dir fs' p \<or> (\<exists>fs0. sys_mkdir fs0 p = Inr fs' \<and> fs_ok fs0 \<and> plain fs0 p)"
proof (cases "sys_mkdir fs p")
  case (Inr f)
  with assms show ?thesis by (auto simp: mkdir_p.simps [of fs])
next
  case (Inl e)
  show ?thesis
  proof (cases "e = ENOENT \<and> p \<noteq> []")
    case False
    with assms(3) Inl show ?thesis by (cases e) (auto simp: mkdir_p.simps [of fs] split: if_splits)
  next
    case True
    obtain r fs1 where m: "mkdir_p fs (butlast p) = (r, fs1)" by (rule prod.exhaust)
    have "dirs_added fs fs1 (butlast p)" by (rule mkdir_p_plain [OF assms(1) plain_butlast [OF assms(2)] m])
    then have "fs_ok fs1" "plain fs1 p"
      using plain_links [OF dirs_added_links assms(2)] by (auto simp: dirs_added_def)
    with assms(3) Inl True m show ?thesis
      by (auto simp: mkdir_p.simps [of fs p] split: option.splits sum.splits if_splits)
  qed
qed

text \<open>A directory that exists is left alone, and below a stuck link nothing is made.\<close>

lemma stat_dir: "fs_ok fs \<Longrightarrow> object_at fs d = Some Dir \<Longrightarrow> stat fs d = Inr (d, Dir)"
  by (simp add: stat_def walk_dir)

lemma mkdir_p_existing:
  assumes "fs_ok fs" and "object_at fs d = Some Dir"
  shows "mkdir_p fs d = (None, fs)"
proof -
  have "sys_mkdir fs d = Inl EEXIST"
    using assms stat_dir [OF assms(1) parent_dir [OF assms]]
    by (auto simp: sys_mkdir_def object_at_def split: if_splits)
  with stat_dir [OF assms] show ?thesis by (simp add: mkdir_p.simps is_dir_def)
qed

lemma mkdir_p_stuck:
  "fs_ok fs \<Longrightarrow> link_on fs l p \<Longrightarrow> stuck fs l \<Longrightarrow> \<exists>e. mkdir_p fs p = (Some e, fs)"
proof (induction p rule: rev_induct)
  case Nil
  then have "l \<noteq> []" and "prefix l []" unfolding link_on_def by blast+
  then show ?case by simp
next
  case (snoc c p)
  note ok = snoc.prems(1) and l = snoc.prems(2) and st = snoc.prems(3)
  have nd: "\<not> is_dir fs (p @ [c])"
    using stuck_stat [OF ok l st] by (auto simp: is_dir_def)
  show ?case
  proof (cases "l = p @ [c]")
    case True
    then obtain t where t: "map_of fs (p @ [c]) = Some (Link t)" using l by (auto simp: link_on_def)
    have "object_at fs p = Some Dir" using fs_okD(4) [OF ok t] by simp
    with t have "sys_mkdir fs (p @ [c]) = Inl EEXIST"
      by (simp add: sys_mkdir_def stat_dir [OF ok])
    with nd show ?thesis by (simp add: mkdir_p.simps)
  next
    case False
    with l have lp: "link_on fs l p" by (auto simp: link_on_def)
    from stuck_stat [OF ok lp st] obtain e where "stat fs p = Inl e" by blast
    then have m: "sys_mkdir fs (p @ [c]) = Inl e" by (simp add: sys_mkdir_def)
    from snoc.IH [OF ok lp st] obtain e' where "mkdir_p fs p = (Some e', fs)" by blast
    with m nd show ?thesis by (cases e) (simp_all add: mkdir_p.simps [of fs "p @ [c]"])
  qed
qed

section \<open>What a write changes\<close>

lemma write_bytes_Inr:
  assumes "fs_ok fs" and "good fs p" and "write_bytes fs p b = Inr fs'"
  shows "p \<noteq> [] \<and> fs' = AList.update p (File b) fs \<and> fs_ok fs' \<and> (\<forall>t. map_of fs p \<noteq> Some (Link t)) \<and>
    map_of fs p \<noteq> Some Dir \<and> object_at fs' (butlast p) = Some Dir"
proof -
  from assms(3) obtain q m where w: "walk fs MAXSYMLINKS [] p = Inr (q, m)"
    by (auto simp: write_bytes_def split: sum.splits prod.splits)
  then have q: "q = p" by (rule walk_good [OF assms(2)])
  with w assms(3) have fs': "fs' = AList.update p (File b) fs" and nd: "object_at fs p \<noteq> Some Dir"
    and nl: "\<And>t. object_at fs p \<noteq> Some (Link t)"
    by (auto simp: write_bytes_def split: option.splits obj.splits)
  then obtain a c where p: "p = a @ [c]" by (cases p rule: rev_cases) auto
  have d: "object_at fs a = Some Dir" using walk_parent [OF assms(1)] assms(2) w p by blast
  have c: "\<not> no_name c \<and> c \<noteq> ''..''" using assms(2) p by (simp add: good_def)
  have "fs_ok fs'" unfolding fs' using assms(1) d c nd p by (intro fs_ok_update) auto
  moreover have "object_at fs' a = Some Dir"
    using d unfolding fs' p by (auto simp: object_at_def update_conv' split: if_splits)
  ultimately show ?thesis using fs' nd nl p by (auto simp: object_at_def split: if_splits)
qed

lemma good_cases:
  assumes "good fs p"
  obtains "plain fs p" | l where "link_on fs l p" "stuck fs l"
  using assms good_link_on [OF assms] by (auto simp: plain_def good_def)

text \<open>Directories on the way may appear and the target gets the bytes; everything else, and every
  link, stays.\<close>

definition written :: "fs \<Rightarrow> fs \<Rightarrow> path \<Rightarrow> nat list \<Rightarrow> bool" where
  "written fs fs' p b \<longleftrightarrow> map_of fs' p = Some (File b) \<and> object_at fs' (butlast p) = Some Dir \<and>
     map_of fs p \<noteq> Some Dir \<and> good fs' p \<and> (\<forall>q. q \<noteq> p \<longrightarrow> map_of fs' q = map_of fs q \<or>
       prefix q p \<and> map_of fs q = None \<and> map_of fs' q = Some Dir)"

lemma written_changes:
  "written fs fs' p b \<Longrightarrow> map_of fs' q \<noteq> map_of fs q \<Longrightarrow>
     q = p \<and> map_of fs q \<noteq> Some Dir \<and> map_of fs' q = Some (File b) \<or>
     prefix q p \<and> map_of fs q = None \<and> map_of fs' q = Some Dir"
  unfolding written_def by metis

lemma make_and_write_effect:
  assumes ok: "fs_ok fs" and g: "good fs p" and mw: "make_and_write fs p b = (r, fs')"
  shows "fs_ok fs' \<and> same_links fs fs' \<and>
    (if r = None then written fs fs' p b else dirs_added fs fs' (butlast p))"
proof -
  obtain r1 fs1 where m: "mkdir_p fs (butlast p) = (r1, fs1)" by (rule prod.exhaust)
  have fails: ?thesis if "fs1 = fs" and "r1 = None \<Longrightarrow> \<exists>e. write_bytes fs p b = Inl e"
    using that m mw ok
    by (auto simp: make_and_write_def same_links_def dirs_added_refl split: option.splits)
  show ?thesis
  proof (rule good_cases [OF g])
    fix l
    assume l: "link_on fs l p" "stuck fs l"
    show ?thesis
    proof (cases "l = p")
      case True
      then obtain t where t: "map_of fs p = Some (Link t)" using l by (auto simp: link_on_def)
      have "mkdir_p fs (butlast p) = (None, fs)"
        by (rule mkdir_p_existing [OF ok fs_okD(4) [OF ok t]])
      moreover have "\<exists>e. write_bytes fs p b = Inl e"
        using stuck_walk [OF ok l] by (auto simp: write_bytes_def split: sum.splits prod.splits)
      ultimately show ?thesis using m by (intro fails) simp_all
    next
      case False
      then have "link_on fs l (butlast p)" using l(1)
        by (cases p rule: rev_cases) (auto simp: link_on_def)
      from mkdir_p_stuck [OF ok this l(2)] m show ?thesis by (intro fails) auto
    qed
  next
    assume pl: "plain fs p"
    have a: "dirs_added fs fs1 (butlast p)" by (rule mkdir_p_plain [OF ok plain_butlast [OF pl] m])
    then have ok1: "fs_ok fs1" by (simp add: dirs_added_def)
    have sl: "same_links fs fs1" using a by (rule dirs_added_links)
    have pl1: "plain fs1 p" by (rule plain_links [OF sl pl])
    show ?thesis
    proof (cases "r1 = None \<and> (\<exists>f. write_bytes fs1 p b = Inr f)")
      case False
      with m mw have "fs' = fs1" and "r \<noteq> None"
        by (auto simp: make_and_write_def split: option.splits sum.splits)
      with a ok1 sl show ?thesis by auto
    next
      case True
      then obtain f where w: "write_bytes fs1 p b = Inr f" by blast
      with True m mw have f: "fs' = f" "r = None" by (auto simp: make_and_write_def)
      from write_bytes_Inr [OF ok1 plain_good [OF pl1] w] have e: "f = AList.update p (File b) fs1"
        and okf: "fs_ok f" and nl: "\<And>t. map_of fs1 p \<noteq> Some (Link t)"
        and d: "object_at f (butlast p) = Some Dir" and nd: "map_of fs1 p \<noteq> Some Dir" by auto
      have "map_of fs p \<noteq> Some Dir" using a nd unfolding dirs_added_def by metis
      have sl1: "same_links fs1 f" using nl by (auto simp: same_links_def e update_conv')
      have "map_of f q = map_of fs q \<or> prefix q p \<and> map_of fs q = None \<and> map_of f q = Some Dir"
        if "q \<noteq> p" for q
        using a that prefix_order.trans [OF _ prefixeq_butlast]
        by (auto simp: e update_conv' dirs_added_def)
      moreover note \<open>map_of fs p \<noteq> Some Dir\<close>
      ultimately have "written fs f p b"
        using d plain_good [OF plain_links [OF sl1 pl1]] by (simp add: written_def e update_conv')
      with f okf sl sl1 show ?thesis by (auto simp: same_links_def)
    qed
  qed
qed

end
