(* ===== verification/FS_Claims.thy ===== *)
theory FS_Claims
  imports FS_Props
begin

text \<open>
  The properties of the file server: the jail, the effect of a write, the round trip, the
  audit rows and the directory listing.
\<close>

lemma resolve_in_root_Inr:
  "resolve_in_root fs jail rel = Inr p \<Longrightarrow>
     p = resolve fs (joined jail rel) \<and> prefix jail p \<and> good fs p \<and> CHR 0x00 \<notin> set rel"
  by (auto simp: resolve_in_root_def Let_def resolve_good split: if_splits)

lemma resolve_links: "same_links fs fs' \<Longrightarrow> resolve_in_root fs' jail rel = resolve_in_root fs jail rel"
  by (simp add: resolve_in_root_def resolve_def realpath_links)

text \<open>A sample tree: the agent directory with a note, a link to a file outside, a link back in
  and two links that loop.\<close>

definition sample_jail :: path where
  "sample_jail = [''data'', ''agent'']"

definition sample_fs :: fs where
  "sample_fs = [([''data''], Dir), ([''data'', ''agent''], Dir), ([''etc''], Dir),
     ([''etc'', ''passwd''], File [114, 111, 111, 116]),
     ([''data'', ''agent'', ''note''], File [104, 105, 13, 10]),
     ([''data'', ''agent'', ''out''], Link ''../../etc''),
     ([''data'', ''agent'', ''back''], Link ''/data/agent''),
     ([''data'', ''agent'', ''a''], Link ''b''),
     ([''data'', ''agent'', ''b''], Link ''a'')]"

lemma sample_fs_ok: "fs_ok sample_fs"
  by (auto simp: fs_ok_def sample_fs_def object_at_def no_name_def split: if_splits)

text \<open>C3. The jail agrees with the operating system. Whenever the system itself can resolve the
  requested path under the root - through any mix of \<open>..\<close>, absolute paths and symbolic links -
  the jail accepts it just if the object reached lies under the root, and then hands out that
  object's canonical path; so no file outside can be named, and no file inside is refused.\<close>
theorem jail_exact:
  assumes "walk fs n [] (joined jail rel) = Inr (q, m)" and "CHR 0x00 \<notin> set rel"
  shows "resolve_in_root fs jail rel = (if prefix jail q then Inr q
     else Inl (ValueError (''path escapes the agent files directory: '' @ repr_str rel)))"
  using resolve_walk [OF assms(1)] assms(2) by (simp add: resolve_in_root_def)

theorem jail_exact_witness:
  "resolve_in_root sample_fs sample_jail ''back/../agent/out/passwd'' =
     Inl (ValueError (''path escapes the agent files directory: '' @
       repr_str ''back/../agent/out/passwd''))"
proof -
  have w: "walk sample_fs 5 [] (joined sample_jail ''back/../agent/out/passwd'') =
      Inr ([''etc'', ''passwd''], 3)"
    by code_simp
  have "\<not> prefix sample_jail [''etc'', ''passwd'']" by (simp add: sample_jail_def)
  then show ?thesis using jail_exact [OF w] by simp
qed

text \<open>C4. Whatever the file system holds, the path the jail hands out is safe to open: when the
  system resolves it, following links again, it arrives at that very path, which is under the
  root. A link that cannot be resolved can only make the later system call fail.\<close>
theorem jail_safe:
  assumes "resolve_in_root fs jail rel = Inr p"
  shows "prefix jail p \<and> (case walk fs n [] p of Inr (q, _) \<Rightarrow> q = p | Inl _ \<Rightarrow> True)"
  using resolve_in_root_Inr [OF assms] walk_good [of fs p n] by (auto split: sum.splits prod.splits)

theorem jail_safe_witness:
  "prefix sample_jail [''data'', ''agent'', ''a''] \<and>
   (case walk sample_fs 7 [] [''data'', ''agent'', ''a''] of Inr (q, _) \<Rightarrow> q = [''data'', ''agent'', ''a'']
     | Inl _ \<Rightarrow> True)"
proof -
  have "resolve_in_root sample_fs sample_jail ''a'' = Inr [''data'', ''agent'', ''a'']" by code_simp
  then show ?thesis by (rule jail_safe)
qed

text \<open>A read that succeeds returned the text of a file under the root - its decoded bytes with
  newlines translated - and left exactly one audit row that names the path, the length of the
  text in UTF-8 and its first 200 characters; a read that raises left none.\<close>
theorem read_confined:
  "case read_text_file commit fs jail path rows of
     (Inr content, rows') \<Rightarrow> \<exists>p b cs. prefix jail p \<and> map_of fs p = Some (File b) \<and>
       decode b = Some cs \<and> content = universal_newlines cs \<and>
       (\<exists>u. encode content = Some u \<and> rows' = rows @ [\<lparr>fa_path = path, fa_action = ''read'',
          fa_byte_count = length u, fa_preview = take 200 content\<rparr>])
   | (Inl _, rows') \<Rightarrow> rows' = rows"
proof (cases "bindr (resolve_in_root fs jail path) (read_text fs)")
  case (Inl e)
  then show ?thesis by (simp add: read_text_file_def)
next
  case (Inr content)
  then obtain p where p: "resolve_in_root fs jail path = Inr p" and r: "read_text fs p = Inr content"
    by (auto simp: bindr_Inr_iff)
  from r obtain q b cs where st: "stat fs p = Inr (q, File b)" and d: "decode b = Some cs"
    and c: "content = universal_newlines cs"
    by (auto simp: read_text_def split: sum.splits prod.splits obj.splits option.splits)
  from resolve_in_root_Inr [OF p] have "prefix jail p" and "good fs p" by auto
  moreover from stat_good [OF this(2) st] have "map_of fs p = Some (File b)"
    by (auto simp: object_at_def split: if_splits)
  ultimately show ?thesis
    using Inr d c by (auto simp: read_text_file_def log_event_def split: option.splits prod.splits)
qed

text \<open>What a call of \<open>write_text_file\<close> comes to: it is refused, it fails after making some
  directories, or it writes the file, and then it leaves its audit row if the database takes it.\<close>

lemma write_text_file_cases:
  assumes "fs_ok fs" and "write_text_file st commit jail path content fs rows = (r, fs', rows')"
  obtains (refused) e where "r = Inl e" "fs' = fs" "rows' = rows"
  | (unwritten) p b e where "resolve_in_root fs jail path = Inr p" "encode content = Some b"
      "int (length b) \<le> agent_files_max_write_bytes st" "r = Inl e" "rows' = rows"
      "fs_ok fs'" "same_links fs fs'" "dirs_added fs fs' (butlast p)"
  | (wrote) p b where "resolve_in_root fs jail path = Inr p" "encode content = Some b"
      "int (length b) \<le> agent_files_max_write_bytes st"
      "make_and_write fs p b = (None, fs')" "fs_ok fs'" "same_links fs fs'" "written fs fs' p b"
      "case commit \<lparr>fa_path = path, fa_action = (if path_exists fs p then ''write'' else ''create''),
           fa_byte_count = length b, fa_preview = take 200 content\<rparr> of
         Some e \<Rightarrow> r = Inl e \<and> rows' = rows
       | None \<Rightarrow> rows' = rows @ [\<lparr>fa_path = path,
           fa_action = (if path_exists fs p then ''write'' else ''create''),
           fa_byte_count = length b, fa_preview = take 200 content\<rparr>]"
proof (cases "\<exists>p b. resolve_in_root fs jail path = Inr p \<and> encode content = Some b \<and>
    int (length b) \<le> agent_files_max_write_bytes st")
  case False
  with assms(2) have "fs' = fs \<and> rows' = rows \<and> (\<exists>e. r = Inl e)"
    by (auto simp: write_text_file_def split: option.splits if_splits sum.splits)
  with refused show ?thesis by blast
next
  case True
  then obtain p b where p: "resolve_in_root fs jail path = Inr p" "encode content = Some b"
    "int (length b) \<le> agent_files_max_write_bytes st" by blast
  obtain e f where mw: "make_and_write fs p b = (e, f)" by (rule prod.exhaust)
  from resolve_in_root_Inr [OF p(1)] have "good fs p" by auto
  note eff = make_and_write_effect [OF assms(1) this mw]
  show ?thesis
  proof (cases e)
    case None
    with assms(2) p mw eff show ?thesis
      by - (cases "path_exists fs p"; intro wrote [OF p];
        auto simp: write_text_file_def Let_def log_event_def split: option.splits)
  next
    case (Some x)
    with assms(2) p mw eff show ?thesis
      by (intro unwritten [OF p]) (auto simp: write_text_file_def)
  qed
qed

text \<open>C5. A write changes nothing outside the root except that missing directories of the root's
  own path may be created: every other object is as before, no link is touched, and whatever
  existed under the root keeps its content unless it is the target. A refused write - content
  that has no encoding, too many bytes, an escaping path - changes nothing at all.\<close>
theorem write_confined:
  assumes "fs_ok fs" and "write_text_file st commit jail path content fs rows = (r, fs', rows')"
  shows "fs_ok fs' \<and> same_links fs fs' \<and>
    (\<forall>q. map_of fs' q \<noteq> map_of fs q \<longrightarrow>
       (\<exists>p b. resolve_in_root fs jail path = Inr p \<and> encode content = Some b \<and>
          int (length b) \<le> agent_files_max_write_bytes st \<and> prefix jail p \<and>
          (q = p \<and> map_of fs' q = Some (File b) \<or>
           prefix q p \<and> map_of fs q = None \<and> map_of fs' q = Some Dir)))"
  using assms
proof (cases rule: write_text_file_cases)
  case refused
  with assms(1) show ?thesis by (simp add: same_links_def)
next
  case (unwritten p b e)
  have "prefix q p \<and> map_of fs q = None \<and> map_of fs' q = Some Dir" if "map_of fs' q \<noteq> map_of fs q" for q
    using that unwritten(8) prefix_order.trans [OF _ prefixeq_butlast] by (auto simp: dirs_added_def)
  with unwritten resolve_in_root_Inr [OF unwritten(1)] show ?thesis by blast
next
  case (wrote p b)
  have "q = p \<and> map_of fs' q = Some (File b) \<or> prefix q p \<and> map_of fs q = None \<and> map_of fs' q = Some Dir"
    if "map_of fs' q \<noteq> map_of fs q" for q
    using written_changes [OF wrote(7) that] by blast
  with wrote(1,2,3,5,6) resolve_in_root_Inr [OF wrote(1)] show ?thesis by blast
qed

theorem write_confined_witness:
  "fs_ok (fst (snd (write_text_file default_settings (\<lambda>_. None) sample_jail ''new/x'' [104, 105] sample_fs [])))"
  using write_confined [OF sample_fs_ok, of default_settings "\<lambda>_. None" sample_jail "''new/x''" "[104, 105]" "[]"]
  by (cases "write_text_file default_settings (\<lambda>_. None) sample_jail ''new/x'' [104, 105] sample_fs []") auto

text \<open>C32. Round trip: after a write that succeeded, a read of the same path succeeds and returns
  the content with CR LF and CR turned into LF; it is the content itself exactly when the
  content has no carriage return.\<close>
theorem write_then_read:
  assumes "fs_ok fs"
    and "write_text_file st commit jail path content fs rows = (Inr msg, fs', rows')"
    and "\<And>ev. commit' ev = None"
  shows "fst (read_text_file commit' fs' jail path rows') = Inr (universal_newlines content) \<and>
    (fst (read_text_file commit' fs' jail path rows') = Inr content \<longleftrightarrow> 13 \<notin> set content)"
proof -
  from assms(1,2) obtain p b where p: "resolve_in_root fs jail path = Inr p"
    and b: "encode content = Some b" and ok: "fs_ok fs'" and sl: "same_links fs fs'"
    and w: "written fs fs' p b"
    by (cases rule: write_text_file_cases) auto
  have p': "resolve_in_root fs' jail path = Inr p" using resolve_links [OF sl] p by simp
  have isfile: "map_of fs' p = Some (File b)" using w by (simp add: written_def)
  from fs_okD [OF ok isfile] obtain a c where pc: "p = a @ [c]" and c: "\<not> no_name c" "c \<noteq> ''..''"
    and d: "object_at fs' a = Some Dir" by (cases p rule: rev_cases) auto
  have "walk fs' MAXSYMLINKS [] p = Inr (p, MAXSYMLINKS)"
    unfolding pc by (rule walk_child [OF ok d c]) (use isfile pc in simp)
  then have "stat fs' p = Inr (p, File b)" using isfile pc by (simp add: stat_def)
  moreover have "decode b = Some content" by (rule decode_encode [OF b])
  ultimately have "read_text fs' p = Inr (universal_newlines content)" by (simp add: read_text_def)
  moreover obtain u where "encode (universal_newlines content) = Some u"
    using encode_newlines [OF b] by blast
  ultimately have "fst (read_text_file commit' fs' jail path rows') = Inr (universal_newlines content)"
    using p' assms(3) by (simp add: read_text_file_def log_event_def)
  then show ?thesis by (simp add: universal_newlines_eq_iff)
qed

theorem write_then_read_witness:
  "fst (read_text_file (\<lambda>_. None) (fst (snd (write_text_file default_settings (\<lambda>_. None) sample_jail
     ''new/x'' [104, 13, 10, 105] sample_fs []))) sample_jail ''new/x'' []) = Inr [104, 10, 105]"
proof -
  let ?w = "write_text_file default_settings (\<lambda>_. None) sample_jail ''new/x'' [104, 13, 10, 105] sample_fs []"
  have w: "fst ?w = Inr ''wrote 4 bytes to new/x''" by code_simp
  obtain r f rows where e: "?w = (r, f, rows)" by (metis prod_cases3)
  with w have "?w = (Inr ''wrote 4 bytes to new/x'', f, rows)" by simp
  from write_then_read [OF sample_fs_ok this, of "\<lambda>_. None"]
  have "fst (read_text_file (\<lambda>_. None) f sample_jail ''new/x'' rows) = Inr [104, 10, 105]" by simp
  moreover have "fst (read_text_file (\<lambda>_. None) f sample_jail ''new/x'' rows) =
      fst (read_text_file (\<lambda>_. None) f sample_jail ''new/x'' [])"
    by (simp add: read_text_file_def log_event_def split: sum.split option.split)
  ultimately show ?thesis by (simp add: e)
qed

section \<open>Writes that leave no audit row\<close>

text \<open>A relative path padded with \<open>./\<close> names the same file.\<close>

definition padded :: "nat \<Rightarrow> string \<Rightarrow> string" where
  "padded k path = concat (replicate k ''./'') @ path"

lemma padded_simps: "padded 0 path = path" "padded (Suc k) path = CHR ''.'' # CHR ''/'' # padded k path"
  by (simp_all add: padded_def)

lemma split_sep_padded:
  "filter (\<lambda>c. \<not> no_name c) (split_sep (padded k path)) = filter (\<lambda>c. \<not> no_name c) (split_sep path)"
  by (induction k) (simp_all add: padded_simps no_name_def)

lemma resolve_padded:
  assumes "\<not> is_absolute path" and "resolve_in_root fs jail path = Inr p"
  shows "resolve_in_root fs jail (padded k path) = Inr p"
proof -
  have "\<not> is_absolute (padded k path)"
    using assms(1) by (cases k) (simp_all add: padded_simps is_absolute_def)
  with assms(1) have j: "joined jail (padded k path) = joined jail path"
    by (simp add: joined_def link_base_def split_sep_padded)
  have "set (padded k path) \<subseteq> set path \<union> {CHR ''.'', CHR ''/''}"
    by (induction k) (auto simp: padded_simps)
  with assms(2) show ?thesis by (auto simp: resolve_in_root_def j Let_def split: if_splits)
qed

text \<open>The file is written before the audit row is stored, and the row's path column holds 1024
  characters: any write a caller can make under a relative path can also be made without leaving
  a row, by padding the path with \<open>./\<close> - the tool raises the database's error, but the file
  system is the one of the successful write.\<close>
theorem write_without_audit:
  assumes "write_text_file st (\<lambda>_. None) jail path content fs rows = (Inr msg, fs', rows')"
    and "\<not> is_absolute path"
    and "\<And>ev. 1024 < length (fa_path ev) \<Longrightarrow> commit ev = Some e"
  shows "write_text_file st commit jail (padded 600 path) content fs rows = (Inl e, fs', rows)"
proof -
  from assms(1) obtain p b where p: "resolve_in_root fs jail path = Inr p" and b: "encode content = Some b"
    and l: "int (length b) \<le> agent_files_max_write_bytes st"
    and mw: "make_and_write fs p b = (None, fs')"
    by (auto simp: write_text_file_def Let_def split: option.splits if_splits sum.splits prod.splits)
  have "length (padded k path) = 2 * k + length path" for k by (induction k) (simp_all add: padded_simps)
  then have "1024 < length (padded 600 path)" by simp
  with assms(3) resolve_padded [OF assms(2) p] b l mw show ?thesis
    by (simp add: write_text_file_def Let_def log_event_def)
qed

theorem write_without_audit_witness:
  "\<exists>f. write_text_file default_settings (\<lambda>ev. if 1024 < length (fa_path ev) then Some (OtherError ''DataError'')
      else None) sample_jail (padded 600 ''note'') [120] sample_fs [] = (Inl (OtherError ''DataError''), f, [])"
proof -
  let ?w = "write_text_file default_settings (\<lambda>_. None) sample_jail ''note'' [120] sample_fs []"
  have w: "fst ?w = Inr ''wrote 1 bytes to note''" by code_simp
  obtain r f rows where "?w = (r, f, rows)" by (metis prod_cases3)
  with w have e: "?w = (Inr ''wrote 1 bytes to note'', f, rows)" by simp
  have "\<not> is_absolute ''note''" by (simp add: is_absolute_def)
  from write_without_audit [OF e this, of "\<lambda>ev. if 1024 < length (fa_path ev) then
      Some (OtherError ''DataError'') else None"]
  show ?thesis by auto
qed

section \<open>Listing\<close>

lemma entry_names_set:
  assumes "distinct (map fst fs)"
  shows "distinct (entry_names fs d) \<and> set (entry_names fs d) = {c. map_of fs (d @ [c]) \<noteq> None}"
proof
  have "inj_on last {p. p \<noteq> [] \<and> butlast p = d}"
    by (auto simp: inj_on_def) (metis append_butlast_last_id)
  moreover have "fst ` set (filter (\<lambda>e. fst e \<noteq> [] \<and> butlast (fst e) = d) fs) \<subseteq> {p. p \<noteq> [] \<and> butlast p = d}"
    by auto
  moreover have "distinct (map fst (filter (\<lambda>e. fst e \<noteq> [] \<and> butlast (fst e) = d) fs))"
    using assms by (rule distinct_map_filter)
  ultimately show "distinct (entry_names fs d)"
    unfolding entry_names_def map_map [symmetric]
    by (subst distinct_map) (auto intro: inj_on_subset)
  show "set (entry_names fs d) = {c. map_of fs (d @ [c]) \<noteq> None}"
  proof (intro equalityI subsetI)
    fix c
    assume "c \<in> set (entry_names fs d)"
    then obtain p x where "(p, x) \<in> set fs" "p \<noteq> []" "butlast p = d" "c = last p"
      by (auto simp: entry_names_def)
    then have "(d @ [c], x) \<in> set fs" by (metis append_butlast_last_id)
    then show "c \<in> {c. map_of fs (d @ [c]) \<noteq> None}"
      using weak_map_of_SomeI by fastforce
  next
    fix c
    assume "c \<in> {c. map_of fs (d @ [c]) \<noteq> None}"
    then obtain x where "(d @ [c], x) \<in> set fs" by (auto dest: map_of_SomeD)
    then show "c \<in> set (entry_names fs d)"
      unfolding entry_names_def by (force intro!: rev_image_eqI)
  qed
qed

text \<open>A listing that succeeds is of a directory under the root, and names each of its entries
  exactly once, in increasing order.\<close>
theorem listing_exact:
  assumes "distinct (map fst fs)" and "list_directory fs jail path = Inr names"
  shows "\<exists>d. prefix jail d \<and> object_at fs d = Some Dir \<and> sorted names \<and> distinct names \<and>
    set names = {c. map_of fs (d @ [c]) \<noteq> None}"
proof -
  from assms(2) obtain d where d: "resolve_in_root fs jail path = Inr d"
    and l: "(case stat fs d of Inl e \<Rightarrow> Inl (os_error e)
       | Inr (q, Dir) \<Rightarrow> Inr (sort (entry_names fs q)) | Inr _ \<Rightarrow> Inl (os_error ENOTDIR)) = Inr names"
    by (auto simp: list_directory_def bindr_Inr_iff)
  from l obtain q x where qx: "stat fs d = Inr (q, x)" by (cases "stat fs d") auto
  with l have st: "stat fs d = Inr (q, Dir)" and n: "names = sort (entry_names fs q)"
    by (cases x; simp)+
  from resolve_in_root_Inr [OF d] have "prefix jail d" and "good fs d" by auto
  moreover from stat_good [OF this(2) st] have "q = d" and "object_at fs d = Some Dir" by auto
  ultimately show ?thesis using n entry_names_set [OF assms(1), of d] by auto
qed

theorem listing_exact_witness:
  "\<exists>d. prefix sample_jail d \<and> sorted [''a'', ''b'', ''back'', ''note'', ''out''] \<and>
     set [''a'', ''b'', ''back'', ''note'', ''out''] = {c. map_of sample_fs (d @ [c]) \<noteq> None}"
proof -
  have "distinct (map fst sample_fs)" by (simp add: sample_fs_def)
  moreover have "list_directory sample_fs sample_jail ''.'' = Inr [''a'', ''b'', ''back'', ''note'', ''out'']"
    by code_simp
  ultimately show ?thesis using listing_exact by blast
qed

end
