(* ===== verification/Code_Exec.thy ===== *)
theory Code_Exec
  imports Json
begin

text \<open>
  Sandboxed code execution, \<open>app/tools/code_executor.py\<close>: one container per call, removed
  on every path, every failure turned into an error result, and one audit row per call.
  The container engine is a parameter.
\<close>

section \<open>The engine\<close>

text \<open>What the engine is asked to start; the limits are those of the module.\<close>

record container_request =
  cq_image :: string
  cq_command :: "string list"
  cq_network_mode :: string
  cq_mem_limit :: string
  cq_pids_limit :: nat
  cq_detach :: bool
  cq_auto_remove :: bool

definition MEM_LIMIT :: string where
  "MEM_LIMIT = ''128m''"

definition PIDS_LIMIT :: nat where
  "PIDS_LIMIT = 32"

definition container_request :: "string \<Rightarrow> container_request" where
  "container_request code = \<lparr>cq_image = ''python:3.11-slim'', cq_command = [''python'', ''-c'', code],
     cq_network_mode = ''none'', cq_mem_limit = MEM_LIMIT, cq_pids_limit = PIDS_LIMIT, cq_detach = True,
     cq_auto_remove = False\<rparr>"

text \<open>
  The client library: opening and closing a client, starting a container (which answers
  with its id), waiting for it with a timeout, reading its log chunks, and removing it.
\<close>

record 'p podman =
  open_client :: "'p \<Rightarrow> exn option \<times> 'p"
  close_client :: "'p \<Rightarrow> exn option \<times> 'p"
  containers_run :: "container_request \<Rightarrow> 'p \<Rightarrow> (exn + nat) \<times> 'p"
  wait :: "nat \<Rightarrow> nat \<Rightarrow> 'p \<Rightarrow> (exn + int) \<times> 'p"
  logs :: "nat \<Rightarrow> 'p \<Rightarrow> (exn + string list) \<times> 'p"
  remove :: "nat \<Rightarrow> 'p \<Rightarrow> exn option \<times> 'p"
  container_error :: "int \<Rightarrow> string \<Rightarrow> exn"
  decode_replace :: "string \<Rightarrow> string"

definition MAX_CODE_LENGTH :: nat where
  "MAX_CODE_LENGTH = 4000"

definition EXECUTION_TIMEOUT_S :: nat where
  "EXECUTION_TIMEOUT_S = 10"

definition valid_code_input :: "string \<Rightarrow> bool" where
  "valid_code_input code \<longleftrightarrow> 1 \<le> length code \<and> length code \<le> MAX_CODE_LENGTH"

section \<open>One container\<close>

text \<open>The body of the \<open>try\<close>: wait, read the logs, raise on a non-zero exit code.\<close>

definition container_output :: "'p podman \<Rightarrow> nat \<Rightarrow> 'p \<Rightarrow> (exn + string) \<times> 'p" where
  "container_output eng c p =
     (case wait eng c EXECUTION_TIMEOUT_S p of
        (Inl e, p1) \<Rightarrow> (Inl e, p1)
      | (Inr exit_code, p1) \<Rightarrow>
          (case logs eng c p1 of
             (Inl e, p2) \<Rightarrow> (Inl e, p2)
           | (Inr chunks, p2) \<Rightarrow> (let text = decode_replace eng (concat chunks) in
               if exit_code \<noteq> 0 then (Inl (container_error eng exit_code text), p2)
               else (Inr text, p2))))"

text \<open>The \<open>finally\<close>: an exception of the removal replaces the result.\<close>

definition run_container :: "'p podman \<Rightarrow> string \<Rightarrow> 'p \<Rightarrow> (exn + string) \<times> 'p" where
  "run_container eng code p =
     (case containers_run eng (container_request code) p of
        (Inl e, p1) \<Rightarrow> (Inl e, p1)
      | (Inr c, p1) \<Rightarrow>
          (case container_output eng c p1 of
             (r, p2) \<Rightarrow> (case remove eng c p2 of
                (Some e, p3) \<Rightarrow> (Inl e, p3)
              | (None, p3) \<Rightarrow> (r, p3))))"

section \<open>The tool\<close>

record code_result =
  cr_output :: string
  cr_status :: string

text \<open>\<open>str.strip()\<close> on the code points U+0000 to U+00FF.\<close>

definition py_space :: "char \<Rightarrow> bool" where
  "py_space c = (let n = (of_char c :: nat) in
     9 \<le> n \<and> n \<le> 13 \<or> 28 \<le> n \<and> n \<le> 32 \<or> n = 133 \<or> n = 160)"

definition strip :: "string \<Rightarrow> string" where
  "strip s = rev (dropWhile py_space (rev (dropWhile py_space s)))"

text \<open>\<open>with PodmanClient(...) as client\<close>: the client is closed on both paths.\<close>

definition with_client ::
    "'p podman \<Rightarrow> ('p \<Rightarrow> (exn + 'a) \<times> 'p) \<Rightarrow> 'p \<Rightarrow> (exn + 'a) \<times> 'p" where
  "with_client eng body p =
     (case open_client eng p of
        (Some e, p1) \<Rightarrow> (Inl e, p1)
      | (None, p1) \<Rightarrow> (case body p1 of
          (r, p2) \<Rightarrow> (case close_client eng p2 of
             (Some e, p3) \<Rightarrow> (Inl e, p3)
           | (None, p3) \<Rightarrow> (r, p3))))"

definition execute_sandboxed_code ::
    "(exn \<Rightarrow> string) \<Rightarrow> 'p podman \<Rightarrow> string \<Rightarrow> 'p \<Rightarrow> code_result \<times> 'p" where
  "execute_sandboxed_code str_exn eng code p =
     (case with_client eng (run_container eng code) p of
        (Inl e, p') \<Rightarrow> (\<lparr>cr_output = str_exn e, cr_status = ''error''\<rparr>, p')
      | (Inr text, p') \<Rightarrow> (\<lparr>cr_output = strip text, cr_status = ''success''\<rparr>, p'))"

section \<open>The audited tool\<close>

record code_execution_event =
  ce_thread_id :: "string option"
  ce_code_length :: nat
  ce_outcome :: string
  ce_detail :: string

definition audit_code ::
    "(code_execution_event \<Rightarrow> exn option) \<Rightarrow> string option \<Rightarrow> nat \<Rightarrow> string \<Rightarrow> string \<Rightarrow>
     code_execution_event list \<Rightarrow> exn option \<times> code_execution_event list" where
  "audit_code commit thread code_length outcome detail rows =
     (let ev = \<lparr>ce_thread_id = thread, ce_code_length = code_length, ce_outcome = outcome,
                ce_detail = take 512 detail\<rparr>
      in case commit ev of None \<Rightarrow> (None, rows @ [ev]) | Some e \<Rightarrow> (Some e, rows))"

definition execute_sandboxed_code_async ::
    "(exn \<Rightarrow> string) \<Rightarrow> 'p podman \<Rightarrow> (code_execution_event \<Rightarrow> exn option) \<Rightarrow> string option \<Rightarrow> string \<Rightarrow>
     'p \<Rightarrow> code_execution_event list \<Rightarrow> (exn + code_result) \<times> 'p \<times> code_execution_event list" where
  "execute_sandboxed_code_async str_exn eng commit thread code p rows =
     (case execute_sandboxed_code str_exn eng code p of
        (result, p') \<Rightarrow>
          (case audit_code commit thread (length code)
              (if cr_status result = ''success'' then ''ok'' else ''error'') (cr_output result) rows of
             (Some e, rows') \<Rightarrow> (Inl e, p', rows')
           | (None, rows') \<Rightarrow> (Inr result, p', rows')))"

section \<open>The containers that are alive\<close>

text \<open>
  Documented behaviour of the engine, for the set of containers it keeps: a container that
  was started is new, looking at it changes nothing, a removal that does not raise removes
  it, and opening or closing a client touches no container.
\<close>

definition engine_law :: "'p podman \<Rightarrow> ('p \<Rightarrow> nat set) \<Rightarrow> bool" where
  "engine_law eng live \<longleftrightarrow>
     (\<forall>req p c p'. containers_run eng req p = (Inr c, p') \<longrightarrow> c \<notin> live p \<and> live p' = insert c (live p)) \<and>
     (\<forall>c n p. live (snd (wait eng c n p)) = live p) \<and>
     (\<forall>c p. live (snd (logs eng c p)) = live p) \<and>
     (\<forall>c p p'. remove eng c p = (None, p') \<longrightarrow> live p' = live p - {c}) \<and>
     (\<forall>p. live (snd (open_client eng p)) = live p) \<and>
     (\<forall>p. live (snd (close_client eng p)) = live p)"

lemma container_output_live:
  "engine_law eng live \<Longrightarrow> live (snd (container_output eng c p)) = live p"
  unfolding engine_law_def container_output_def Let_def
  by (auto split: prod.splits sum.splits) (metis snd_conv)+

text \<open>A container that was started is gone when \<open>_run_container\<close> is left, whichever way,
  unless its removal was what raised.\<close>

lemma run_container_live:
  assumes law: "engine_law eng live" and run: "containers_run eng (container_request code) p = (Inr c, p1)"
    and rm: "fst (remove eng c (snd (container_output eng c p1))) = None"
  shows "live (snd (run_container eng code p)) = live p"
proof -
  obtain r p2 where co: "container_output eng c p1 = (r, p2)" by (cases "container_output eng c p1")
  obtain p3 where p3: "remove eng c p2 = (None, p3)"
    using rm co by (cases "remove eng c p2") auto
  have "live p1 = insert c (live p)" "c \<notin> live p" using law run by (auto simp: engine_law_def)
  moreover have "live p2 = live p1" using container_output_live [OF law, of c p1] co by simp
  moreover have "live p3 = live p2 - {c}" using law p3 by (auto simp: engine_law_def)
  moreover have "snd (run_container eng code p) = p3" using run co p3 by (simp add: run_container_def)
  ultimately show ?thesis by auto
qed

lemma with_client_Inr:
  "with_client eng body p = (Inr x, p') \<Longrightarrow> \<exists>p1 p2. body p1 = (Inr x, p2)"
  by (auto simp: with_client_def split: prod.splits option.splits)

lemma run_container_Inr:
  "run_container eng code p = (Inr text, p') \<Longrightarrow>
   \<exists>c p1 p2 p3 chunks. containers_run eng (container_request code) p = (Inr c, p1) \<and>
     wait eng c EXECUTION_TIMEOUT_S p1 = (Inr 0, p2) \<and> logs eng c p2 = (Inr chunks, p3) \<and>
     text = decode_replace eng (concat chunks) \<and> fst (remove eng c p3) = None"
  by (auto simp: run_container_def container_output_def Let_def
      split: prod.splits sum.splits option.splits if_splits)

lemma with_client_live:
  assumes "engine_law eng live" and "\<And>q. live q = live p \<Longrightarrow> live (snd (body q)) = live p"
  shows "live (snd (with_client eng body p)) = live p"
proof -
  have o: "live (snd (open_client eng q)) = live q" and c: "live (snd (close_client eng q)) = live q"
    for q using assms(1) by (auto simp: engine_law_def)
  show ?thesis
    using o [of p] assms(2) [of "snd (open_client eng p)"]
      c [of "snd (body (snd (open_client eng p)))"]
    by (auto simp: with_client_def split: prod.splits option.splits)
qed

text \<open>
  Isolation: whatever can only be broken by starting a container with a network, without the
  memory limit or without the process limit is kept by every execution.
\<close>

definition isolated :: "container_request \<Rightarrow> bool" where
  "isolated req \<longleftrightarrow> cq_network_mode req = ''none'' \<and> cq_mem_limit req = MEM_LIMIT \<and>
     cq_pids_limit req = PIDS_LIMIT"

definition kept_by_engine :: "'p podman \<Rightarrow> ('p \<Rightarrow> bool) \<Rightarrow> bool" where
  "kept_by_engine eng safe \<longleftrightarrow>
     (\<forall>req p. isolated req \<longrightarrow> safe p \<longrightarrow> safe (snd (containers_run eng req p))) \<and>
     (\<forall>c n p. safe p \<longrightarrow> safe (snd (wait eng c n p))) \<and>
     (\<forall>c p. safe p \<longrightarrow> safe (snd (logs eng c p))) \<and>
     (\<forall>c p. safe p \<longrightarrow> safe (snd (remove eng c p))) \<and>
     (\<forall>p. safe p \<longrightarrow> safe (snd (open_client eng p))) \<and>
     (\<forall>p. safe p \<longrightarrow> safe (snd (close_client eng p)))"

lemma kept_by_engineD:
  assumes "kept_by_engine eng safe" and "safe p"
  shows "isolated req \<Longrightarrow> containers_run eng req p = (r1, p1) \<Longrightarrow> safe p1"
    and "wait eng c n p = (r2, p1) \<Longrightarrow> safe p1" and "logs eng c p = (r3, p1) \<Longrightarrow> safe p1"
    and "remove eng c p = (r4, p1) \<Longrightarrow> safe p1" and "open_client eng p = (r5, p1) \<Longrightarrow> safe p1"
    and "close_client eng p = (r5, p1) \<Longrightarrow> safe p1"
  using assms unfolding kept_by_engine_def by (metis snd_conv)+

lemma container_output_kept:
  "kept_by_engine eng safe \<Longrightarrow> safe p \<Longrightarrow> container_output eng c p = (r, p') \<Longrightarrow> safe p'"
  unfolding container_output_def Let_def
  by (auto split: prod.splits sum.splits if_splits dest: kept_by_engineD)

lemma run_container_kept:
  assumes "kept_by_engine eng safe" and "safe p" and "run_container eng code p = (r, p')"
  shows "safe p'"
proof -
  have "isolated (container_request code)" by (simp add: isolated_def container_request_def)
  with assms show ?thesis
    unfolding run_container_def
    by (auto split: prod.splits sum.splits option.splits
        dest: kept_by_engineD container_output_kept [OF assms(1), rotated])
qed

lemma execution_isolated:
  assumes "kept_by_engine eng safe" and "safe p"
    and "execute_sandboxed_code str_exn eng code p = (r, p')"
  shows "safe p'"
proof -
  obtain x q where w: "with_client eng (run_container eng code) p = (x, q)" by (rule prod.exhaust)
  then have "safe q"
    unfolding with_client_def using assms(1,2)
    by (auto split: prod.splits option.splits
        dest: kept_by_engineD run_container_kept [OF assms(1), rotated])
  with w assms(3) show ?thesis by (auto simp: execute_sandboxed_code_def split: sum.splits)
qed

section \<open>Properties\<close>

text \<open>A sample engine: started containers are remembered in a list; the script exits with 0
  after printing, with 1 when it is \<open>boom\<close>, and outlives the timeout when it is \<open>loop\<close>.\<close>

definition sample_engine :: "(nat \<times> string) list podman" where
  "sample_engine = \<lparr>
     open_client = (\<lambda>p. (None, p)), close_client = (\<lambda>p. (None, p)),
     containers_run = (\<lambda>req p. (Inr (Suc (sum_list (map fst p))), (Suc (sum_list (map fst p)), last (cq_command req)) # p)),
     wait = (\<lambda>c n p. (if map_of p c = Some ''loop'' then Inl (OSError ''timed out'')
        else Inr (if map_of p c = Some ''boom'' then 1 else 0), p)),
     logs = (\<lambda>c p. (Inr ['' out '', [CHR 0x0A]], p)),
     remove = (\<lambda>c p. (None, filter (\<lambda>x. fst x \<noteq> c) p)),
     container_error = (\<lambda>n t. PodmanError (show_int n @ t)), decode_replace = (\<lambda>t. t)\<rparr>"

lemma sample_engine_law: "engine_law sample_engine (\<lambda>p. fst ` set p)"
proof -
  have "Suc (sum_list (map fst p)) \<notin> fst ` set p" for p :: "(nat \<times> string) list"
    using member_le_sum_list [of _ "map fst p"] by (auto simp: image_iff) fastforce
  then show ?thesis by (auto simp: engine_law_def sample_engine_def)
qed

lemma execution_live:
  assumes "engine_law eng live"
    and "\<And>q e q'. containers_run eng (container_request code) q = (Inl e, q') \<Longrightarrow> live q' = live q"
    and "\<And>c q. fst (remove eng c q) = None"
  shows "live (snd (execute_sandboxed_code str_exn eng code p)) = live p"
proof -
  have "live (snd (run_container eng code q)) = live q" for q
  proof -
    obtain r q' where run: "containers_run eng (container_request code) q = (r, q')" by (rule prod.exhaust)
    show ?thesis
    proof (cases r)
      case (Inl e)
      with run have "snd (run_container eng code q) = q'" by (simp add: run_container_def)
      with assms(2) run Inl show ?thesis by metis
    next
      case (Inr c)
      with run have "containers_run eng (container_request code) q = (Inr c, q')" by simp
      from run_container_live [OF assms(1) this assms(3)] show ?thesis .
    qed
  qed
  note rc = this
  have "live (snd (with_client eng (run_container eng code) p)) = live p"
    by (rule with_client_live [OF assms(1)]) (rule trans [OF rc])
  moreover have "snd (execute_sandboxed_code str_exn eng code p) =
      snd (with_client eng (run_container eng code) p)"
    by (simp add: execute_sandboxed_code_def split: prod.split sum.split)
  ultimately show ?thesis by simp
qed

text \<open>Containment: provided a failed start leaves no container behind and removals work,
  an execution leaves exactly the containers alive that were alive before, whether the script
  succeeds, fails, outlives the timeout or cannot be read.\<close>
theorem no_container_left:
  assumes "engine_law eng live"
    and "\<And>q e q'. containers_run eng (container_request code) q = (Inl e, q') \<Longrightarrow> live q' = live q"
    and "\<And>c q. fst (remove eng c q) = None"
  shows "live (snd (execute_sandboxed_code str_exn eng code p)) = live p"
  using assms by (rule execution_live)

theorem no_container_left_witness:
  "fst ` set (snd (execute_sandboxed_code (\<lambda>_. ''failed'') sample_engine ''loop'' [(7, ''x'')])) =
     fst ` set [(7, ''x'')]"
  by (rule no_container_left [OF sample_engine_law]) (simp_all add: sample_engine_def)

text \<open>The audited tool never raises on account of the container: it returns success only
  for a script that was started, ended in time with exit code 0 and whose logs were read -
  its answer is then the stripped log text - and in every case it leaves exactly one audit row,
  with outcome \<open>ok\<close> just for a success and a detail of at most 512 characters.\<close>
theorem audited_execution:
  assumes "\<And>ev. commit ev = None"
  shows "\<exists>r p' row. execute_sandboxed_code_async str_exn eng commit thread code p rows =
       (Inr r, p', rows @ [row]) \<and>
     ce_thread_id row = thread \<and> ce_code_length row = length code \<and>
     ce_detail row = take 512 (cr_output r) \<and>
     (ce_outcome row = ''ok'' \<longleftrightarrow> cr_status r = ''success'') \<and>
     (cr_status r = ''success'' \<longrightarrow> (\<exists>q c q1 q2 q3 chunks.
        containers_run eng (container_request code) q = (Inr c, q1) \<and> wait eng c EXECUTION_TIMEOUT_S q1 = (Inr 0, q2) \<and>
        logs eng c q2 = (Inr chunks, q3) \<and> cr_output r = strip (decode_replace eng (concat chunks))))"
proof -
  obtain r p' where ex: "execute_sandboxed_code str_exn eng code p = (r, p')" by (rule prod.exhaust)
  have "\<exists>q c q1 q2 q3 chunks. containers_run eng (container_request code) q = (Inr c, q1) \<and>
      wait eng c EXECUTION_TIMEOUT_S q1 = (Inr 0, q2) \<and> logs eng c q2 = (Inr chunks, q3) \<and>
      cr_output r = strip (decode_replace eng (concat chunks))" if "cr_status r = ''success''"
  proof -
    from ex that obtain out where w: "with_client eng (run_container eng code) p = (Inr out, p')"
      and t: "cr_output r = strip out"
      by (auto simp: execute_sandboxed_code_def split: prod.splits sum.splits)
    from with_client_Inr [OF w] obtain q q' where "run_container eng code q = (Inr out, q')" by blast
    from run_container_Inr [OF this] t show ?thesis by metis
  qed
  with ex assms show ?thesis by (auto simp: execute_sandboxed_code_async_def audit_code_def Let_def)
qed

theorem audited_execution_witness:
  "\<exists>r p' row. execute_sandboxed_code_async (\<lambda>_. ''failed'') sample_engine (\<lambda>_. None) (Some ''t1'') ''boom'' [] [] =
       (Inr r, p', [] @ [row]) \<and> ce_outcome row = ''error'' \<and> ce_code_length row = 4"
  using audited_execution [of "\<lambda>_. None" "\<lambda>_. ''failed''" sample_engine "Some ''t1''" "''boom''" "[]" "[]"]
  by (auto simp: execute_sandboxed_code_async_def execute_sandboxed_code_def with_client_def
      run_container_def container_output_def container_request_def sample_engine_def audit_code_def
      Let_def EXECUTION_TIMEOUT_S_def)

end
