(* ===== verification/History.thy ===== *)
theory History
  imports Graph_Runtime
begin

text \<open>
  A thread's checkpoint history, \<open>app/graph/history.py\<close>: the config that pins a run to a
  checkpoint, the summary of a snapshot, the timeline, and the grouping of a timeline by
  parent from which \<open>thread_branches\<close> of \<open>app/api/v1/endpoints.py\<close> reads the fork points.
  The compiled graph's own state functions are parameters.
\<close>

section \<open>Configs and snapshots\<close>

record run_config =
  cfg_thread :: string
  cfg_checkpoint :: "string option"

text \<open>An empty checkpoint id is falsy: the config then names the latest checkpoint.\<close>

definition checkpoint_config :: "string \<Rightarrow> string option \<Rightarrow> run_config" where
  "checkpoint_config thread checkpoint = \<lparr>cfg_thread = thread,
     cfg_checkpoint = (case checkpoint of None \<Rightarrow> None | Some c \<Rightarrow> if c = [] then None else Some c)\<rparr>"

text \<open>
  A snapshot: the checkpoint id of its config, the parent's config if there is one, the
  pending nodes, the channel values that are set, and the metadata the code reads.
\<close>

record snapshot =
  sn_checkpoint :: "string option"
  sn_parent :: "string option option"
  sn_next :: "string list"
  sn_messages :: "message list option"
  sn_status :: "string option"
  sn_created_at :: "string option"
  sn_source :: "string option"
  sn_step :: "int option"

record summary =
  su_checkpoint_id :: "string option"
  su_parent_checkpoint_id :: "string option"
  su_next :: "string list"
  su_message_count :: nat
  su_status :: "string option"
  su_created_at :: "string option"
  su_source :: "string option"
  su_step :: "int option"

definition message_count :: "message list option \<Rightarrow> nat" where
  "message_count msgs = (case msgs of None \<Rightarrow> 0 | Some ms \<Rightarrow> length ms)"

definition snapshot_summary :: "snapshot \<Rightarrow> summary" where
  "snapshot_summary s = \<lparr>su_checkpoint_id = sn_checkpoint s,
     su_parent_checkpoint_id = (case sn_parent s of None \<Rightarrow> None | Some c \<Rightarrow> c),
     su_next = sn_next s, su_message_count = message_count (sn_messages s),
     su_status = sn_status s, su_created_at = sn_created_at s,
     su_source = sn_source s, su_step = sn_step s\<rparr>"

section \<open>Reading and editing a thread\<close>

record ('g, 'v) state_graph =
  aget_state_history :: "run_config \<Rightarrow> int \<Rightarrow> 'g \<Rightarrow> exn + snapshot list"
  aget_state :: "run_config \<Rightarrow> 'g \<Rightarrow> exn + snapshot"
  aupdate_state :: "run_config \<Rightarrow> 'v \<Rightarrow> string \<Rightarrow> 'g \<Rightarrow> exn + run_config \<times> 'g"

definition thread_timeline ::
    "('g, 'v) state_graph \<Rightarrow> string \<Rightarrow> int \<Rightarrow> 'g \<Rightarrow> exn + summary list" where
  "thread_timeline graph thread limit g =
     bindr (aget_state_history graph (checkpoint_config thread None) limit g)
       (\<lambda>snaps. Inr (map snapshot_summary snaps))"

definition is_interrupted :: "('g, 'v) state_graph \<Rightarrow> string \<Rightarrow> 'g \<Rightarrow> exn + bool" where
  "is_interrupted graph thread g =
     bindr (aget_state graph (checkpoint_config thread None) g) (\<lambda>s. Inr (sn_next s \<noteq> []))"

definition edit_checkpoint ::
    "('g, 'v) state_graph \<Rightarrow> string \<Rightarrow> string \<Rightarrow> 'v \<Rightarrow> string \<Rightarrow> 'g \<Rightarrow> exn + run_config \<times> 'g" where
  "edit_checkpoint graph thread checkpoint values as_node g =
     aupdate_state graph (checkpoint_config thread (Some checkpoint)) values as_node g"

section \<open>Branches\<close>

text \<open>\<open>tree.setdefault(k, []).append(v)\<close> on a dict in insertion order.\<close>

fun setdefault_append :: "'k \<Rightarrow> 'v \<Rightarrow> ('k \<times> 'v list) list \<Rightarrow> ('k \<times> 'v list) list" where
  "setdefault_append k v [] = [(k, [v])]"
| "setdefault_append k v ((k', vs) # t) =
     (if k' = k then (k', vs @ [v]) # t else (k', vs) # setdefault_append k v t)"

definition branch_tree :: "summary list \<Rightarrow> (string option \<times> summary list) list" where
  "branch_tree timeline =
     fold (\<lambda>e t. setdefault_append (su_parent_checkpoint_id e) e t) timeline []"

text \<open>The dict comprehension of \<open>thread_branches\<close>.\<close>

definition fork_points :: "(string option \<times> summary list) list \<Rightarrow> (string \<times> nat) list" where
  "fork_points tree = map (\<lambda>(p, c). (the p, length c))
     (filter (\<lambda>(p, c). p \<noteq> None \<and> length c > 1) tree)"

section \<open>Grouping by a key\<close>

definition group_by :: "('v \<Rightarrow> 'k) \<Rightarrow> 'v list \<Rightarrow> ('k \<times> 'v list) list" where
  "group_by key xs = fold (\<lambda>x t. setdefault_append (key x) x t) xs []"

lemma branch_tree_group_by: "branch_tree es = group_by su_parent_checkpoint_id es"
  by (simp add: branch_tree_def group_by_def)

lemma group_by_snoc: "group_by key (xs @ [x]) = setdefault_append (key x) x (group_by key xs)"
  by (simp add: group_by_def)

lemma setdefault_append_keys:
  "map fst (setdefault_append k v t) =
     (if k \<in> fst ` set t then map fst t else map fst t @ [k])"
  by (induction t) (auto simp: rev_image_eqI)

lemma setdefault_append_map_of:
  "map_of (setdefault_append k v t) j =
     (if j = k then Some ((case map_of t k of None \<Rightarrow> [] | Some vs \<Rightarrow> vs) @ [v]) else map_of t j)"
  by (induction t) auto

lemma setdefault_append_total:
  "(\<Sum>e\<leftarrow>setdefault_append k v t. length (snd e)) = Suc (\<Sum>e\<leftarrow>t. length (snd e))"
  by (induction t) auto

lemma group_by_map_of:
  "map_of (group_by key xs) k =
     (if k \<in> key ` set xs then Some (filter (\<lambda>x. key x = k) xs) else None)"
proof (induction xs rule: rev_induct)
  case Nil
  then show ?case by (simp add: group_by_def)
next
  case (snoc x xs)
  have "filter (\<lambda>y. key y = key x) xs = []" if "key x \<notin> key ` set xs"
    using that by (auto simp: filter_empty_conv image_iff)
  with snoc show ?case by (auto simp: group_by_snoc setdefault_append_map_of)
qed

lemma group_by_keys: "fst ` set (group_by key xs) = key ` set xs \<and> distinct (map fst (group_by key xs))"
proof (induction xs rule: rev_induct)
  case Nil
  then show ?case by (simp add: group_by_def)
next
  case (snoc x xs)
  have "fst ` set (setdefault_append (key x) x (group_by key xs)) =
      set (map fst (setdefault_append (key x) x (group_by key xs)))" by simp
  with snoc show ?case by (auto simp: group_by_snoc setdefault_append_keys)
qed

lemma group_by_total: "(\<Sum>e\<leftarrow>group_by key xs. length (snd e)) = length xs"
  by (induction xs rule: rev_induct)
    (simp_all add: group_by_snoc setdefault_append_total, simp add: group_by_def)

lemma group_by_in: "(k, vs) \<in> set (group_by key xs) \<longleftrightarrow>
    k \<in> key ` set xs \<and> vs = filter (\<lambda>x. key x = k) xs"
  using group_by_map_of [of key xs k] group_by_keys [of key xs] map_of_eq_Some_iff [of "group_by key xs" k vs]
  by (auto split: if_splits)

lemma fork_points_in:
  "(p, n) \<in> set (fork_points t) \<longleftrightarrow> (\<exists>c. (Some p, c) \<in> set t \<and> n = length c \<and> 1 < n)"
  by (auto simp: fork_points_def image_iff) force

section \<open>Properties\<close>

definition sample_summary :: "string \<Rightarrow> string option \<Rightarrow> summary" where
  "sample_summary c p = \<lparr>su_checkpoint_id = Some c, su_parent_checkpoint_id = p, su_next = [],
     su_message_count = 1, su_status = None, su_created_at = None, su_source = None, su_step = None\<rparr>"

text \<open>The branch tree partitions the timeline: each parent that occurs has one entry, its
  value is that parent's children in timeline order, no other key occurs, and no checkpoint is
  lost or counted twice.\<close>
theorem branch_tree_partitions:
  "distinct (map fst (branch_tree es)) \<and>
   (\<forall>p. map_of (branch_tree es) p =
      (if p \<in> su_parent_checkpoint_id ` set es
       then Some (filter (\<lambda>e. su_parent_checkpoint_id e = p) es) else None)) \<and>
   (\<Sum>e\<leftarrow>branch_tree es. length (snd e)) = length es"
  by (simp add: branch_tree_group_by group_by_map_of group_by_keys group_by_total)

text \<open>The fork points of a timeline are exactly the checkpoints that occur as parent of more
  than one entry, each with its number of children; the thread's root is none. On a timeline cut
  off at a limit every fork point found is one of the whole timeline, with at most its children.\<close>
theorem fork_points_exact:
  "((p, n) \<in> set (fork_points (branch_tree es)) \<longleftrightarrow>
     n = length (filter (\<lambda>e. su_parent_checkpoint_id e = Some p) es) \<and> 1 < n) \<and>
   ((p, n) \<in> set (fork_points (branch_tree (take k es))) \<longrightarrow>
     (\<exists>m \<ge> n. (p, m) \<in> set (fork_points (branch_tree es))))"
proof -
  have iff: "(p, n) \<in> set (fork_points (branch_tree l)) \<longleftrightarrow>
     n = length (filter (\<lambda>e. su_parent_checkpoint_id e = Some p) l) \<and> 1 < n" for l n
  proof -
    have "filter (\<lambda>e. su_parent_checkpoint_id e = Some p) l \<noteq> [] \<longleftrightarrow>
        Some p \<in> su_parent_checkpoint_id ` set l"
      by (auto simp: filter_empty_conv image_iff eq_commute [of "Some p"])
    then show ?thesis
      unfolding fork_points_in branch_tree_group_by group_by_in
      by (metis length_greater_0_conv less_trans zero_less_one)
  qed
  have le: "length (filter P (take k es)) \<le> length (filter P es)" for P
    by (metis append_take_drop_id filter_append le_add1 length_append)
  show ?thesis
    unfolding iff using le [of "\<lambda>e. su_parent_checkpoint_id e = Some p"] by auto
qed

theorem fork_points_exact_witness:
  "(''c1'', 2) \<in> set (fork_points (branch_tree
     [sample_summary ''c3'' (Some ''c1''), sample_summary ''c2'' (Some ''c1''),
      sample_summary ''c1'' (Some ''c0''), sample_summary ''c0'' None]))"
  using fork_points_exact [of "''c1''" 2 "[sample_summary ''c3'' (Some ''c1''),
      sample_summary ''c2'' (Some ''c1''), sample_summary ''c1'' (Some ''c0''),
      sample_summary ''c0'' None]" 4]
  by (simp add: sample_summary_def)

end
