(* ===== verification/GC.thy ===== *)
theory GC
  imports Config
begin

text \<open>
  Checkpoint retention, \<open>app/graph/gc.py\<close>: the stale-thread query, the sweep, and the
  background loop the application's lifespan starts (\<open>app/main.py\<close>). The checkpoint table
  and the deletion of a thread are the saver's; the deletion is a parameter.
\<close>

section \<open>The checkpoint table and the query\<close>

record checkpoint_row =
  ck_thread :: string
  ck_id :: string
  ck_ts :: rat

type_synonym 'a checkpoint_rows = "'a checkpoint_row_scheme list"

definition day :: rat where
  "day = 86400"

text \<open>
  \<open>GROUP BY thread_id HAVING MAX(ts) < now() - make_interval(days => n)\<close>: a thread is in the
  answer when every one of its rows is older than the cutoff. Groups come in some order; the
  model takes that of first occurrence.
\<close>

definition stale_thread :: "rat \<Rightarrow> int \<Rightarrow> 'a checkpoint_rows \<Rightarrow> string \<Rightarrow> bool" where
  "stale_thread now retention_days rows t \<longleftrightarrow>
     Max (ck_ts ` set (filter (\<lambda>r. ck_thread r = t) rows)) < now - of_int retention_days * day"

definition find_stale_threads :: "rat \<Rightarrow> int \<Rightarrow> 'a checkpoint_rows \<Rightarrow> string list" where
  "find_stale_threads now retention_days rows =
     filter (stale_thread now retention_days rows) (remdups (map ck_thread rows))"

section \<open>The sweep\<close>

text \<open>\<open>adelete_thread\<close>: the saver's deletion of one thread, which may raise.\<close>

type_synonym 'a delete_thread =
  "string \<Rightarrow> 'a checkpoint_rows \<Rightarrow> exn option \<times> 'a checkpoint_rows"

fun delete_all :: "'a delete_thread \<Rightarrow> string list \<Rightarrow> 'a checkpoint_rows \<Rightarrow> exn option \<times> 'a checkpoint_rows" where
  "delete_all del [] rows = (None, rows)"
| "delete_all del (t # ts) rows =
     (case del t rows of (Some e, rows') \<Rightarrow> (Some e, rows') | (None, rows') \<Rightarrow> delete_all del ts rows')"

record sweep_summary =
  deleted :: nat
  swept_days :: int

definition sweep ::
    "'a delete_thread \<Rightarrow> rat \<Rightarrow> int \<Rightarrow> 'a checkpoint_rows \<Rightarrow> (exn + sweep_summary) \<times> 'a checkpoint_rows" where
  "sweep del now retention_days rows =
     (let stale = find_stale_threads now retention_days rows in
      case delete_all del stale rows of
        (Some e, rows') \<Rightarrow> (Inl e, rows')
      | (None, rows') \<Rightarrow> (Inr \<lparr>deleted = length stale, swept_days = retention_days\<rparr>, rows'))"

section \<open>The background loop\<close>

text \<open>
  \<open>_gc_loop\<close>: nothing when the interval is not positive; otherwise one sweep per interval,
  starting a minute after start-up, whose failures are swallowed. \<open>rounds\<close> is the number of
  sweeps until the task is cancelled; \<open>between k rows\<close> is what the rest of the application
  does to the table before the \<open>k\<close>-th sweep. The loop's answer lists the sweeps' outcomes.
\<close>

fun gc_rounds ::
    "'a delete_thread \<Rightarrow> int \<Rightarrow> rat \<Rightarrow> (nat \<Rightarrow> 'a checkpoint_rows \<Rightarrow> 'a checkpoint_rows) \<Rightarrow> nat \<Rightarrow> nat \<Rightarrow> rat \<Rightarrow>
     'a checkpoint_rows \<Rightarrow> (exn + sweep_summary) list \<times> 'a checkpoint_rows" where
  "gc_rounds del days interval between k 0 now rows = ([], rows)"
| "gc_rounds del days interval between k (Suc n) now rows =
     (case sweep del now days (between k rows) of
        (r, rows') \<Rightarrow> (case gc_rounds del days interval between (Suc k) n (now + interval) rows' of
          (rs, rows'') \<Rightarrow> (r # rs, rows'')))"

definition gc_loop ::
    "settings \<Rightarrow> 'a delete_thread \<Rightarrow> (nat \<Rightarrow> 'a checkpoint_rows \<Rightarrow> 'a checkpoint_rows) \<Rightarrow> nat \<Rightarrow> rat \<Rightarrow>
     'a checkpoint_rows \<Rightarrow> (exn + sweep_summary) list \<times> 'a checkpoint_rows" where
  "gc_loop st del between rounds start rows =
     (let interval = of_int (checkpoint_gc_interval_hours st) * 3600 in
      if interval \<le> 0 then ([], rows)
      else gc_rounds del (checkpoint_retention_days st) interval between 0 rounds (start + 60) rows)"

section \<open>What the sweep does\<close>

text \<open>Documented behaviour of \<open>adelete_thread\<close>: on success exactly the thread's rows are gone.\<close>

definition delete_law :: "'a delete_thread \<Rightarrow> bool" where
  "delete_law del \<longleftrightarrow> (\<forall>t rows rows'. del t rows = (None, rows') \<longrightarrow>
     rows' = filter (\<lambda>r. ck_thread r \<noteq> t) rows)"

definition never_fails :: "'a delete_thread \<Rightarrow> bool" where
  "never_fails del \<longleftrightarrow> (\<forall>t rows. fst (del t rows) = None)"

lemma delete_all_rows:
  assumes "delete_law del" and "never_fails del"
  shows "delete_all del ts rows = (None, filter (\<lambda>r. ck_thread r \<notin> set ts) rows)"
proof (induction ts arbitrary: rows)
  case Nil
  then show ?case by simp
next
  case (Cons t ts)
  obtain rows' where d: "del t rows = (None, rows')"
    using assms(2) unfolding never_fails_def by (cases "del t rows") (metis fst_conv)
  with assms(1) have "rows' = filter (\<lambda>r. ck_thread r \<noteq> t) rows" by (auto simp: delete_law_def)
  with d Cons show ?case by (auto intro: filter_cong)
qed

text \<open>\<open>MAX(ts)\<close> is older than the cutoff just when every row of the thread is.\<close>

lemma stale_thread_iff:
  assumes "t \<in> ck_thread ` set rows"
  shows "stale_thread now days rows t \<longleftrightarrow>
    (\<forall>r \<in> set rows. ck_thread r = t \<longrightarrow> ck_ts r < now - of_int days * day)"
proof -
  let ?S = "ck_ts ` set (filter (\<lambda>r. ck_thread r = t) rows)"
  have "finite ?S" "?S \<noteq> {}" using assms by auto
  then show ?thesis unfolding stale_thread_def by (auto simp: Max_less_iff)
qed

lemma find_stale_iff:
  "t \<in> set (find_stale_threads now days rows) \<longleftrightarrow> t \<in> ck_thread ` set rows \<and>
    (\<forall>r \<in> set rows. ck_thread r = t \<longrightarrow> ck_ts r < now - of_int days * day)"
  using stale_thread_iff [of t rows now days] by (auto simp: find_stale_threads_def)

lemma sweep_eq:
  assumes "delete_law del" and "never_fails del"
  shows "sweep del now days rows =
    (Inr \<lparr>deleted = length (find_stale_threads now days rows), swept_days = days\<rparr>,
     filter (\<lambda>r. ck_thread r \<notin> set (find_stale_threads now days rows)) rows)"
  by (simp add: sweep_def Let_def delete_all_rows [OF assms])

lemma find_stale_after:
  assumes "now \<le> now'" and "now' = now"
  shows "find_stale_threads now' days
    (filter (\<lambda>r. ck_thread r \<notin> set (find_stale_threads now days rows)) rows) = []"
proof -
  let ?keep = "filter (\<lambda>r. ck_thread r \<notin> set (find_stale_threads now days rows)) rows"
  have "set (find_stale_threads now days ?keep) = {}"
  proof (rule equals0I)
    fix t
    assume "t \<in> set (find_stale_threads now days ?keep)"
    then have k: "t \<in> ck_thread ` set ?keep"
      and old: "\<forall>r \<in> set ?keep. ck_thread r = t \<longrightarrow> ck_ts r < now - of_int days * day"
      using find_stale_iff [of t now days ?keep] by blast+
    from k have n: "t \<notin> set (find_stale_threads now days rows)" and i: "t \<in> ck_thread ` set rows"
      by auto
    from old n have "\<forall>r \<in> set rows. ck_thread r = t \<longrightarrow> ck_ts r < now - of_int days * day" by auto
    with i n show False by (simp add: find_stale_iff)
  qed
  with assms(2) show ?thesis by simp
qed

section \<open>Properties\<close>

definition pg_delete :: "'a delete_thread" where
  "pg_delete t rows = (None, filter (\<lambda>r. ck_thread r \<noteq> t) rows)"

lemma pg_delete_ok: "delete_law (pg_delete :: 'a delete_thread)" "never_fails (pg_delete :: 'a delete_thread)"
  by (simp_all add: delete_law_def never_fails_def pg_delete_def)

definition sample_rows :: "unit checkpoint_rows" where
  "sample_rows = [\<lparr>ck_thread = ''old'', ck_id = ''a'', ck_ts = 0\<rparr>,
     \<lparr>ck_thread = ''busy'', ck_id = ''b'', ck_ts = 0\<rparr>,
     \<lparr>ck_thread = ''busy'', ck_id = ''c'', ck_ts = 90 * 86400\<rparr>]"

text \<open>C25. A sweep deletes exactly the abandoned threads: a row survives if and only if its thread
  has some checkpoint within the retention period, a thread is kept or dropped as a whole, the
  summary counts the dropped threads, and a second sweep at the same time deletes nothing.\<close>
theorem sweep_exact:
  assumes "delete_law del" and "never_fails del"
  shows "\<exists>n rows'. sweep del now days rows = (Inr \<lparr>deleted = n, swept_days = days\<rparr>, rows') \<and>
    (\<forall>r. r \<in> set rows' \<longleftrightarrow> r \<in> set rows \<and>
       (\<exists>q \<in> set rows. ck_thread q = ck_thread r \<and> now - of_int days * day \<le> ck_ts q)) \<and>
    n = card (ck_thread ` set rows) - card (ck_thread ` set rows') \<and>
    sweep del now days rows' = (Inr \<lparr>deleted = 0, swept_days = days\<rparr>, rows')"
proof -
  let ?st = "find_stale_threads now days rows"
  let ?keep = "filter (\<lambda>r. ck_thread r \<notin> set ?st) rows"
  have mem: "\<forall>r. r \<in> set ?keep \<longleftrightarrow> r \<in> set rows \<and>
      (\<exists>q \<in> set rows. ck_thread q = ck_thread r \<and> now - of_int days * day \<le> ck_ts q)"
    by (auto simp: find_stale_iff not_less)
  have "ck_thread ` set rows = set ?st \<union> ck_thread ` set ?keep"
    and "set ?st \<inter> ck_thread ` set ?keep = {}"
    by (auto simp: find_stale_iff)
  moreover have "card (set ?st) = length ?st"
    by (rule distinct_card) (simp add: find_stale_threads_def)
  ultimately have n: "length ?st = card (ck_thread ` set rows) - card (ck_thread ` set ?keep)"
    by (simp add: card_Un_disjoint)
  have "sweep del now days ?keep = (Inr \<lparr>deleted = 0, swept_days = days\<rparr>, ?keep)"
    by (simp add: sweep_eq [OF assms] find_stale_after)
  with mem n sweep_eq [OF assms, of now days rows] show ?thesis by (intro exI conjI)
qed

theorem sweep_exact_witness:
  "\<exists>n rows'. sweep pg_delete (100 * 86400) 30 sample_rows = (Inr \<lparr>deleted = n, swept_days = 30\<rparr>, rows') \<and>
    (\<forall>r. r \<in> set rows' \<longleftrightarrow> r \<in> set sample_rows \<and>
       (\<exists>q \<in> set sample_rows. ck_thread q = ck_thread r \<and> 100 * 86400 - of_int 30 * day \<le> ck_ts q)) \<and>
    n = card (ck_thread ` set sample_rows) - card (ck_thread ` set rows') \<and>
    sweep pg_delete (100 * 86400) 30 rows' = (Inr \<lparr>deleted = 0, swept_days = 30\<rparr>, rows')"
  by (rule sweep_exact [OF pg_delete_ok])

text \<open>The sweep is not safe against a thread that wakes up: a checkpoint written between the
  selection of the stale threads and the deletion is deleted with its thread, however new it is.\<close>
theorem sweep_loses_woken_thread:
  assumes "delete_law del" and "never_fails del"
    and "ck_thread r \<in> set (find_stale_threads now days rows)"
  shows "\<exists>rows'. delete_all del (find_stale_threads now days rows) (rows @ [r]) = (None, rows') \<and>
    r \<notin> set rows' \<and> (now - of_int days * day \<le> ck_ts r \<longrightarrow>
      ck_thread r \<notin> set (find_stale_threads now days (rows @ [r])))"
proof -
  have "ck_thread r \<notin> set (find_stale_threads now days (rows @ [r]))"
    if "now - of_int days * day \<le> ck_ts r"
    using that by (auto simp: find_stale_iff not_less)
  with assms show ?thesis by (simp add: delete_all_rows)
qed

theorem sweep_loses_woken_thread_witness:
  "\<exists>rows'. delete_all pg_delete (find_stale_threads (100 * 86400) 30 sample_rows)
      (sample_rows @ [\<lparr>ck_thread = ''old'', ck_id = ''d'', ck_ts = 100 * 86400\<rparr>]) = (None, rows') \<and>
    \<lparr>ck_thread = ''old'', ck_id = ''d'', ck_ts = 100 * 86400\<rparr> \<notin> set rows'"
proof -
  have "ck_thread \<lparr>ck_thread = ''old'', ck_id = ''d'', ck_ts = 100 * 86400\<rparr> \<in>
      set (find_stale_threads (100 * 86400) 30 sample_rows)"
    by (simp add: find_stale_iff sample_rows_def day_def)
  from sweep_loses_woken_thread [OF pg_delete_ok this] show ?thesis by blast
qed

lemma gc_rounds_length: "length (fst (gc_rounds del days interval between k n now rows)) = n"
  by (induction n arbitrary: k now rows) (auto split: prod.splits, metis fst_conv)

lemma gc_rounds_fresh:
  assumes "delete_law del" and "never_fails del"
    and "r \<in> set (snd (gc_rounds del days interval (\<lambda>_ rows. rows) k (Suc n) now rows))"
  shows "r \<in> set rows \<and>
    (\<exists>q \<in> set rows. ck_thread q = ck_thread r \<and> now + of_nat n * interval - of_int days * day \<le> ck_ts q)"
  using assms(3)
proof (induction n arbitrary: k now rows)
  case 0
  then show ?case by (auto simp: sweep_eq [OF assms(1,2)] find_stale_iff not_less)
next
  case (Suc n)
  let ?keep = "filter (\<lambda>r. ck_thread r \<notin> set (find_stale_threads now days rows)) rows"
  have "gc_rounds del days interval (\<lambda>_ rows. rows) k (Suc (Suc n)) now rows =
      (case gc_rounds del days interval (\<lambda>_ rows. rows) (Suc k) (Suc n) (now + interval) ?keep of
        (rs, rows'') \<Rightarrow> (Inr \<lparr>deleted = length (find_stale_threads now days rows), swept_days = days\<rparr> # rs,
          rows''))"
    by (subst gc_rounds.simps(2)) (simp only: sweep_eq [OF assms(1,2)] prod.case)
  with Suc.prems have "r \<in> set (snd (gc_rounds del days interval (\<lambda>_ rows. rows) (Suc k) (Suc n)
      (now + interval) ?keep))"
    by (simp only: split_beta snd_conv)
  from Suc.IH [OF this] show ?case by (auto simp: algebra_simps)
qed

text \<open>The background loop does not run at all when its interval is not positive, performs every
  scheduled sweep whatever earlier sweeps raised, and - undisturbed, with deletions that work -
  keeps after its last sweep only threads with a checkpoint within the retention period of that
  sweep's time.\<close>
theorem gc_loop_retention:
  "(checkpoint_gc_interval_hours st \<le> 0 \<longrightarrow> gc_loop st del between n start rows = ([], rows)) \<and>
   (0 < checkpoint_gc_interval_hours st \<longrightarrow>
      length (fst (gc_loop st del between n start rows)) = n \<and>
      (delete_law del \<and> never_fails del \<longrightarrow>
        (\<forall>r \<in> set (snd (gc_loop st del (\<lambda>_ rows. rows) (Suc m) start rows)).
           r \<in> set rows \<and> (\<exists>q \<in> set rows. ck_thread q = ck_thread r \<and>
             start + 60 + of_nat m * (of_int (checkpoint_gc_interval_hours st) * 3600)
               - of_int (checkpoint_retention_days st) * day \<le> ck_ts q))))"
proof (cases "checkpoint_gc_interval_hours st \<le> 0")
  case True
  then show ?thesis by (simp add: gc_loop_def)
next
  case False
  then have "\<not> (of_int (checkpoint_gc_interval_hours st) * 3600 \<le> (0 :: rat))" by simp
  then have eq: "gc_loop st d b k start rows = gc_rounds d (checkpoint_retention_days st)
      (of_int (checkpoint_gc_interval_hours st) * 3600) b 0 k (start + 60) rows" for d b k
    by (simp add: gc_loop_def)
  have "r \<in> set rows \<and> (\<exists>q \<in> set rows. ck_thread q = ck_thread r \<and>
      start + 60 + of_nat m * (of_int (checkpoint_gc_interval_hours st) * 3600)
        - of_int (checkpoint_retention_days st) * day \<le> ck_ts q)"
    if "delete_law del \<and> never_fails del"
      and "r \<in> set (snd (gc_loop st del (\<lambda>_ rows. rows) (Suc m) start rows))" for r
    using that unfolding eq by (intro gc_rounds_fresh) blast+
  moreover have "length (fst (gc_loop st del between n start rows)) = n"
    unfolding eq by (rule gc_rounds_length)
  ultimately show ?thesis using False by blast
qed

theorem gc_loop_retention_witness:
  "list_all (\<lambda>r. r \<in> set sample_rows)
     (snd (gc_loop default_settings pg_delete (\<lambda>_ rows. rows) (Suc 2) (100 * 86400) sample_rows))"
  unfolding list_all_iff
  using gc_loop_retention [of default_settings pg_delete "\<lambda>_ rows. rows" 0 "100 * 86400" sample_rows 2]
    pg_delete_ok [where 'a = unit]
  by (simp only: default_settings_def settings.simps) simp

end
