(* ===== verification/Build_Once.thy ===== *)
theory Build_Once
  imports Tools
begin

text \<open>
  Values that are built on first use: the tool list (\<open>get_tools\<close> of \<open>app/graph/tools.py\<close>), the
  main graph (\<open>build_workflow\<close> of \<open>app/graph/engine.py\<close>) and the research graph
  (\<open>build_research_workflow\<close> of \<open>app/graph/research.py\<close>). First each build run alone, then
  concurrent callers: the first two hold a lock across the build, the third does not.
\<close>

section \<open>The builds, one caller at a time\<close>

text \<open>
  A graph builder is its list of node names and the tool list of its \<open>tools\<close> node.
  \<open>remote\<close> is what the MCP servers answer to the listing of their tools.
\<close>

record builder =
  nodes :: "string list"
  node_tools :: "string list"

definition get_tools ::
    "exn + string list \<Rightarrow> string list option \<Rightarrow> (exn + string list) \<times> string list option" where
  "get_tools remote cache =
     (case cache of
        Some ts \<Rightarrow> (Inr ts, cache)
      | None \<Rightarrow> (case load_tools remote of Inl e \<Rightarrow> (Inl e, None) | Inr ts \<Rightarrow> (Inr ts, Some ts)))"

definition ensure_tools_node :: "exn + string list \<Rightarrow> builder \<Rightarrow> exn option \<times> builder" where
  "ensure_tools_node remote b =
     (if ''tools'' \<in> set (nodes b) then (None, b)
      else (case load_tools remote of
              Inl e \<Rightarrow> (Some e, b)
            | Inr ts \<Rightarrow> (None, b\<lparr>nodes := nodes b @ [''tools''], node_tools := ts\<rparr>)))"

text \<open>\<open>compile\<close> is the graph library's, from the builder and the checkpointer.\<close>

definition compile_graph ::
    "(builder \<Rightarrow> 's \<Rightarrow> 'g) \<Rightarrow> 's \<Rightarrow> exn + string list \<Rightarrow> builder \<Rightarrow> (exn + 'g) \<times> builder" where
  "compile_graph compile saver remote b =
     (case ensure_tools_node remote b of
        (Some e, b') \<Rightarrow> (Inl e, b')
      | (None, b') \<Rightarrow> (Inr (compile b' saver), b'))"

definition build_workflow ::
    "(builder \<Rightarrow> 's \<Rightarrow> 'g) \<Rightarrow> 's \<Rightarrow> exn + string list \<Rightarrow> 'g option \<times> builder \<Rightarrow>
     (exn + 'g) \<times> 'g option \<times> builder" where
  "build_workflow compile saver remote wb =
     (case wb of (Some g, b) \<Rightarrow> (Inr g, Some g, b)
      | (None, b) \<Rightarrow> (case compile_graph compile saver remote b of
          (Inl e, b') \<Rightarrow> (Inl e, None, b')
        | (Inr g, b') \<Rightarrow> (Inr g, Some g, b')))"

text \<open>\<open>add_node\<close> refuses a name that is present.\<close>

definition add_node :: "string \<Rightarrow> string list \<Rightarrow> builder \<Rightarrow> exn option \<times> builder" where
  "add_node n ts b = (if n \<in> set (nodes b) then (Some (ValueError (''Node `'' @ n @ ''` already present.'')), b)
     else (None, b\<lparr>nodes := nodes b @ [n], node_tools := ts\<rparr>))"

definition build_research_workflow ::
    "(builder \<Rightarrow> 's \<Rightarrow> 'g) \<Rightarrow> 's \<Rightarrow> exn + string list \<Rightarrow> 'g option \<times> builder \<Rightarrow>
     (exn + 'g) \<times> 'g option \<times> builder" where
  "build_research_workflow compile saver remote wb =
     (case wb of (Some g, b) \<Rightarrow> (Inr g, Some g, b)
      | (None, b) \<Rightarrow> (case load_tools remote of
          Inl e \<Rightarrow> (Inl e, None, b)
        | Inr ts \<Rightarrow> (case add_node ''tools'' ts b of
            (Some e, b') \<Rightarrow> (Inl e, None, b')
          | (None, b') \<Rightarrow> (let g = compile b' saver in (Inr g, Some g, b')))))"

section \<open>Concurrent callers under the lock\<close>

text \<open>
  Every caller enters once. With the lock free it takes it, finds the value and leaves, or
  starts the build and holds the lock until the build ends, with a value or an exception.
\<close>

datatype 'v build_pc = Entering | Building | Got 'v | Build_failed | Listing_failed

record 'v build_system =
  built :: "'v option"
  holder :: "nat option"
  bpc :: "nat \<Rightarrow> 'v build_pc"
  completed :: nat

inductive guarded_step :: "'v build_system \<Rightarrow> 'v build_system \<Rightarrow> bool" where
  hit: "bpc s i = Entering \<Longrightarrow> holder s = None \<Longrightarrow> built s = Some v \<Longrightarrow>
     guarded_step s (s\<lparr>bpc := (bpc s)(i := Got v)\<rparr>)"
| begin_build: "bpc s i = Entering \<Longrightarrow> holder s = None \<Longrightarrow> built s = None \<Longrightarrow>
     guarded_step s (s\<lparr>holder := Some i, bpc := (bpc s)(i := Building)\<rparr>)"
| finish_build: "bpc s i = Building \<Longrightarrow>
     guarded_step s (s\<lparr>built := Some v, holder := None, bpc := (bpc s)(i := Got v),
       completed := Suc (completed s)\<rparr>)"
| build_error: "bpc s i = Building \<Longrightarrow>
     guarded_step s (s\<lparr>holder := None, bpc := (bpc s)(i := Build_failed)\<rparr>)"

definition build_init :: "'v build_system \<Rightarrow> bool" where
  "build_init s \<longleftrightarrow> built s = None \<and> holder s = None \<and> (\<forall>i. bpc s i = Entering) \<and> completed s = 0"

definition guarded_inv :: "'v build_system \<Rightarrow> bool" where
  "guarded_inv s \<longleftrightarrow> (\<forall>i. bpc s i = Building \<longleftrightarrow> holder s = Some i) \<and>
     (holder s \<noteq> None \<longrightarrow> built s = None) \<and>
     (\<forall>i v. bpc s i = Got v \<longrightarrow> built s = Some v) \<and>
     completed s = (if built s = None then 0 else 1)"

inductive_cases guarded_stepE: "guarded_step s t"

lemma guarded_inv_step: "guarded_inv s \<Longrightarrow> guarded_step s t \<Longrightarrow> guarded_inv t"
proof (erule guarded_stepE)
  assume inv: "guarded_inv s"
  then have b: "\<And>i. bpc s i = Building \<longleftrightarrow> holder s = Some i"
    and h: "holder s \<noteq> None \<Longrightarrow> built s = None"
    and g: "\<And>i v. bpc s i = Got v \<Longrightarrow> built s = Some v"
    and c: "completed s = (if built s = None then 0 else 1)"
    by (auto simp: guarded_inv_def)
  {
    fix i v
    assume "t = s\<lparr>bpc := (bpc s)(i := Got v)\<rparr>" "bpc s i = Entering" "holder s = None" "built s = Some v"
    then show ?thesis using b g c by (auto simp: guarded_inv_def)
  next
    fix i
    assume "t = s\<lparr>holder := Some i, bpc := (bpc s)(i := Building)\<rparr>" "bpc s i = Entering"
      "holder s = None" "built s = None"
    then show ?thesis using b g c by (auto simp: guarded_inv_def)
  next
    fix i v
    assume t: "t = s\<lparr>built := Some v, holder := None, bpc := (bpc s)(i := Got v),
        completed := Suc (completed s)\<rparr>" and i: "bpc s i = Building"
    then have hi: "holder s = Some i" and "built s = None" using b h by auto
    with t i c have none: "\<And>j w. bpc s j \<noteq> Got w" using g by fastforce
    from hi b have only: "\<And>j. bpc s j = Building \<Longrightarrow> j = i" by auto
    show ?thesis using t \<open>built s = None\<close> c none only by (auto simp: guarded_inv_def)
  next
    fix i
    assume t: "t = s\<lparr>holder := None, bpc := (bpc s)(i := Build_failed)\<rparr>" and i: "bpc s i = Building"
    then have hi: "holder s = Some i" using b by auto
    from hi b have only: "\<And>j. bpc s j = Building \<Longrightarrow> j = i" by auto
    show ?thesis using t c g only by (auto simp: guarded_inv_def)
  }
qed

interpretation guarded: invariant_system build_init guarded_step guarded_inv
proof (unfold_locales, goal_cases)
  case (1 s)
  then show ?case by (simp add: build_init_def guarded_inv_def)
qed (rule guarded_inv_step)

section \<open>Concurrent callers of the research build\<close>

text \<open>
  Without a lock a caller that finds no graph awaits the tool list; when it resumes it adds
  the \<open>tools\<close> node, which raises when another caller has added it, and compiles; or the
  listing of the tools raises.
\<close>

record 'v research_system =
  research_app :: "'v option"
  tools_added :: bool
  rpc :: "nat \<Rightarrow> 'v build_pc"

inductive research_step :: "'v research_system \<Rightarrow> 'v research_system \<Rightarrow> bool" where
  cached: "rpc s i = Entering \<Longrightarrow> research_app s = Some v \<Longrightarrow>
     research_step s (s\<lparr>rpc := (rpc s)(i := Got v)\<rparr>)"
| await_tools: "rpc s i = Entering \<Longrightarrow> research_app s = None \<Longrightarrow>
     research_step s (s\<lparr>rpc := (rpc s)(i := Building)\<rparr>)"
| compiled: "rpc s i = Building \<Longrightarrow> \<not> tools_added s \<Longrightarrow>
     research_step s (s\<lparr>research_app := Some v, tools_added := True, rpc := (rpc s)(i := Got v)\<rparr>)"
| already_present: "rpc s i = Building \<Longrightarrow> tools_added s \<Longrightarrow>
     research_step s (s\<lparr>rpc := (rpc s)(i := Build_failed)\<rparr>)"
| listing_failed: "rpc s i = Building \<Longrightarrow>
     research_step s (s\<lparr>rpc := (rpc s)(i := Listing_failed)\<rparr>)"

definition research_init :: "'v research_system \<Rightarrow> bool" where
  "research_init s \<longleftrightarrow> research_app s = None \<and> \<not> tools_added s \<and> (\<forall>i. rpc s i = Entering)"

definition research_inv :: "'v research_system \<Rightarrow> bool" where
  "research_inv s \<longleftrightarrow> (tools_added s \<longleftrightarrow> research_app s \<noteq> None) \<and>
     (\<forall>i v. rpc s i = Got v \<longrightarrow> research_app s = Some v) \<and>
     ((\<exists>i. rpc s i = Build_failed) \<longrightarrow> research_app s \<noteq> None)"

inductive_cases research_stepE: "research_step s t"

lemma research_inv_step: "research_inv s \<Longrightarrow> research_step s t \<Longrightarrow> research_inv t"
  by (erule research_stepE) (auto simp: research_inv_def split: if_splits)

interpretation unguarded: invariant_system research_init research_step research_inv
proof (unfold_locales, goal_cases)
  case (1 s)
  then show ?case by (simp add: research_init_def research_inv_def)
qed (rule research_inv_step)

section \<open>Properties\<close>

definition build_start :: "nat build_system" where
  "build_start = \<lparr>built = None, holder = None, bpc = (\<lambda>_. Entering), completed = 0\<rparr>"

definition build_busy :: "nat build_system" where
  "build_busy = build_start\<lparr>holder := Some 4, bpc := (bpc build_start)(4 := Building)\<rparr>"

lemma build_start_ok: "build_init build_start" "guarded_step\<^sup>*\<^sup>* build_start build_busy"
proof -
  show "build_init build_start" by (simp add: build_init_def build_start_def)
  have "guarded_step build_start build_busy" unfolding build_busy_def
    by (rule guarded_step.begin_build) (simp_all add: build_start_def)
  then show "guarded_step\<^sup>*\<^sup>* build_start build_busy" by (rule r_into_rtranclp)
qed

text \<open>C34. Under the lock, however many callers arrive and however often the build fails, at most
  one build runs at a time, at most one ever completes, and every caller that gets a value gets
  the cached one.\<close>
theorem guarded_build_once:
  assumes "build_init s" and "guarded_step\<^sup>*\<^sup>* s t"
  shows "completed t \<le> 1 \<and> (bpc t i = Building \<and> bpc t j = Building \<longrightarrow> i = j) \<and>
    (bpc t i = Got v \<longrightarrow> built t = Some v \<and> completed t = 1)"
proof -
  have "guarded_inv t" using assms by (rule guarded.inv_reachable)
  then show ?thesis by (auto simp: guarded_inv_def)
qed

theorem guarded_build_once_witness: "completed build_busy \<le> 1"
  using guarded_build_once [OF build_start_ok] by blast

text \<open>The research build has no lock, and callers can collide: from its initial state two
  first callers can reach a state in which one has the graph and the other has raised although
  no tool listing failed. The collision is harmless afterwards: whenever a caller has raised
  the graph is cached, and all values handed out are the cached graph.\<close>
theorem research_build_race:
  assumes "research_init (s :: 'v research_system)"
  shows "(\<exists>t. research_step\<^sup>*\<^sup>* s t \<and> rpc t 0 = Got v \<and> rpc t 1 = Build_failed) \<and>
    (\<forall>t. research_step\<^sup>*\<^sup>* s t \<longrightarrow> (\<forall>i w. rpc t i = Got w \<longrightarrow> research_app t = Some w) \<and>
       ((\<exists>i. rpc t i = Build_failed) \<longrightarrow> research_app t \<noteq> None))"
proof -
  have init: "research_app s = None" "\<not> tools_added s" "rpc s i = Entering" for i
    using assms by (auto simp: research_init_def)
  define a where "a = s\<lparr>rpc := (rpc s)(0 := Building)\<rparr>"
  define b where "b = a\<lparr>rpc := (rpc a)(1 := Building)\<rparr>"
  define c where "c = b\<lparr>research_app := Some v, tools_added := True, rpc := (rpc b)(0 := Got v)\<rparr>"
  define d where "d = c\<lparr>rpc := (rpc c)(1 := Build_failed)\<rparr>"
  have 1: "research_step s a" unfolding a_def by (rule research_step.await_tools) (simp_all add: init)
  have 2: "research_step a b" unfolding b_def
    by (rule research_step.await_tools) (simp_all add: init a_def)
  have 3: "research_step b c" unfolding c_def
    by (rule research_step.compiled) (simp_all add: init a_def b_def)
  have 4: "research_step c d" unfolding d_def
    by (rule research_step.already_present) (simp_all add: init a_def b_def c_def)
  have "research_step\<^sup>*\<^sup>* s d" 
    by (rule converse_rtranclp_into_rtranclp, rule 1, rule converse_rtranclp_into_rtranclp, rule 2,
        rule converse_rtranclp_into_rtranclp, rule 3, rule r_into_rtranclp, rule 4)
  moreover have "rpc d 0 = Got v" "rpc d 1 = Build_failed" by (simp_all add: d_def c_def)
  moreover have "research_inv t" if "research_step\<^sup>*\<^sup>* s t" for t
    using assms that by (rule unguarded.inv_reachable)
  ultimately show ?thesis unfolding research_inv_def by blast
qed

theorem research_build_race_witness:
  "\<exists>t. research_step\<^sup>*\<^sup>* \<lparr>research_app = None, tools_added = False, rpc = (\<lambda>_. Entering)\<rparr> t \<and>
     rpc t 0 = Got (7 :: nat) \<and> rpc t 1 = Build_failed"
  using research_build_race [of "\<lparr>research_app = None, tools_added = False, rpc = (\<lambda>_. Entering)\<rparr>" "7 :: nat"]
  by (simp add: research_init_def)

text \<open>The build of the main graph, one caller at a time: a failed listing of the tools leaves
  nothing behind and a later call may succeed; a build that succeeds adds the \<open>tools\<close> node at
  most once, and from then on every call returns the same graph, whatever the servers answer.\<close>
theorem build_workflow_idempotent:
  "case build_workflow compile saver remote (None, b) of
     (Inl e, w, b') \<Rightarrow> remote = Inl e \<and> w = None \<and> b' = b
   | (Inr g, w, b') \<Rightarrow> w = Some g \<and> g = compile b' saver \<and> ''tools'' \<in> set (nodes b') \<and>
       (distinct (nodes b) \<longrightarrow> distinct (nodes b')) \<and>
       build_workflow compile saver remote' (w, b') = (Inr g, w, b') \<and>
       compile_graph compile saver remote' b' = (Inr g, b')"
  by (cases remote) (auto simp: build_workflow_def compile_graph_def ensure_tools_node_def load_tools_def)

theorem build_workflow_idempotent_witness:
  "case build_workflow (\<lambda>b s. (nodes b, s :: nat)) 0 (Inr [''risk'']) (None, \<lparr>nodes = [''router''], node_tools = []\<rparr>) of
     (Inl e, w, b') \<Rightarrow> False
   | (Inr g, w, b') \<Rightarrow> w = Some g \<and> distinct (nodes b') \<and> nodes b' = [''router'', ''tools'']"
  using build_workflow_idempotent [where compile = "\<lambda>b s. (nodes b, s :: nat)" and saver = 0 and
      remote = "Inr [''risk'']" and b = "\<lparr>nodes = [''router''], node_tools = []\<rparr>" and
      remote' = "Inl TimeoutError"]
  by (auto simp: build_workflow_def compile_graph_def ensure_tools_node_def load_tools_def)

end
