(* ===== verification/Research.thy ===== *)
theory Research
  imports Engine
begin

text \<open>
  The research graph, \<open>app/graph/research.py\<close>: an open-ended loop of the tool-bound model and
  the tools, left for the report node when the model's reply asks for no tool. The tool node
  and the message reducer are those of the main graph's environment.
\<close>

section \<open>State and nodes\<close>

record research_state =
  r_messages :: "message list"
  r_report :: "research_report option option"

datatype research_node = R_agent | R_tools | R_report

record research_env =
  r_tool_llm :: "llm option"
  r_structured :: "nat \<Rightarrow> string \<Rightarrow> exn + research_report option"
  r_tool_node :: "nat \<Rightarrow> (exn \<Rightarrow> string) \<Rightarrow> message list \<Rightarrow> exn + message list"
  r_add_messages :: "message list \<Rightarrow> message list \<Rightarrow> message list"
  r_str_exn :: "exn \<Rightarrow> string"

text \<open>What a node returns: messages to merge and, from the report node, the report.\<close>

record research_delta =
  rd_messages :: "message list"
  rd_report :: "research_report option option"

text \<open>The number of model calls made so far is threaded through, as in the main graph.\<close>

definition researcher :: "research_env \<Rightarrow> nat \<Rightarrow> research_state \<Rightarrow> exn + research_delta" where
  "researcher env n s = (case r_tool_llm env of
       None \<Rightarrow> Inl (AttributeError ''ainvoke'')
     | Some model \<Rightarrow> bindr (model n (r_messages s)) (\<lambda>response.
         Inr \<lparr>rd_messages = [response], rd_report = None\<rparr>))"

definition should_continue :: "research_state \<Rightarrow> exn + research_node" where
  "should_continue s = bindr (last_of (r_messages s)) (\<lambda>m.
     Inr (if tool_calls m \<noteq> [] then R_tools else R_report))"

definition transcript :: "message list \<Rightarrow> string" where
  "transcript ms = join nl (map content ms)"

definition research_prompt :: "message list \<Rightarrow> string" where
  "research_prompt ms = ''Synthesize a ResearchReport from this research transcript. '' @
     ''confidence must be a fraction between 0.0 and 1.0 (not a percentage, '' @
     ''not out of 100):'' @ nl @ transcript ms"

definition generate_research_report ::
    "research_env \<Rightarrow> nat \<Rightarrow> research_state \<Rightarrow> exn + research_delta" where
  "generate_research_report env n s =
     bindr (r_structured env n (research_prompt (r_messages s))) (\<lambda>report.
     Inr \<lparr>rd_messages = [], rd_report = Some report\<rparr>)"

definition research_tools :: "research_env \<Rightarrow> nat \<Rightarrow> research_state \<Rightarrow> exn + research_delta" where
  "research_tools env n s =
     bindr (r_tool_node env n (format_tool_error (r_str_exn env)) (r_messages s)) (\<lambda>ms.
     Inr \<lparr>rd_messages = ms, rd_report = None\<rparr>)"

section \<open>Edges and supersteps\<close>

record research_config =
  r_pending :: "research_node option"
  r_state :: research_state
  r_calls :: nat
  r_path :: "research_node list"

fun run_research_node :: "research_env \<Rightarrow> research_node \<Rightarrow> nat \<Rightarrow> research_state \<Rightarrow> exn + research_delta" where
  "run_research_node env R_agent n s = researcher env n s"
| "run_research_node env R_tools n s = research_tools env n s"
| "run_research_node env R_report n s = generate_research_report env n s"

fun research_edge :: "research_node \<Rightarrow> research_state \<Rightarrow> exn + research_node option" where
  "research_edge R_agent s = bindr (should_continue s) (\<lambda>n. Inr (Some n))"
| "research_edge R_tools s = Inr (Some R_agent)"
| "research_edge R_report s = Inr None"

definition merge_delta :: "research_env \<Rightarrow> research_state \<Rightarrow> research_delta \<Rightarrow> research_state" where
  "merge_delta env s d = \<lparr>r_messages = (if rd_messages d = [] then r_messages s
       else r_add_messages env (r_messages s) (rd_messages d)),
     r_report = (case rd_report d of None \<Rightarrow> r_report s | Some r \<Rightarrow> Some r)\<rparr>"

definition research_ended :: "research_config \<Rightarrow> bool" where
  "research_ended c \<longleftrightarrow> r_pending c = None"

definition research_superstep :: "research_env \<Rightarrow> research_config \<Rightarrow> exn option \<times> research_config" where
  "research_superstep env c = (case r_pending c of
       None \<Rightarrow> (None, c)
     | Some n \<Rightarrow> (let c1 = c\<lparr>r_calls := Suc (r_calls c)\<rparr> in
         case run_research_node env n (r_calls c) (r_state c) of
           Inl e \<Rightarrow> (Some e, c1)
         | Inr d \<Rightarrow> (let s = merge_delta env (r_state c) d in
             case research_edge n s of
               Inl e \<Rightarrow> (Some e, c1)
             | Inr n' \<Rightarrow> (None, \<lparr>r_pending = n', r_state = s, r_calls = Suc (r_calls c),
                 r_path = r_path c @ [n]\<rparr>))))"

text \<open>A run on a thread whose stored messages are \<open>old\<close>: the input's messages are merged and the
  input's report, \<open>None\<close>, overwrites a stored one.\<close>

definition research_start :: "research_env \<Rightarrow> message list \<Rightarrow> message list \<Rightarrow> research_config" where
  "research_start env old input = \<lparr>r_pending = Some R_agent,
     r_state = \<lparr>r_messages = r_add_messages env old input, r_report = Some None\<rparr>,
     r_calls = 0, r_path = []\<rparr>"

definition invoke_research ::
    "research_env \<Rightarrow> nat \<Rightarrow> message list \<Rightarrow> message list \<Rightarrow> exn option \<times> research_config" where
  "invoke_research env limit old input =
     run_graph (research_superstep env) research_ended limit (research_start env old input)"

section \<open>The route\<close>

definition RESEARCH_RECURSION_LIMIT :: nat where
  "RESEARCH_RECURSION_LIMIT = 50"

text \<open>\<open>run_research\<close>: \<open>built\<close> is the outcome of building the graph and listing the tools. The
  answer is the stored report, validated again by the response model.\<close>

definition run_research ::
    "exn option \<Rightarrow> research_env \<Rightarrow> research_request \<Rightarrow> message list \<Rightarrow>
     (exn + research_report option) \<times> message list" where
  "run_research built env request old =
     (case built of Some e \<Rightarrow> (Inl e, old)
      | None \<Rightarrow>
         (case invoke_research env RESEARCH_RECURSION_LIMIT old
             [HumanMessage (''Research the following: '' @ rr_topic request)] of
            (Some GraphRecursionError, c) \<Rightarrow>
              (Inl (Agentic (MaxRecursionError (Details_dict [(''topic'', rr_topic request)]))),
               r_messages (r_state c))
          | (Some e, c) \<Rightarrow> (Inl e, r_messages (r_state c))
          | (None, c) \<Rightarrow> (case r_report (r_state c) of
                None \<Rightarrow> Inl (KeyError ''report'') | Some r \<Rightarrow> Inr r, r_messages (r_state c))))"

section \<open>Lemmas\<close>

text \<open>The path of a completed run: \<open>k\<close> rounds of tools, then the report.\<close>

fun research_route :: "nat \<Rightarrow> research_node list" where
  "research_route 0 = [R_agent, R_report]"
| "research_route (Suc k) = R_agent # R_tools # research_route k"

fun rounds :: "nat \<Rightarrow> research_node list" where
  "rounds 0 = []"
| "rounds (Suc k) = R_agent # R_tools # rounds k"

lemma rounds_snoc: "rounds k @ [R_agent, R_tools] = rounds (Suc k)"
  by (induction k) auto

lemma rounds_route: "rounds k @ [R_agent, R_report] = research_route k"
  by (induction k) auto

fun research_at :: "research_node option \<Rightarrow> research_node list \<Rightarrow> research_state \<Rightarrow> bool" where
  "research_at (Some R_agent) p s = (\<exists>k. p = rounds k)"
| "research_at (Some R_tools) p s = (\<exists>k. p = rounds k @ [R_agent])"
| "research_at (Some R_report) p s = (\<exists>k. p = rounds k @ [R_agent])"
| "research_at None p s = ((\<exists>k. p = research_route k) \<and> (\<exists>r. r_report s = Some r) \<and>
     (\<exists>m. last_of (r_messages s) = Inr m \<and> tool_calls m = []))"

definition no_call_pending :: "research_config \<Rightarrow> bool" where
  "no_call_pending c \<longleftrightarrow> (r_pending c = Some R_report \<longrightarrow>
     (\<exists>m. last_of (r_messages (r_state c)) = Inr m \<and> tool_calls m = []))"

definition research_run_inv :: "research_config \<Rightarrow> bool" where
  "research_run_inv c \<longleftrightarrow> research_at (r_pending c) (r_path c) (r_state c) \<and> no_call_pending c"

lemma research_superstep_cases:
  assumes "r_pending c = Some n"
  obtains (fail) e where "research_superstep env c = (Some e, c\<lparr>r_calls := Suc (r_calls c)\<rparr>)"
    | (ok) d n' where "run_research_node env n (r_calls c) (r_state c) = Inr d"
      "research_edge n (merge_delta env (r_state c) d) = Inr n'"
      "research_superstep env c = (None, \<lparr>r_pending = n', r_state = merge_delta env (r_state c) d,
         r_calls = Suc (r_calls c), r_path = r_path c @ [n]\<rparr>)"
proof (cases "run_research_node env n (r_calls c) (r_state c)")
  case (Inl e)
  with assms show thesis by (intro fail) (simp add: research_superstep_def)
next
  case (Inr d)
  show thesis
  proof (cases "research_edge n (merge_delta env (r_state c) d)")
    case (Inl e)
    with assms Inr show thesis by (intro fail) (simp add: research_superstep_def Let_def)
  next
    case (Inr n')
    with assms \<open>run_research_node env n (r_calls c) (r_state c) = Inr d\<close> show thesis
      by (intro ok) (simp_all add: research_superstep_def Let_def)
  qed
qed

lemma research_run_inv_step:
  assumes inv: "research_run_inv c" and ne: "\<not> research_ended c"
  shows "research_run_inv (snd (research_superstep env c))"
proof -
  from ne obtain n where p: "r_pending c = Some n" by (auto simp: research_ended_def)
  from p show ?thesis
  proof (cases rule: research_superstep_cases [where env = env])
    case (fail e)
    with inv show ?thesis by (simp add: research_run_inv_def no_call_pending_def)
  next
    case (ok d n')
    show ?thesis
    proof (cases n)
      case R_agent
      with ok inv p show ?thesis
        by (auto simp: research_run_inv_def no_call_pending_def should_continue_def bindr_Inr_iff split: if_splits)
    next
      case R_tools
      with ok inv p obtain k where "r_path c = rounds k @ [R_agent]" by (auto simp: research_run_inv_def)
      then have "r_path c @ [R_tools] = rounds (Suc k)" using rounds_snoc [of k] by simp
      then have "\<exists>j. r_path c @ [R_tools] = rounds j" by (rule exI)
      with R_tools ok show ?thesis by (auto simp: research_run_inv_def no_call_pending_def)
    next
      case R_report
      with ok inv p obtain k m where k: "r_path c = rounds k @ [R_agent]"
        and m: "last_of (r_messages (r_state c)) = Inr m" "tool_calls m = []"
        by (auto simp: research_run_inv_def no_call_pending_def)
      then have "r_path c @ [R_report] = research_route k" using rounds_route [of k] by simp
      moreover from ok(1) R_report obtain r where "d = \<lparr>rd_messages = [], rd_report = Some r\<rparr>"
        by (auto simp: generate_research_report_def bindr_Inr_iff)
      ultimately show ?thesis using R_report ok m
        by (auto simp: research_run_inv_def no_call_pending_def merge_delta_def)
    qed
  qed
qed

interpretation research: graph_invariant "research_superstep env" research_ended research_run_inv for env
  by unfold_locales (rule research_run_inv_step)

lemma research_start_inv: "research_run_inv (research_start env old input)"
  by (auto simp: research_run_inv_def no_call_pending_def research_start_def intro: exI [of _ 0])

lemma completed_research:
  assumes "invoke_research env limit old input = (None, c)"
  shows "research_run_inv c \<and> r_pending c = None \<and> (\<exists>r. r_report (r_state c) = Some r)"
proof -
  have "research_run_inv (snd (invoke_research env limit old input))"
    unfolding invoke_research_def by (rule research.run_inv [OF research_start_inv])
  moreover have "research_ended c"
    using assms unfolding invoke_research_def by (rule run_graph_result)
  ultimately show ?thesis using assms by (auto simp: research_run_inv_def research_ended_def)
qed

section \<open>Termination\<close>

text \<open>
  The services answer, and the model asks for tools in at most \<open>k\<close> replies of the run: the
  \<open>n\<close>-th call of the run asks for none once \<open>2 * k \<le> n\<close> (calls alternate with tool rounds).
\<close>

definition research_ok :: "research_env \<Rightarrow> bool" where
  "research_ok env \<longleftrightarrow> (\<forall>xs ys. r_add_messages env xs ys = xs @ ys) \<and>
     (\<exists>model. r_tool_llm env = Some model \<and> (\<forall>n ms. \<exists>m. model n ms = Inr m)) \<and>
     (\<forall>n f ms. \<exists>rs. r_tool_node env n f ms = Inr rs) \<and>
     (\<forall>n p. \<exists>r. r_structured env n p = Inr r)"

definition settles :: "research_env \<Rightarrow> nat \<Rightarrow> bool" where
  "settles env k \<longleftrightarrow> (\<forall>model n ms m. r_tool_llm env = Some model \<longrightarrow> 2 * k \<le> n \<longrightarrow>
     model n ms = Inr m \<longrightarrow> tool_calls m = [])"

definition research_good :: "research_env \<Rightarrow> nat \<Rightarrow> research_config \<Rightarrow> bool" where
  "research_good env k c \<longleftrightarrow> research_ok env \<and> settles env k \<and>
     (case r_pending c of
        Some R_agent \<Rightarrow> even (r_calls c) \<and> r_calls c \<le> 2 * k
      | Some R_tools \<Rightarrow> odd (r_calls c) \<and> r_calls c < 2 * k
      | _ \<Rightarrow> True)"

fun research_left :: "nat \<Rightarrow> research_config \<Rightarrow> nat" where
  "research_left k c = (case r_pending c of
       Some R_agent \<Rightarrow> 2 * k + 2 - r_calls c
     | Some R_tools \<Rightarrow> 2 * k + 2 - r_calls c
     | Some R_report \<Rightarrow> 1
     | None \<Rightarrow> 0)"

lemma research_good_step:
  assumes g: "research_good env k c" and ne: "\<not> research_ended c"
  shows "fst (research_superstep env c) = None \<and> research_good env k (snd (research_superstep env c)) \<and>
    research_left k (snd (research_superstep env c)) < research_left k c"
proof -
  from g have am: "\<And>xs ys. r_add_messages env xs ys = xs @ ys" and sett: "settles env k"
    and ok: "research_ok env" by (auto simp: research_good_def research_ok_def)
  from ne obtain n where p: "r_pending c = Some n" by (auto simp: research_ended_def)
  show ?thesis
  proof (cases n)
    case R_agent
    from ok obtain model m where md: "r_tool_llm env = Some model"
      and m: "model (r_calls c) (r_messages (r_state c)) = Inr m" unfolding research_ok_def by metis
    have b: "even (r_calls c)" "r_calls c \<le> 2 * k" using g p R_agent by (auto simp: research_good_def)
    have "r_calls c < 2 * k" if "tool_calls m \<noteq> []"
      using that sett md m b by (auto simp: settles_def not_less [symmetric])
    with b md m p R_agent sett ok am show ?thesis
      by (auto simp: research_superstep_def Let_def researcher_def merge_delta_def should_continue_def
          research_good_def)
  next
    case R_tools
    from ok obtain rs where "r_tool_node env (r_calls c) (format_tool_error (r_str_exn env))
        (r_messages (r_state c)) = Inr rs" unfolding research_ok_def by blast
    with g p R_tools sett ok show ?thesis
      by (auto simp: research_superstep_def Let_def research_tools_def research_good_def)
  next
    case R_report
    from ok obtain r where "r_structured env (r_calls c) (research_prompt (r_messages (r_state c))) = Inr r"
      unfolding research_ok_def by blast
    with p R_report sett ok show ?thesis
      by (auto simp: research_superstep_def Let_def generate_research_report_def research_good_def)
  qed
qed

interpretation research_bounded: bounded_graph "research_superstep env" research_ended
    "research_good env k" "research_left k" for env k
  by unfold_locales (use research_good_step in blast)+

text \<open>A model that asks for tools in every reply.\<close>

definition never_settles :: "research_env \<Rightarrow> bool" where
  "never_settles env \<longleftrightarrow> (\<forall>model n ms m. r_tool_llm env = Some model \<longrightarrow> model n ms = Inr m \<longrightarrow>
     tool_calls m \<noteq> [])"

lemma never_settles_step:
  assumes "research_ok env" and "never_settles env"
    and "r_pending c = Some R_agent \<or> r_pending c = Some R_tools"
  shows "\<not> research_ended c \<and> fst (research_superstep env c) = None \<and>
    (r_pending (snd (research_superstep env c)) = Some R_agent \<or>
     r_pending (snd (research_superstep env c)) = Some R_tools)"
  using assms(3)
proof
  assume p: "r_pending c = Some R_agent"
  from assms(1) obtain model m where md: "r_tool_llm env = Some model"
    and m: "model (r_calls c) (r_messages (r_state c)) = Inr m"
    and am: "\<And>xs ys. r_add_messages env xs ys = xs @ ys" unfolding research_ok_def by metis
  with assms(2) have "tool_calls m \<noteq> []" unfolding never_settles_def by blast
  with p md m am show ?thesis
    by (simp add: research_superstep_def Let_def researcher_def merge_delta_def should_continue_def
        research_ended_def)
next
  assume p: "r_pending c = Some R_tools"
  from assms(1) obtain rs where "r_tool_node env (r_calls c) (format_tool_error (r_str_exn env))
      (r_messages (r_state c)) = Inr rs" unfolding research_ok_def by blast
  with p show ?thesis
    by (simp add: research_superstep_def Let_def research_tools_def research_ended_def)
qed

section \<open>Properties\<close>

definition sample_research :: "nat \<Rightarrow> research_env" where
  "sample_research k = \<lparr>
     r_tool_llm = Some (\<lambda>n ms. Inr (AIMessage ''looking'' (if n < 2 * k
        then [\<lparr>tc_name = ''read_text_file'', tc_args = [], tc_id = ''c''\<rparr>] else []))),
     r_structured = (\<lambda>n p. Inr (Some \<lparr>topic = ''t'', summary = p, sources_consulted = [], confidence = 1\<rparr>)),
     r_tool_node = (\<lambda>n f ms. Inr [\<lparr>msg_type = Tool_role, content = ''data'', tool_calls = []\<rparr>]),
     r_add_messages = (@), r_str_exn = (\<lambda>_. ''error'')\<rparr>"

lemma sample_research_ok: "research_ok (sample_research k)" "settles (sample_research k) k"
  by (auto simp: research_ok_def settles_def sample_research_def AIMessage_def)

definition sample_request :: research_request where
  "sample_request = \<lparr>rr_topic = ''bonds'', rr_thread_id = ''r1''\<rparr>"

text \<open>Every research run that completes alternated the model and the tools some number of times
  and ended with one report; its conversation ends in a reply that asks for no tool, and the
  report is stored.\<close>
theorem completed_research_path:
  assumes "invoke_research env limit old input = (None, c)"
  shows "\<exists>k r m. r_path c = research_route k \<and> r_report (r_state c) = Some r \<and>
    last_of (r_messages (r_state c)) = Inr m \<and> tool_calls m = []"
  using completed_research [OF assms] by (auto simp: research_run_inv_def)

theorem completed_research_path_witness:
  "\<exists>k r m. r_path (snd (invoke_research (sample_research 1) 8 [] [HumanMessage ''q''])) = research_route k \<and>
     r_report (r_state (snd (invoke_research (sample_research 1) 8 [] [HumanMessage ''q'']))) = Some r \<and>
     last_of (r_messages (r_state (snd (invoke_research (sample_research 1) 8 [] [HumanMessage ''q''])))) = Inr m \<and>
     tool_calls m = []"
proof -
  have "fst (invoke_research (sample_research 1) 8 [] [HumanMessage ''q'']) = None" by code_simp
  then have "invoke_research (sample_research 1) 8 [] [HumanMessage ''q''] =
      (None, snd (invoke_research (sample_research 1) 8 [] [HumanMessage ''q'']))" by (simp add: prod_eq_iff)
  then show ?thesis by (rule completed_research_path)
qed



text \<open>Against a model that always asks for one more tool the limit is the only stop: the route
  answers with the step-budget error, which names the topic and maps to status 422.\<close>
theorem research_loop_stopped:
  assumes "research_ok env" and "never_settles env"
  shows "\<exists>ms. run_research None env request old =
      (Inl (Agentic (MaxRecursionError (Details_dict [(''topic'', rr_topic request)]))), ms)"
proof -
  let ?start = "research_start env old [HumanMessage (''Research the following: '' @ rr_topic request)]"
  have "r_pending ?start = Some R_agent \<or> r_pending ?start = Some R_tools"
    by (simp add: research_start_def)
  from run_graph_diverges [where P = "\<lambda>c. r_pending c = Some R_agent \<or> r_pending c = Some R_tools" and
      ended = research_ended and step = "research_superstep env", OF this
      never_settles_step [OF assms], of RESEARCH_RECURSION_LIMIT]
  obtain c where "invoke_research env RESEARCH_RECURSION_LIMIT old
      [HumanMessage (''Research the following: '' @ rr_topic request)] = (Some GraphRecursionError, c)"
    unfolding invoke_research_def by blast
  then show ?thesis by (simp add: run_research_def)
qed

theorem research_loop_stopped_witness:
  "\<exists>ms. run_research None ((sample_research 0)\<lparr>r_tool_llm := Some (\<lambda>n ms. Inr (AIMessage ''more''
      [\<lparr>tc_name = ''read_text_file'', tc_args = [], tc_id = ''c''\<rparr>]))\<rparr>) sample_request [] =
    (Inl (Agentic (MaxRecursionError (Details_dict [(''topic'', rr_topic sample_request)]))), ms)"
  by (rule research_loop_stopped)
    (auto simp: research_ok_def never_settles_def sample_research_def AIMessage_def)

end
