(* ===== verification/Auth.thy ===== *)
theory Auth
  imports Ownership "HOL-Library.AList"
begin

text \<open>
  Authentication: \<open>app/core/security.py\<close> and \<open>app/api/v1/auth.py\<close>. The password hasher and
  the JWT library are parameters, with their documented behaviour as laws.
\<close>

section \<open>Passwords and tokens\<close>

record hasher =
  hash_of :: "string \<Rightarrow> string"
  verify :: "string \<Rightarrow> string \<Rightarrow> bool"

text \<open>The claims the code reads and writes; \<open>exp\<close> is in whole seconds.\<close>

record claims =
  sub :: "string option"
  exp_at :: int

record jwt_library =
  jwt_encode :: "string \<Rightarrow> string \<Rightarrow> claims \<Rightarrow> string"
  jwt_decode :: "string \<Rightarrow> string \<Rightarrow> rat \<Rightarrow> string \<Rightarrow> exn + claims"

definition hash_password :: "hasher \<Rightarrow> string \<Rightarrow> string" where
  "hash_password h plain = hash_of h plain"

definition verify_password :: "hasher \<Rightarrow> string \<Rightarrow> string \<Rightarrow> bool" where
  "verify_password h plain hashed = verify h plain hashed"

text \<open>The expiry is a datetime, which the library stores truncated to whole seconds.\<close>

definition create_access_token :: "settings \<Rightarrow> jwt_library \<Rightarrow> rat \<Rightarrow> string \<Rightarrow> string" where
  "create_access_token st j now subject = jwt_encode j (jwt_secret st) (jwt_algorithm st)
     \<lparr>sub = Some subject, exp_at = \<lfloor>now + of_int (60 * jwt_expire_minutes st)\<rfloor>\<rparr>"

definition decode_subject :: "settings \<Rightarrow> jwt_library \<Rightarrow> rat \<Rightarrow> string \<Rightarrow> exn + string" where
  "decode_subject st j now token =
     bindr (jwt_decode j (jwt_secret st) (jwt_algorithm st) now token) (\<lambda>payload.
     case sub payload of
       None \<Rightarrow> Inl (InvalidTokenError ''token missing sub'')
     | Some s \<Rightarrow> if s = [] then Inl (InvalidTokenError ''token missing sub'') else Inr s)"

section \<open>Users and login\<close>

record user =
  username :: string
  hashed_password :: string

type_synonym users = "(string \<times> user) list"

definition seed_users :: "settings \<Rightarrow> hasher \<Rightarrow> users" where
  "seed_users st h =
     (let users = (if demo_password st \<noteq> [] then AList.update (demo_username st)
            \<lparr>username = demo_username st, hashed_password = hash_password h (demo_password st)\<rparr> [] else [])
      in if demo2_password st \<noteq> [] then AList.update (demo2_username st)
            \<lparr>username = demo2_username st, hashed_password = hash_password h (demo2_password st)\<rparr> users
         else users)"

definition login ::
    "settings \<Rightarrow> hasher \<Rightarrow> jwt_library \<Rightarrow> users \<Rightarrow> rat \<Rightarrow> string \<Rightarrow> string \<Rightarrow> exn + string" where
  "login st h j users now name password =
     (case map_of users name of
        None \<Rightarrow> Inl (HTTPException 401 ''Incorrect username or password'')
      | Some u \<Rightarrow> if verify_password h password (hashed_password u)
          then Inr (create_access_token st j now (username u))
          else Inl (HTTPException 401 ''Incorrect username or password''))"

text \<open>\<open>except jwt.InvalidTokenError\<close> catches only that; other exceptions go on.\<close>

definition credentials_error :: exn where
  "credentials_error = HTTPException 401 ''Could not validate credentials''"

definition get_current_user ::
    "settings \<Rightarrow> jwt_library \<Rightarrow> users \<Rightarrow> rat \<Rightarrow> string \<Rightarrow> exn + string" where
  "get_current_user st j users now token =
     (case decode_subject st j now token of
        Inl (InvalidTokenError _) \<Rightarrow> Inl credentials_error
      | Inl e \<Rightarrow> Inl e
      | Inr name \<Rightarrow> if map_of users name = None then Inl credentials_error else Inr name)"

text \<open>The rate limit's bucket: the header, empty when absent, and the client's address.\<close>

definition user_key ::
    "settings \<Rightarrow> jwt_library \<Rightarrow> rat \<Rightarrow> string \<Rightarrow> string option \<Rightarrow> exn + string" where
  "user_key st j now auth client_host =
     (let (scheme, token) = partition_at (CHR '' '') auth;
          fallback = (case client_host of Some h \<Rightarrow> h | None \<Rightarrow> ''anonymous'')
      in if lower scheme = ''bearer'' \<and> token \<noteq> []
         then (case decode_subject st j now token of
                 Inr s \<Rightarrow> Inr s
               | Inl (InvalidTokenError _) \<Rightarrow> Inr fallback
               | Inl e \<Rightarrow> Inl e)
         else Inr fallback)"

definition require_thread_owner ::
    "settings \<Rightarrow> string \<Rightarrow> string \<Rightarrow> ownership_rows \<Rightarrow> (exn + string) \<times> ownership_rows" where
  "require_thread_owner st thread name rows =
     (case claim_or_check st thread name rows of
        (True, rows') \<Rightarrow> (Inr name, rows')
      | (False, rows') \<Rightarrow> (Inl (HTTPException 403 ''Not the owner of this thread_id.''), rows'))"

text \<open>
  A route behind the dependency: the session it claims the thread in is the handler's own,
  committed or rolled back as one.
\<close>

definition owner_route ::
    "settings \<Rightarrow> (ownership_rows \<Rightarrow> exn option) \<Rightarrow> string \<Rightarrow> string \<Rightarrow>
     (string \<Rightarrow> ownership_rows \<Rightarrow> (exn + 'a) \<times> ownership_rows) \<Rightarrow>
     ownership_rows \<Rightarrow> (exn + 'a) \<times> ownership_rows" where
  "owner_route st commit thread name handler rows =
     get_db commit (\<lambda>d. case require_thread_owner st thread name d of
         (Inl e, d') \<Rightarrow> (Inl e, d')
       | (Inr u, d') \<Rightarrow> handler u d') rows"

section \<open>Laws of the libraries\<close>

definition hasher_law :: "hasher \<Rightarrow> bool" where
  "hasher_law h \<longleftrightarrow> (\<forall>p q. verify h p (hash_of h q) \<longleftrightarrow> p = q)"

text \<open>A token encoded with a secret decodes with it to its claims before its expiry and is refused
  from then on; decoding raises nothing but \<open>InvalidTokenError\<close>.\<close>

definition jwt_law :: "jwt_library \<Rightarrow> bool" where
  "jwt_law j \<longleftrightarrow> (\<forall>s a now c. jwt_decode j s a now (jwt_encode j s a c) =
       (if of_int (exp_at c) \<le> now then Inl (InvalidTokenError ''Signature has expired'') else Inr c)) \<and>
     (\<forall>s a now t e. jwt_decode j s a now t = Inl e \<longrightarrow> (\<exists>m. e = InvalidTokenError m)) \<and>
     (\<forall>s a c. jwt_encode j s a c \<noteq> [])"

lemma decode_created:
  assumes "jwt_law j" and "subject \<noteq> []"
  shows "decode_subject st j now' (create_access_token st j now subject) =
    (if of_int \<lfloor>now + of_int (60 * jwt_expire_minutes st)\<rfloor> \<le> now'
     then Inl (InvalidTokenError ''Signature has expired'') else Inr subject)"
  using assms by (simp add: decode_subject_def create_access_token_def jwt_law_def)

lemma decode_subject_Inl:
  "jwt_law j \<Longrightarrow> decode_subject st j now t = Inl e \<Longrightarrow> \<exists>m. e = InvalidTokenError m"
  by (auto simp: decode_subject_def jwt_law_def bindr_Inl_iff split: option.splits if_splits)

lemma seed_users_map_of:
  "map_of (seed_users st h) name =
     (if demo2_password st \<noteq> [] \<and> name = demo2_username st
      then Some \<lparr>username = name, hashed_password = hash_of h (demo2_password st)\<rparr>
      else if demo_password st \<noteq> [] \<and> name = demo_username st
      then Some \<lparr>username = name, hashed_password = hash_of h (demo_password st)\<rparr> else None)"
  by (simp add: seed_users_def hash_password_def update_conv')

section \<open>Properties\<close>

definition plain_hasher :: hasher where
  "plain_hasher = \<lparr>hash_of = (\<lambda>p. CHR ''#'' # p), verify = (\<lambda>p h. h = CHR ''#'' # p)\<rparr>"

text \<open>A token library for examples: the token spells out secret, algorithm, subject and expiry,
  each text with a mark before every character and one after the last.\<close>

definition spell :: "string \<Rightarrow> string" where
  "spell s = concat (map (\<lambda>x. [CHR ''c'', x]) s) @ ''.''"

fun unspell :: "string \<Rightarrow> (string \<times> string) option" where
  "unspell (m # x # r) = (if m = CHR ''.'' then Some ([], x # r)
     else if m = CHR ''c'' then map_option (\<lambda>(s, r'). (x # s, r')) (unspell r) else None)"
| "unspell [m] = (if m = CHR ''.'' then Some ([], []) else None)"
| "unspell [] = None"

lemma unspell_spell: "unspell (spell s @ r) = Some (s, r)"
proof (induction s)
  case Nil
  then show ?case by (cases r) (simp_all add: spell_def)
next
  case (Cons x s)
  then show ?case by (simp add: spell_def)
qed

definition plain_encode :: "string \<Rightarrow> string \<Rightarrow> claims \<Rightarrow> string" where
  "plain_encode s a c = spell s @ spell a @
     spell (case sub c of None \<Rightarrow> [] | Some x \<Rightarrow> ''s'' @ x) @
     spell ((if exp_at c < 0 then ''-'' else ''+'') @ replicate (nat \<bar>exp_at c\<bar>) (CHR ''i''))"

definition plain_claims :: "string \<Rightarrow> string \<Rightarrow> string \<Rightarrow> claims option" where
  "plain_claims s a t =
     (case unspell t of None \<Rightarrow> None | Some (s', t1) \<Rightarrow>
     (case unspell t1 of None \<Rightarrow> None | Some (a', t2) \<Rightarrow>
     (case unspell t2 of None \<Rightarrow> None | Some (u, t3) \<Rightarrow>
     (case unspell t3 of None \<Rightarrow> None | Some (e, t4) \<Rightarrow>
        if s' = s \<and> a' = a
        then Some \<lparr>sub = (if u = [] then None else Some (tl u)),
          exp_at = (if hd e = CHR ''-'' then - int (length (tl e)) else int (length (tl e)))\<rparr>
        else None))))"

definition plain_jwt :: jwt_library where
  "plain_jwt = \<lparr>jwt_encode = plain_encode, jwt_decode = (\<lambda>s a now t. case plain_claims s a t of
      None \<Rightarrow> Inl (InvalidTokenError ''Not enough segments'')
    | Some c \<Rightarrow> if of_int (exp_at c) \<le> now then Inl (InvalidTokenError ''Signature has expired'') else Inr c)\<rparr>"

lemma plain_claims_encode: "plain_claims s a (plain_encode s a c) = Some c"
proof -
  have "spell x = spell x @ []" for x by simp
  then have "unspell (spell x) = Some (x, [])" for x by (metis unspell_spell)
  then show ?thesis
    by (cases c) (auto simp: plain_claims_def plain_encode_def unspell_spell split: option.splits)
qed

lemma plain_jwt_law: "jwt_law plain_jwt"
proof -
  have "plain_encode s a c \<noteq> []" for s a c by (simp add: plain_encode_def spell_def)
  then show ?thesis
    by (auto simp: jwt_law_def plain_jwt_def plain_claims_encode split: option.splits if_splits)
qed

lemma plain_hasher_law: "hasher_law plain_hasher"
  by (auto simp: hasher_law_def plain_hasher_def)

text \<open>Login: a token is issued exactly for a configured account (one whose password is not
  empty) and its password; when both accounts have one name the second one's password counts.
  Every other attempt is answered with 401.\<close>
theorem login_exact:
  assumes "hasher_law h"
  shows "login st h j (seed_users st h) now name password =
    (if (if demo2_password st \<noteq> [] \<and> name = demo2_username st then password = demo2_password st
         else name = demo_username st \<and> demo_password st \<noteq> [] \<and> password = demo_password st)
     then Inr (create_access_token st j now name)
     else Inl (HTTPException 401 ''Incorrect username or password''))"
  using assms by (simp add: login_def seed_users_map_of verify_password_def hasher_law_def)

theorem login_exact_witness:
  "login (default_settings\<lparr>demo_password := ''pw''\<rparr>) plain_hasher plain_jwt
     (seed_users (default_settings\<lparr>demo_password := ''pw''\<rparr>) plain_hasher) 0 ''nobody'' ''pw'' =
   Inl (HTTPException 401 ''Incorrect username or password'')"
  using login_exact [OF plain_hasher_law, of "default_settings\<lparr>demo_password := ''pw''\<rparr>" plain_jwt 0
      "''nobody''" "''pw''"]
  by (simp add: default_settings_def)

text \<open>Until its token expires, a login is the user.\<close>

lemma login_known_user:
  assumes "jwt_law j" and "login st h j (seed_users st h) t0 name password = Inr token" and "name \<noteq> []"
    and "t < of_int \<lfloor>t0 + of_int (60 * jwt_expire_minutes st)\<rfloor>"
  shows "get_current_user st j (seed_users st h) t token = Inr name"
proof -
  from assms(2) have tok: "token = create_access_token st j t0 name"
    and known: "map_of (seed_users st h) name \<noteq> None"
    by (auto simp: login_def seed_users_map_of split: option.splits if_splits)
  with assms(3,4) show ?thesis by (auto simp: get_current_user_def decode_created [OF assms(1)])
qed

text \<open>C40. Round trip: a token issued at login identifies its user to every route, and puts the
  user's requests into the user's own rate-limit bucket, until the configured number of minutes
  after the login (in whole seconds); from then on the routes answer 401 and the bucket is the
  client's address.\<close>
theorem login_round_trip:
  assumes "jwt_law j" and "login st h j (seed_users st h) t0 name password = Inr token"
    and "name \<noteq> []" and "lower scheme = ''bearer''" and "CHR '' '' \<notin> set scheme"
  shows "if of_int \<lfloor>t0 + of_int (60 * jwt_expire_minutes st)\<rfloor> \<le> t
    then get_current_user st j (seed_users st h) t token = Inl credentials_error \<and>
      user_key st j t (scheme @ '' '' @ token) (Some ip) = Inr ip
    else get_current_user st j (seed_users st h) t token = Inr name \<and>
      user_key st j t (scheme @ '' '' @ token) (Some ip) = Inr name"
proof -
  from assms(2) have tok: "token = create_access_token st j t0 name"
    and known: "map_of (seed_users st h) name \<noteq> None"
    by (auto simp: login_def seed_users_map_of split: option.splits if_splits)
  have "token \<noteq> []" using assms(1) tok by (simp add: jwt_law_def create_access_token_def)
  with known assms(3-5) show ?thesis
    by (auto simp: get_current_user_def user_key_def tok decode_created [OF assms(1)] partition_at_append)
qed

theorem login_round_trip_witness:
  "get_current_user (default_settings\<lparr>demo_password := ''pw''\<rparr>) plain_jwt
     (seed_users (default_settings\<lparr>demo_password := ''pw''\<rparr>) plain_hasher) 10
     (create_access_token (default_settings\<lparr>demo_password := ''pw''\<rparr>) plain_jwt 0 ''admin'') = Inr ''admin''"
proof -
  let ?st = "default_settings\<lparr>demo_password := ''pw''\<rparr>"
  have l: "login ?st plain_hasher plain_jwt (seed_users ?st plain_hasher) 0 ''admin'' ''pw'' =
      Inr (create_access_token ?st plain_jwt 0 ''admin'')"
    by (simp add: login_def seed_users_map_of verify_password_def plain_hasher_def default_settings_def)
  have m: "\<lfloor>0 + of_int (60 * jwt_expire_minutes ?st) :: rat\<rfloor> = 1800"
    by (simp add: default_settings_def)
  have "lower ''Bearer'' = ''bearer''" by code_simp
  then show ?thesis
    using login_round_trip [OF plain_jwt_law l, of "''Bearer''" 10 "''10.0.0.1''"]
    unfolding m by simp
qed

text \<open>A token is only as good as its account: whatever token is presented, the user a route
  sees is one of the seeded users and the subject of a token the library accepts, and every
  refusal is a 401.\<close>
theorem authenticated_user_known:
  assumes "jwt_law j"
  shows "case get_current_user st j users t token of
      Inr name \<Rightarrow> map_of users name \<noteq> None \<and> name \<noteq> [] \<and>
        (\<exists>c. jwt_decode j (jwt_secret st) (jwt_algorithm st) t token = Inr c \<and> sub c = Some name)
    | Inl e \<Rightarrow> e = credentials_error"
proof (cases "decode_subject st j t token")
  case (Inl e)
  with decode_subject_Inl [OF assms] obtain m where "e = InvalidTokenError m" by blast
  with Inl show ?thesis by (simp add: get_current_user_def)
next
  case (Inr name)
  then have "name \<noteq> []" and
    "\<exists>c. jwt_decode j (jwt_secret st) (jwt_algorithm st) t token = Inr c \<and> sub c = Some name"
    by (auto simp: decode_subject_def bindr_Inr_iff split: option.splits if_splits)
  with Inr show ?thesis by (simp add: get_current_user_def)
qed

theorem authenticated_user_known_witness:
  "case get_current_user default_settings plain_jwt [] 0 ''garbage'' of
     Inr name \<Rightarrow> False | Inl e \<Rightarrow> e = credentials_error"
  using authenticated_user_known [OF plain_jwt_law, where st = default_settings and users = "[]" and t = 0
      and token = "''garbage''"]
  by (simp split: sum.splits)

text \<open>A thread route answers 403, and leaves the ownership table as it was, to anyone who is
  neither the admin nor the thread's owner while the thread is owned by another; for the others
  its handler runs as that user on a table in which the thread is the user's, unless the admin
  asked. What the handler raises undoes even the claim.\<close>
theorem owner_route_gate:
  assumes "\<And>d. commit d = None"
  shows "owner_route st commit t name handler rows =
    (if is_admin st name then get_db commit (handler name) rows
     else case select_owner t rows of
       Some owner \<Rightarrow> if owner = name then get_db commit (handler name) rows
         else (Inl (HTTPException 403 ''Not the owner of this thread_id.''), rows)
     | None \<Rightarrow> (case handler name (rows @ [\<lparr>thread_id = t, owner_username = name\<rparr>]) of
         (Inl e, _) \<Rightarrow> (Inl e, rows) | (Inr a, rows') \<Rightarrow> (Inr a, rows')))"
proof (cases "is_admin st name")
  case True
  then show ?thesis
    by (simp add: owner_route_def require_thread_owner_def claim_or_check_def get_db_def)
next
  case False
  show ?thesis
  proof (cases "select_owner t rows")
    case None
    then have new: "t \<notin> set (map thread_id rows)"
      by (auto simp: select_owner_def find_None_iff)
    from None have "find (\<lambda>r. thread_id r = t) rows = None" by (simp add: select_owner_def)
    then have "select_owner t (rows @ [\<lparr>thread_id = t, owner_username = name\<rparr>]) = Some name"
      by (simp add: select_owner_def find_append)
    with False None new assms show ?thesis
      by (simp add: owner_route_def require_thread_owner_def claim_or_check_def get_db_def
          insert_on_conflict_do_nothing_def split: prod.splits sum.splits)
  next
    case (Some owner)
    then have old: "t \<in> set (map thread_id rows)"
      by (auto simp: select_owner_def find_Some_iff)
    with False Some assms show ?thesis
      by (simp add: owner_route_def require_thread_owner_def claim_or_check_def get_db_def
          insert_on_conflict_do_nothing_def split: prod.splits sum.splits)
  qed
qed

theorem owner_route_gate_witness:
  "owner_route default_settings (\<lambda>_. None) ''t1'' ''eve'' (\<lambda>u d. (Inr ''secret'', d))
     [\<lparr>thread_id = ''t1'', owner_username = ''bob''\<rparr>] =
   (Inl (HTTPException 403 ''Not the owner of this thread_id.''),
     [\<lparr>thread_id = ''t1'', owner_username = ''bob''\<rparr>])"
  using owner_route_gate [of "\<lambda>_. None" default_settings "''t1''" "''eve''" "\<lambda>u d. (Inr ''secret'', d)"
      "[\<lparr>thread_id = ''t1'', owner_username = ''bob''\<rparr>]"]
  by (simp add: is_admin_def default_settings_def select_owner_def)

end
