(* ===== verification/Endpoints.thy ===== *)
theory Endpoints
  imports Engine_Props History GC Auth
begin

text \<open>
  The routes of \<open>app/api/v1/endpoints.py\<close>, over an interface to the compiled graph
  (\<open>graph_api\<close>): invoking it on a thread, and reading and editing a thread's checkpoints.
  \<open>engine_api\<close> is that interface of the main graph of theory \<open>Engine\<close>, with one saved
  configuration per thread. The database session is the transactional part of the state:
  ownership and execution rows. The rate limiter and the response cache wrap handlers and
  are third-party; only their keys are the code's.
\<close>

section \<open>The graph as the routes see it\<close>

record run_ctx =
  cx_llm :: llm
  cx_tool_llm :: "llm option"
  cx_db :: "ownership_rows option"
  cx_username :: string

record ('g, 'v) graph_api = "('g, 'v) state_graph" +
  ainvoke :: "run_ctx \<Rightarrow> run_config \<Rightarrow> message list option \<Rightarrow> 'g \<Rightarrow> (exn + graph_output) \<times> 'g"
  astream :: "run_ctx \<Rightarrow> run_config \<Rightarrow> message list \<Rightarrow> 'g \<Rightarrow> (exn option \<times> chunk list) \<times> 'g"

text \<open>What the routes obtain from outside: the built graph, the tool list, the model, the binding
  of tools to it, and the parsing of a UUID.\<close>

record services =
  sv_settings :: settings
  sv_build :: "exn option"
  sv_tools :: "exn + string list"
  sv_llm :: llm
  sv_bind :: "string list \<Rightarrow> llm"
  sv_uuid :: "string \<Rightarrow> string option"

definition prepare :: "services \<Rightarrow> string \<Rightarrow> ownership_rows \<Rightarrow> exn + run_ctx" where
  "prepare sv name rows = (case sv_build sv of
       Some e \<Rightarrow> Inl e
     | None \<Rightarrow> bindr (sv_tools sv) (\<lambda>ts. Inr \<lparr>cx_llm = sv_llm sv,
         cx_tool_llm = Some (sv_bind sv ts), cx_db = Some rows, cx_username = name\<rparr>))"

definition run_on_thread ::
    "('g, 'v) graph_api \<Rightarrow> services \<Rightarrow> string \<Rightarrow> ownership_rows \<Rightarrow> run_config \<Rightarrow> message list option \<Rightarrow>
     'g \<Rightarrow> (exn + graph_output) \<times> 'g" where
  "run_on_thread api sv name rows cfg input g = (case prepare sv name rows of
       Inl e \<Rightarrow> (Inl e, g)
     | Inr cx \<Rightarrow> ainvoke api cx cfg input g)"

definition last_content :: "graph_output \<Rightarrow> exn + string" where
  "last_content out = bindr (last_of (out_messages out)) (\<lambda>m. Inr (content m))"

section \<open>POST /run\<close>

text \<open>The line a background task prints after the response.\<close>

definition log_agent_activity :: "string \<Rightarrow> string" where
  [simp]: "log_agent_activity activity = ''AUDIT LOG: '' @ activity"

record agent_execution =
  ex_request_id :: string
  ex_agent_id :: string
  ex_status :: string

record session =
  owners :: ownership_rows
  executions :: "agent_execution list"

definition run_thread_id :: "agent_request \<Rightarrow> string" where
  "run_thread_id p = (case conversation_id p of None \<Rightarrow> request_id p
     | Some c \<Rightarrow> if c = [] then request_id p else c)"

definition add_execution :: "agent_request \<Rightarrow> string \<Rightarrow> session \<Rightarrow> session" where
  "add_execution p stat d = d\<lparr>executions := executions d @
     [\<lparr>ex_request_id = request_id p, ex_agent_id = agent_id p, ex_status = stat\<rparr>]\<rparr>"

text \<open>The body after the graph's answer, on the session. The second component of a success is
  the list of background tasks, run after the response.\<close>

definition finish_run ::
    "services \<Rightarrow> agent_request \<Rightarrow> exn + graph_output \<Rightarrow> session \<Rightarrow>
     (exn + agent_response \<times> string list) \<times> session" where
  "finish_run sv p r d = (case r of
       Inr out \<Rightarrow> (bindr (last_content out) (\<lambda>answer.
           bindr (AgentResponse (sv_uuid sv) (request_id p) answer ''success'') (\<lambda>resp.
           Inr (resp, [log_agent_activity (task_description p)]))), add_execution p ''completed'' d)
     | Inl GraphRecursionError \<Rightarrow>
         (Inl (Agentic (MaxRecursionError (Details_dict [(''agent_id'', agent_id p)]))),
          add_execution p ''failed'' d)
     | Inl (Agentic x) \<Rightarrow> (Inl (Agentic x), add_execution p ''failed'' d)
     | Inl e \<Rightarrow> (Inl e, add_execution p ''running'' d))"

definition run_agent ::
    "('g, 'v) graph_api \<Rightarrow> services \<Rightarrow> (session \<Rightarrow> exn option) \<Rightarrow> agent_request \<Rightarrow> string \<Rightarrow> 'g \<Rightarrow> session \<Rightarrow>
     (exn + agent_response \<times> string list) \<times> 'g \<times> session" where
  "run_agent api sv commit p name g d =
     (case run_on_thread api sv name (owners d) (checkpoint_config (run_thread_id p) None)
         (Some [HumanMessage (task_description p)]) g of
        (r, g') \<Rightarrow> (case get_db commit (finish_run sv p r) d of (resp, d') \<Rightarrow> (resp, g', d')))"

section \<open>POST /run/stream\<close>

text \<open>The names under which the nodes are registered.\<close>

fun node_name :: "node \<Rightarrow> string" where
  "node_name Router = ''router''"
| "node_name Memory_retriever = ''memory_retriever''"
| "node_name Agent = ''agent''"
| "node_name Tools = ''tools''"
| "node_name Billing_worker = ''billing''"
| "node_name General_worker = ''general''"
| "node_name Critic = ''critic''"
| "node_name Fetch_metrics = ''fetch_metrics''"
| "node_name Format_report = ''format_report''"

fun stream_event_of :: "chunk \<Rightarrow> stream_event" where
  "stream_event_of (Custom t) = \<lparr>phase = ''status'', ev_node = None, ev_content = t\<rparr>"
| "stream_event_of (Update n) =
     \<lparr>phase = ''node'', ev_node = Some (node_name n), ev_content = ''step complete''\<rparr>"

definition done_event :: stream_event where
  "done_event = \<lparr>phase = ''done'', ev_node = None, ev_content = ''run finished''\<rparr>"

definition recursion_event :: stream_event where
  "recursion_event = \<lparr>phase = ''error'', ev_node = None, ev_content = ''recursion limit exceeded''\<rparr>"

text \<open>The events sent, and the status the execution row ends with or the exception that broke the
  stream off.\<close>

definition stream_events ::
    "('g, 'v) graph_api \<Rightarrow> services \<Rightarrow> agent_request \<Rightarrow> string \<Rightarrow> ownership_rows \<Rightarrow> 'g \<Rightarrow>
     stream_event list \<times> (exn + string) \<times> 'g" where
  "stream_events api sv p name rows g = (case prepare sv name rows of
       Inl GraphRecursionError \<Rightarrow> ([recursion_event], Inr ''failed'', g)
     | Inl e \<Rightarrow> ([], Inl e, g)
     | Inr cx \<Rightarrow> (case astream api cx (checkpoint_config (run_thread_id p) None)
           [HumanMessage (task_description p)] g of
         ((None, cs), g') \<Rightarrow> (map stream_event_of cs @ [done_event], Inr ''completed'', g')
       | ((Some GraphRecursionError, cs), g') \<Rightarrow>
           (map stream_event_of cs @ [recursion_event], Inr ''failed'', g')
       | ((Some e, cs), g') \<Rightarrow> (map stream_event_of cs, Inl e, g')))"

definition run_agent_stream ::
    "('g, 'v) graph_api \<Rightarrow> services \<Rightarrow> (session \<Rightarrow> exn option) \<Rightarrow> agent_request \<Rightarrow> string \<Rightarrow> 'g \<Rightarrow> session \<Rightarrow>
     stream_event list \<times> 'g \<times> session" where
  "run_agent_stream api sv commit p name g d =
     (case stream_events api sv p name (owners d) g of
        (evs, r, g') \<Rightarrow> (evs, g', snd (get_db commit (\<lambda>s. (r, add_execution p
           (case r of Inr stat \<Rightarrow> stat | Inl _ \<Rightarrow> ''running'') s)) d)))"

section \<open>GET /ask and POST /analyze\<close>

definition ask_cache_key :: "string \<Rightarrow> string \<Rightarrow> string \<Rightarrow> string" where
  "ask_cache_key namespace name q = namespace @ '':ask:'' @ name @ '':'' @ q"

definition ask ::
    "('g, 'v) graph_api \<Rightarrow> services \<Rightarrow> string \<Rightarrow> string \<Rightarrow> ownership_rows \<Rightarrow> 'g \<Rightarrow> (exn + ask_response) \<times> 'g" where
  "ask api sv q name rows g =
     (case run_on_thread api sv name rows (checkpoint_config (''ask:'' @ name) None)
         (Some [HumanMessage q]) g of
        (r, g') \<Rightarrow> (bindr r (\<lambda>out. bindr (last_content out) (\<lambda>t. Inr \<lparr>ask_query = q, ask_output = t\<rparr>)), g'))"

text \<open>The context of \<open>/analyze\<close> has neither a tool-bound model nor a session. The response model
  validates the analysis again.\<close>

definition analyze_response :: "graph_output \<Rightarrow> exn + investment_analysis" where
  "analyze_response out = (case out_analysis out of
       None \<Rightarrow> Inl (KeyError ''analysis'')
     | Some None \<Rightarrow> Inl (OtherError ''ResponseValidationError'')
     | Some (Some a) \<Rightarrow> if valid_investment_analysis a then Inr a
         else Inl (OtherError ''ResponseValidationError''))"

definition analyze_investment ::
    "('g, 'v) graph_api \<Rightarrow> services \<Rightarrow> string \<Rightarrow> string \<Rightarrow> string \<Rightarrow> 'g \<Rightarrow>
     (exn + investment_analysis) \<times> 'g" where
  "analyze_investment api sv fresh symbol name g = (case sv_build sv of
       Some e \<Rightarrow> (Inl e, g)
     | None \<Rightarrow> (case ainvoke api \<lparr>cx_llm = sv_llm sv, cx_tool_llm = None, cx_db = None, cx_username = name\<rparr>
           (checkpoint_config (''analyze:'' @ name @ '':'' @ fresh) None)
           (Some [HumanMessage (''Analyze '' @ symbol)]) g of
         (r, g') \<Rightarrow> (bindr r analyze_response, g')))"

section \<open>Conversations and threads\<close>

fun role_type :: "role \<Rightarrow> string" where
  "role_type Human = ''human''"
| "role_type AI = ''ai''"
| "role_type Tool_role = ''tool''"
| "role_type System = ''system''"

definition get_conversation ::
    "('g, 'v) graph_api \<Rightarrow> services \<Rightarrow> string \<Rightarrow> 'g \<Rightarrow> exn + conversation_history" where
  "get_conversation api sv cid g = (case sv_build sv of
       Some e \<Rightarrow> Inl e
     | None \<Rightarrow> bindr (aget_state api (checkpoint_config cid None) g) (\<lambda>s.
         Inr \<lparr>conversation = cid, turns = map (\<lambda>m. \<lparr>role_name = role_type (msg_type m),
           turn_content = content m\<rparr>) (case sn_messages s of None \<Rightarrow> [] | Some ms \<Rightarrow> ms)\<rparr>))"

record history_response =
  hr_thread :: string
  hr_interrupted :: bool
  hr_count :: nat
  hr_checkpoints :: "summary list"

definition thread_history ::
    "('g, 'v) graph_api \<Rightarrow> services \<Rightarrow> string \<Rightarrow> int \<Rightarrow> 'g \<Rightarrow> exn + history_response" where
  "thread_history api sv thread limit g = (case sv_build sv of
       Some e \<Rightarrow> Inl e
     | None \<Rightarrow> bindr (thread_timeline (state_graph.truncate api) thread limit g) (\<lambda>timeline.
         bindr (is_interrupted (state_graph.truncate api) thread g) (\<lambda>i.
         Inr \<lparr>hr_thread = thread, hr_interrupted = i, hr_count = length timeline,
           hr_checkpoints = timeline\<rparr>)))"

text \<open>\<open>resume_thread\<close>: the user name is passed where a UUID is expected.\<close>

definition resume_thread ::
    "('g, 'v) graph_api \<Rightarrow> services \<Rightarrow> string \<Rightarrow> string \<Rightarrow> ownership_rows \<Rightarrow> 'g \<Rightarrow>
     (exn + agent_response) \<times> 'g" where
  "resume_thread api sv thread name rows g = (case sv_build sv of
       Some e \<Rightarrow> (Inl e, g)
     | None \<Rightarrow> (case is_interrupted (state_graph.truncate api) thread g of
         Inl e \<Rightarrow> (Inl e, g)
       | Inr False \<Rightarrow> (Inl (HTTPException 404
             ''No interrupted run for this thread_id (nothing pending).''), g)
       | Inr True \<Rightarrow> (case run_on_thread api sv name rows (checkpoint_config thread None) None g of
           (r, g') \<Rightarrow> (bindr r (\<lambda>out. bindr (last_content out) (\<lambda>t.
              AgentResponse (sv_uuid sv) name t ''success'')), g'))))"

record fork_response =
  fr_thread :: string
  fr_from :: string
  fr_new :: string
  fr_output :: string

definition fork_thread ::
    "('g, 'v) graph_api \<Rightarrow> services \<Rightarrow> string \<Rightarrow> string \<Rightarrow> string \<Rightarrow> string \<Rightarrow> ownership_rows \<Rightarrow> 'g \<Rightarrow>
     (exn + fork_response) \<times> 'g" where
  "fork_thread api sv thread checkpoint msg name rows g =
     (case run_on_thread api sv name rows (checkpoint_config thread (Some checkpoint))
         (Some [HumanMessage msg]) g of
        (Inl e, g') \<Rightarrow> (Inl e, g')
      | (Inr out, g') \<Rightarrow> (bindr (aget_state api (checkpoint_config thread None) g') (\<lambda>s.
          case sn_checkpoint s of
            None \<Rightarrow> Inl (KeyError ''checkpoint_id'')
          | Some new \<Rightarrow> bindr (last_content out) (\<lambda>t. Inr \<lparr>fr_thread = thread,
              fr_from = checkpoint, fr_new = new, fr_output = t\<rparr>)), g'))"

text \<open>\<open>edit_thread_checkpoint\<close>: only the two overwrite fields that were given are written.\<close>

datatype edit_value = Critique string | Revision_count int

definition edit_values :: "string option \<Rightarrow> int option \<Rightarrow> edit_value list" where
  "edit_values crit count = (case crit of None \<Rightarrow> [] | Some c \<Rightarrow> [Critique c]) @
     (case count of None \<Rightarrow> [] | Some n \<Rightarrow> [Revision_count n])"

record edit_response =
  er_thread :: string
  er_from :: string
  er_new :: string
  er_values :: "edit_value list"

definition edit_thread_checkpoint ::
    "('g, edit_value list) graph_api \<Rightarrow> services \<Rightarrow> string \<Rightarrow> string \<Rightarrow> string \<Rightarrow> string option \<Rightarrow> int option \<Rightarrow>
     'g \<Rightarrow> (exn + edit_response) \<times> 'g" where
  "edit_thread_checkpoint api sv thread checkpoint as_node crit count g =
     (let values = edit_values crit count in
      if values = [] then (Inl (HTTPException 422 ''Provide critique and/or revision_count.''), g)
      else (case sv_build sv of
         Some e \<Rightarrow> (Inl e, g)
       | None \<Rightarrow> (case edit_checkpoint (state_graph.truncate api) thread checkpoint values as_node g of
           Inl e \<Rightarrow> (Inl e, g)
         | Inr (cfg, g') \<Rightarrow> (case cfg_checkpoint cfg of
             None \<Rightarrow> (Inl (KeyError ''checkpoint_id''), g')
           | Some new \<Rightarrow> (Inr \<lparr>er_thread = thread, er_from = checkpoint,
               er_new = new, er_values = values\<rparr>, g')))))"

record branches_response =
  br_count :: nat
  br_fork_points :: "(string \<times> nat) list"
  br_tree :: "(string option \<times> summary list) list"

definition thread_branches ::
    "('g, 'v) graph_api \<Rightarrow> services \<Rightarrow> string \<Rightarrow> int \<Rightarrow> 'g \<Rightarrow> exn + branches_response" where
  "thread_branches api sv thread limit g = (case sv_build sv of
       Some e \<Rightarrow> Inl e
     | None \<Rightarrow> bindr (thread_timeline (state_graph.truncate api) thread limit g) (\<lambda>timeline.
         let tree = branch_tree timeline in
         Inr \<lparr>br_count = length timeline, br_fork_points = fork_points tree, br_tree = tree\<rparr>))"

section \<open>Memory routes and retention\<close>

definition remember_thread_fact ::
    "settings \<Rightarrow> backend \<Rightarrow> string \<Rightarrow> string \<Rightarrow> string \<Rightarrow> memory_store \<Rightarrow>
     exn + (string \<times> string) \<times> memory_store" where
  "remember_thread_fact st b fresh thread body m =
     bindr (remember st b fresh thread body None m) (\<lambda>(pid, m'). Inr ((pid, thread), m'))"

text \<open>The response model requires a text of every hit.\<close>

definition valid_hits :: "hit list \<Rightarrow> exn + hit list" where
  "valid_hits hits = (if list_all (\<lambda>h. hit_text h \<noteq> None) hits then Inr hits
     else Inl (ValidationError [([''hits'', ''text''], ''Input should be a valid string'')]))"

definition search_memory ::
    "settings \<Rightarrow> backend \<Rightarrow> memory_store \<Rightarrow> string \<Rightarrow> nat \<Rightarrow> string \<Rightarrow> ownership_rows \<Rightarrow>
     exn + string \<times> hit list" where
  "search_memory st b m q limit name rows =
     bindr (if is_admin st name then search st b m q limit None
            else search st b m q limit (Some (owned_thread_ids rows name)))
       (\<lambda>hits. bindr (valid_hits hits) (\<lambda>hs. Inr (q, hs)))"

definition run_gc ::
    "services \<Rightarrow> 'a delete_thread \<Rightarrow> rat \<Rightarrow> 'a checkpoint_rows \<Rightarrow> (exn + sweep_summary) \<times> 'a checkpoint_rows" where
  "run_gc sv del now rows = (case sv_build sv of
       Some e \<Rightarrow> (Inl e, rows)
     | None \<Rightarrow> sweep del now (checkpoint_retention_days (sv_settings sv)) rows)"

section \<open>The main graph behind the interface\<close>

text \<open>
  One saved configuration per thread: the state after the last superstep and the node that was
  pending. A run with an input starts at the router on the saved state; without one it goes on
  from the pending node. Past checkpoints are not kept here: a checkpoint is identified with its
  thread, and editing a past one is refused.
\<close>

type_synonym saved = "(string \<times> config) list"

definition ctx_env :: "run_env \<Rightarrow> run_ctx \<Rightarrow> run_env" where
  "ctx_env base cx = base\<lparr>ctx_llm := cx_llm cx, ctx_tool_llm := cx_tool_llm cx,
     ctx_db := cx_db cx, ctx_username := cx_username cx\<rparr>"

definition saved_state :: "saved \<Rightarrow> string \<Rightarrow> graph_state" where
  "saved_state g t = (case map_of g t of None \<Rightarrow> empty_state | Some c \<Rightarrow> gstate c)"

definition engine_run :: "run_env \<Rightarrow> nat \<Rightarrow> run_ctx \<Rightarrow> string \<Rightarrow> message list option \<Rightarrow> saved \<Rightarrow>
    exn option \<times> config" where
  "engine_run base limit cx t input g = (case input of
       Some ms \<Rightarrow> invoke_graph (ctx_env base cx) limit (saved_state g t) ms
     | None \<Rightarrow> (case map_of g t of
         None \<Rightarrow> (Some (OtherError ''EmptyInputError''), \<lparr>pending = None, gstate = empty_state,
           outside = \<lparr>calls = 0, stream = []\<rparr>\<rparr>)
       | Some c \<Rightarrow> run_graph (superstep (ctx_env base cx)) ended limit
           (c\<lparr>outside := \<lparr>calls = 0, stream = []\<rparr>\<rparr>)))"

definition engine_ainvoke :: "run_env \<Rightarrow> nat \<Rightarrow> run_ctx \<Rightarrow> run_config \<Rightarrow> message list option \<Rightarrow> saved \<Rightarrow>
    (exn + graph_output) \<times> saved" where
  "engine_ainvoke base limit cx cfg input g =
     (if input = None \<and> map_of g (cfg_thread cfg) = None
      then (Inl (OtherError ''EmptyInputError''), g)
      else case engine_run base limit cx (cfg_thread cfg) input g of
        (None, c) \<Rightarrow> (Inr (output_of (gstate c)), AList.update (cfg_thread cfg) c g)
      | (Some e, c) \<Rightarrow> (Inl e, AList.update (cfg_thread cfg) c g))"

definition engine_state :: "run_config \<Rightarrow> saved \<Rightarrow> exn + snapshot" where
  "engine_state cfg g = Inr (case map_of g (cfg_thread cfg) of
       None \<Rightarrow> \<lparr>sn_checkpoint = None, sn_parent = None, sn_next = [], sn_messages = None,
         sn_status = None, sn_created_at = None, sn_source = None, sn_step = None\<rparr>
     | Some c \<Rightarrow> \<lparr>sn_checkpoint = Some (cfg_thread cfg), sn_parent = None,
         sn_next = (case pending c of None \<Rightarrow> [] | Some n \<Rightarrow> [node_name n]),
         sn_messages = Some (messages (gstate c)), sn_status = status (gstate c),
         sn_created_at = None, sn_source = None, sn_step = None\<rparr>)"

definition engine_api :: "run_env \<Rightarrow> nat \<Rightarrow> (saved, edit_value list) graph_api" where
  "engine_api base limit = \<lparr>aget_state_history = (\<lambda>cfg n g. bindr (engine_state cfg g) (\<lambda>s. Inr [s])),
     aget_state = engine_state,
     aupdate_state = (\<lambda>cfg vs n g. Inl (OtherError ''not kept'')),
     ainvoke = engine_ainvoke base limit,
     astream = (\<lambda>cx cfg ms g. (case engine_run base limit cx (cfg_thread cfg) (Some ms) g of
        (r, c) \<Rightarrow> ((r, stream (outside c)), AList.update (cfg_thread cfg) c g)))\<rparr>"

end
