(* ===== verification/Endpoint_Claims.thy ===== *)
theory Endpoint_Claims
  imports Endpoints Engine_Claims
begin

text \<open>
  Properties of the routes of \<open>app/api/v1/endpoints.py\<close>: what a \<open>/run\<close> stores and answers,
  what a stream tells its client, and where a route fails although its graph run succeeded.
  The concrete instances run the main graph behind the routes (\<open>engine_api\<close>).
\<close>

section \<open>Rows of a run\<close>

definition execution_row :: "agent_request \<Rightarrow> string \<Rightarrow> agent_execution" where
  "execution_row p stat =
     \<lparr>ex_request_id = request_id p, ex_agent_id = agent_id p, ex_status = stat\<rparr>"

lemma add_execution_simps [simp]:
  "executions (add_execution p stat d) = executions d @ [execution_row p stat]"
  "owners (add_execution p stat d) = owners d"
  by (simp_all add: add_execution_def execution_row_def)

lemma finish_run_Inr:
  "finish_run sv p r d = (Inr a, d') \<Longrightarrow> \<exists>out. r = Inr out \<and> d' = add_execution p ''completed'' d \<and>
     snd a = [''AUDIT LOG: '' @ task_description p] \<and> bindr (last_of (out_messages out))
       (\<lambda>m. AgentResponse (sv_uuid sv) (request_id p) (content m) ''success'') = Inr (fst a)"
  by (auto simp: finish_run_def last_content_def bindr_Inr_iff split: sum.splits exn.splits)

lemma run_agent_cases:
  obtains (failed) e where "run_agent api sv commit p name g d =
      (Inl e, snd (run_on_thread api sv name (owners d) (checkpoint_config (run_thread_id p) None)
         (Some [HumanMessage (task_description p)]) g), d)"
  | (answered) out resp where "fst (run_on_thread api sv name (owners d)
        (checkpoint_config (run_thread_id p) None) (Some [HumanMessage (task_description p)]) g) = Inr out"
    and "bindr (last_of (out_messages out))
       (\<lambda>m. AgentResponse (sv_uuid sv) (request_id p) (content m) ''success'') = Inr resp"
    and "run_agent api sv commit p name g d =
      (Inr (resp, [''AUDIT LOG: '' @ task_description p]),
       snd (run_on_thread api sv name (owners d) (checkpoint_config (run_thread_id p) None)
         (Some [HumanMessage (task_description p)]) g), add_execution p ''completed'' d)"
proof -
  let ?run = "run_on_thread api sv name (owners d) (checkpoint_config (run_thread_id p) None)
      (Some [HumanMessage (task_description p)]) g"
  let ?db = "get_db commit (finish_run sv p (fst ?run)) d"
  have eq: "run_agent api sv commit p name g d = (fst ?db, snd ?run, snd ?db)"
    by (simp add: run_agent_def split_beta)
  show ?thesis
  proof (cases "fst ?db")
    case (Inl e)
    with eq get_db_rollback [OF Inl] failed show ?thesis by simp
  next
    case (Inr a)
    from finish_run_Inr [OF get_db_commit [OF Inr]] obtain out where
      "fst ?run = Inr out" "snd ?db = add_execution p ''completed'' d"
      "snd a = [''AUDIT LOG: '' @ task_description p]"
      "bindr (last_of (out_messages out))
         (\<lambda>m. AgentResponse (sv_uuid sv) (request_id p) (content m) ''success'') = Inr (fst a)"
      by blast
    with eq Inr answered show ?thesis by (metis prod.collapse)
  qed
qed

section \<open>How a stream ends\<close>

lemma stream_events_cases:
  obtains (completed) cs g' where
      "stream_events api sv p name rows g = (map stream_event_of cs @ [done_event], Inr ''completed'', g')"
  | (recursion) cs g' where
      "stream_events api sv p name rows g = (map stream_event_of cs @ [recursion_event], Inr ''failed'', g')"
  | (broken) cs e g' where
      "stream_events api sv p name rows g = (map stream_event_of cs, Inl e, g')"
proof (cases "prepare sv name rows")
  case (Inl e)
  show ?thesis
  proof (cases "e = GraphRecursionError")
    case True
    with Inl recursion [of "[]" g] show ?thesis by (simp add: stream_events_def)
  next
    case False
    with Inl have "stream_events api sv p name rows g = (map stream_event_of [], Inl e, g)"
      by (cases e) (simp_all add: stream_events_def)
    then show ?thesis by (rule broken)
  qed
next
  case (Inr cx)
  obtain stop cs g' where run: "astream api cx (checkpoint_config (run_thread_id p) None)
      [HumanMessage (task_description p)] g = ((stop, cs), g')" by (metis prod.collapse)
  show ?thesis
  proof (cases stop)
    case None
    with Inr run completed show ?thesis by (simp add: stream_events_def)
  next
    case (Some e)
    show ?thesis
    proof (cases "e = GraphRecursionError")
      case True
      with Inr run Some recursion show ?thesis by (simp add: stream_events_def)
    next
      case False
      with Inr run Some have "stream_events api sv p name rows g = (map stream_event_of cs, Inl e, g')"
        by (cases e) (simp_all add: stream_events_def)
      then show ?thesis by (rule broken)
    qed
  qed
qed

section \<open>The main graph behind the routes\<close>

lemma ctx_env_simps [simp]:
  "ctx_llm (ctx_env base cx) = cx_llm cx" "ctx_tool_llm (ctx_env base cx) = cx_tool_llm cx"
  "ctx_db (ctx_env base cx) = cx_db cx" "ctx_username (ctx_env base cx) = cx_username cx"
  "env_settings (ctx_env base cx) = env_settings base"
  "add_messages (ctx_env base cx) = add_messages base"
  "appends (ctx_env base cx) = appends base"
  by (simp_all add: ctx_env_def appends_def)

lemma engine_api_simps [simp]:
  "ainvoke (engine_api base limit) = engine_ainvoke base limit"
  "aget_state (engine_api base limit) = engine_state"
  "aget_state (state_graph.truncate (engine_api base limit)) = engine_state"
  by (simp_all add: engine_api_def state_graph.defs)

lemma checkpoint_thread [simp]: "cfg_thread (checkpoint_config t c) = t"
  by (simp add: checkpoint_config_def)

lemma engine_answer:
  assumes "engine_ainvoke base limit cx cfg (Some ms) g = (Inr out, g')"
  shows "\<exists>c. invoke_graph (ctx_env base cx) limit (saved_state g (cfg_thread cfg)) ms = (None, c) \<and>
     out = output_of (gstate c) \<and> g' = AList.update (cfg_thread cfg) c g"
  using assms by (auto simp: engine_ainvoke_def engine_run_def split: prod.splits option.splits)

text \<open>An answered run on a thread, with the context the routes prepare.\<close>

lemma run_on_thread_answer:
  assumes "run_on_thread (engine_api base limit) sv name rows cfg (Some ms) g = (Inr out, g')"
  shows "\<exists>cx c. cx_db cx = Some rows \<and> cx_username cx = name \<and>
     invoke_graph (ctx_env base cx) limit (saved_state g (cfg_thread cfg)) ms = (None, c) \<and>
     out = output_of (gstate c) \<and> g' = AList.update (cfg_thread cfg) c g"
proof -
  from assms obtain cx where cx: "prepare sv name rows = Inr cx"
    and run: "engine_ainvoke base limit cx cfg (Some ms) g = (Inr out, g')"
    by (auto simp: run_on_thread_def split: sum.splits)
  from cx have "cx_db cx = Some rows" "cx_username cx = name"
    by (auto simp: prepare_def bindr_Inr_iff split: option.splits)
  with engine_answer [OF run] show ?thesis by blast
qed

lemma run_agent_answer:
  assumes "run_agent (engine_api base limit) sv commit p name g d = (Inr (resp, tasks), g', d')"
  shows "\<exists>cx c m. cx_db cx = Some (owners d) \<and> cx_username cx = name \<and>
     invoke_graph (ctx_env base cx) limit (saved_state g (run_thread_id p))
       [HumanMessage (task_description p)] = (None, c) \<and>
     g' = AList.update (run_thread_id p) c g \<and>
     last_of (messages (gstate c)) = Inr m \<and> resp_output resp = content m"
proof (cases rule: run_agent_cases [where api = "engine_api base limit" and sv = sv
      and commit = commit and p = p and name = name and g = g and d = d])
  case (failed e)
  with assms show ?thesis by simp
next
  case (answered out resp')
  let ?run = "run_on_thread (engine_api base limit) sv name (owners d)
      (checkpoint_config (run_thread_id p) None) (Some [HumanMessage (task_description p)]) g"
  from answered(1,3) assms have "?run = (Inr out, g')" and resp: "resp' = resp"
    by (auto simp: prod_eq_iff)
  from run_on_thread_answer [OF this(1)] answered(2) resp show ?thesis
    by (fastforce simp: output_of_def bindr_Inr_iff AgentResponse_def split: option.splits)
qed

text \<open>Without a session the memory retriever stops the run of every caller but the admin.\<close>

lemma no_session_stops:
  assumes "appends env" and "ctx_db env = None" and "\<not> is_admin (env_settings env) (ctx_username env)"
  shows "\<exists>c. invoke_graph env (Suc (Suc k)) s [HumanMessage q] = (Some (AttributeError ''scalars''), c)"
proof -
  let ?c = "start_config env s [HumanMessage q]"
  have m: "last_of (messages (gstate ?c)) = Inr (HumanMessage q)"
    by (simp add: start_messages [OF assms(1)] last_of_def)
  obtain c1 where c1: "superstep env ?c = (None, c1)" "pending c1 = Some Memory_retriever"
    "messages (gstate c1) = messages (gstate ?c)"
    by (rule router_superstep [of ?c, OF _ m]) simp_all
  have "scoped_search env q 2 = Inl (AttributeError ''scalars'')"
    using assms(2,3) by (simp add: scoped_search_def)
  with c1 m have "superstep env c1 = (Some (AttributeError ''scalars''), c1)"
    by (simp add: superstep_def retrieve_semantic_memories_def)
  with c1 show ?thesis by (simp add: invoke_graph_def ended_def)
qed

section \<open>Concrete services\<close>

definition sample_services_record :: "exn option \<Rightarrow> services" where
  "sample_services_record e = \<lparr>sv_settings = default_settings, sv_build = e,
     sv_tools = Inr [''get_current_time''], sv_llm = ctx_llm (sample_env []),
     sv_bind = (\<lambda>ts. ctx_llm (sample_env [])),
     sv_uuid = (\<lambda>t. if t = ''0001'' then Some t else None)\<rparr>"

definition sample_request :: "string \<Rightarrow> agent_request" where
  "sample_request q = \<lparr>request_id = ''0001'', conversation_id = None, task_description = q,
     agent_id = ''agent-1'', priority = 1, metadata = None\<rparr>"

definition sample_session :: session where
  "sample_session = \<lparr>owners = sample_rows, executions = []\<rparr>"

definition sample_run :: "nat \<Rightarrow> string \<Rightarrow> (exn + agent_response \<times> string list) \<times> saved \<times> session" where
  "sample_run limit q = run_agent (engine_api (sample_env []) limit) (sample_services_record None)
     (\<lambda>_. None) (sample_request q) ''alice'' [] sample_session"

section \<open>Properties\<close>

text \<open>C37. What \<open>/run\<close> stores: an answered request adds exactly one execution row with status
  completed, and one that raises adds none, since the session is rolled back; so the status
  failed, which the handler sets for a recursion or agent error, is never stored, while the
  thread keeps what its run had done. A recursion error reaches the client as the
  application's own error with the agent id.\<close>

theorem run_agent_rows:
  "\<exists>run r g' d'. run = run_on_thread api sv name (owners d)
       (checkpoint_config (run_thread_id p) None) (Some [HumanMessage (task_description p)]) g \<and>
     run_agent api sv commit p name g d = (r, g', d') \<and> g' = snd run \<and> owners d' = owners d \<and>
     (case r of
        Inl e \<Rightarrow> executions d' = executions d
      | Inr (resp, tasks) \<Rightarrow> executions d' = executions d @ [execution_row p ''completed''] \<and>
          tasks = [''AUDIT LOG: '' @ task_description p]) \<and>
     (case fst run of
        Inl GraphRecursionError \<Rightarrow>
          r = Inl (Agentic (MaxRecursionError (Details_dict [(''agent_id'', agent_id p)])))
      | Inl e \<Rightarrow> r = Inl e
      | Inr _ \<Rightarrow> True)"
proof (cases rule: run_agent_cases
    [where api = api and sv = sv and commit = commit and p = p and name = name and g = g and d = d])
  case (failed e)
  let ?run = "run_on_thread api sv name (owners d) (checkpoint_config (run_thread_id p) None)
      (Some [HumanMessage (task_description p)]) g"
  from failed have "Inl e = fst (get_db commit (finish_run sv p (fst ?run)) d)"
    by (simp add: run_agent_def split_beta)
  then have "case fst ?run of
        Inl GraphRecursionError \<Rightarrow>
          Inl e = (Inl (Agentic (MaxRecursionError (Details_dict [(''agent_id'', agent_id p)]))) ::
             exn + agent_response \<times> string list)
      | Inl x \<Rightarrow> Inl e = (Inl x :: exn + agent_response \<times> string list)
      | Inr _ \<Rightarrow> True"
    by (cases "fst ?run") (auto simp: finish_run_def get_db_def split: exn.splits)
  with failed show ?thesis by auto
next
  case (answered out resp)
  then show ?thesis by auto
qed

text \<open>A \<open>/run\<close> on a question classified as an investment question answers with the
  caller's own text: the investment path adds no message and the route returns the last one.\<close>

theorem run_echoes_investment_question:
  assumes "appends base" and "classify (task_description p) = Investment"
    and "run_agent (engine_api base limit) sv commit p name g d = (Inr (resp, tasks), g', d')"
  shows "resp_output resp = task_description p"
proof -
  from run_agent_answer [OF assms(3)] obtain cx c m where
    c: "invoke_graph (ctx_env base cx) limit (saved_state g (run_thread_id p))
       [HumanMessage (task_description p)] = (None, c)"
    and m: "last_of (messages (gstate c)) = Inr m" "resp_output resp = content m" by blast
  from invoke_talk(3) [OF _ _ c] assms(1,2) have "messages (gstate c) =
      messages (saved_state g (run_thread_id p)) @ [HumanMessage (task_description p)]" by simp
  with m show ?thesis by auto
qed

text \<open>Isolation of memories: whatever a caller who is not the admin asks, an answered \<open>/run\<close>
  has put into the model's context only texts of stored memories that are tagged with threads
  the ownership table of its session assigns to that caller, and no more than 2000 characters.\<close>

theorem run_context_isolated:
  assumes "appends base" and "query_law (env_backend base)"
    and "\<not> is_admin (env_settings base) name" and "rows_ok (owners d)"
    and "run_agent (engine_api base limit) sv commit p name g d = (Inr (resp, tasks), g', d')"
  shows "\<exists>ctx. retrieved_context (saved_state g' (run_thread_id p)) = Some ctx \<and>
    sum_list (map length ctx) \<le> 2000 \<and>
    (\<forall>x \<in> set ctx. \<exists>pt \<in> set (points (env_memory base)). \<exists>t. map_of (payload pt) ''text'' = Some x \<and>
       map_of (payload pt) ''thread_id'' = Some t \<and> select_owner t (owners d) = Some name)"
proof -
  from run_agent_answer [OF assms(5)] obtain cx c where
    cx: "cx_db cx = Some (owners d)" "cx_username cx = name"
    and c: "invoke_graph (ctx_env base cx) limit (saved_state g (run_thread_id p))
       [HumanMessage (task_description p)] = (None, c)"
    and g': "g' = AList.update (run_thread_id p) c g" by blast
  let ?env = "ctx_env base cx"
  from invoke_context [OF _ _ c] assms(1) obtain hits ctx where
    hits: "scoped_search ?env (task_description p) 2 = Inr hits"
    and fit: "fit_context MAX_CONTEXT_CHARS hits = Inr ctx"
    and ctx: "retrieved_context (gstate c) = Some ctx" by (auto simp: fetched_def)
  from fit_context_spec [OF fit] obtain n where n: "map hit_text (take n hits) = map Some ctx"
    and len: "sum_list (map length ctx) \<le> MAX_CONTEXT_CHARS" by blast
  have "\<exists>pt \<in> set (points (env_memory base)). \<exists>t. map_of (payload pt) ''text'' = Some x \<and>
       map_of (payload pt) ''thread_id'' = Some t \<and> select_owner t (owners d) = Some name"
    if "x \<in> set ctx" for x
  proof -
    from that have "Some x \<in> set (map hit_text (take n hits))" unfolding n by simp
    then obtain h where h: "h \<in> set hits" "hit_text h = Some x" by (auto dest: in_set_takeD)
    have "query_law (env_backend ?env)" "\<not> is_admin (env_settings ?env) (ctx_username ?env)"
      "ctx_db ?env = Some (owners d)" "env_memory ?env = env_memory base"
      using assms(2,3) cx by (simp_all add: ctx_env_def)
    with scoped_search_owned [OF this(1-3) assms(4) hits h(1)] h(2) cx(2) show ?thesis
      by auto
  qed
  moreover have "saved_state g' (run_thread_id p) = gstate c"
    by (simp add: saved_state_def g' update_conv')
  ultimately show ?thesis using ctx len by (simp add: MAX_CONTEXT_CHARS_def)
qed

lemma sample_run_answered: "\<not> isl (fst (sample_run 8 ''Should I invest in AAPL?''))"
  by code_simp

theorem run_echoes_investment_question_witness:
  "\<exists>resp rest. sample_run 8 ''Should I invest in AAPL?'' = (Inr resp, rest) \<and>
     resp_output (fst resp) = ''Should I invest in AAPL?''"
proof -
  obtain resp tasks g' d' where run:
      "sample_run 8 ''Should I invest in AAPL?'' = (Inr (resp, tasks), g', d')"
    using sample_run_answered by (metis prod.collapse sum.collapse(2))
  have "resp_output resp = task_description (sample_request ''Should I invest in AAPL?'')"
    by (rule run_echoes_investment_question [OF sample_appends _ run [unfolded sample_run_def]])
      (simp add: sample_request_def)
  with run show ?thesis by (simp add: sample_request_def)
qed

theorem run_context_isolated_witness:
  "\<exists>resp g' d'. sample_run 8 ''Should I invest in AAPL?'' = (Inr resp, g', d') \<and>
     retrieved_context (saved_state g' ''0001'') \<noteq> None"
proof -
  obtain resp tasks g' d' where run:
      "sample_run 8 ''Should I invest in AAPL?'' = (Inr (resp, tasks), g', d')"
    using sample_run_answered by (metis prod.collapse sum.collapse(2))
  have "query_law (env_backend (sample_env []))" "\<not> is_admin (env_settings (sample_env [])) ''alice''"
    "rows_ok (owners sample_session)"
    using sample_query_law
    by (simp_all add: sample_env_def is_admin_def default_settings_def sample_session_def
        sample_rows_def rows_ok_def)
  from run_context_isolated [OF sample_appends this run [unfolded sample_run_def]]
  have "retrieved_context (saved_state g' (run_thread_id (sample_request ''Should I invest in AAPL?''))) \<noteq> None"
    by auto
  with run show ?thesis by (auto simp: run_thread_id_def sample_request_def)
qed

text \<open>C38. \<open>/analyze\<close> fails for every caller who is not the admin: its context carries no
  session, and the memory retriever every run passes asks the missing session for the
  caller's threads.\<close>

theorem analyze_fails_without_session:
  assumes "appends base" and "\<not> is_admin (env_settings base) name" and "2 \<le> limit"
    and "sv_build sv = None"
  shows "fst (analyze_investment (engine_api base limit) sv fresh symbol name g) =
    Inl (AttributeError ''scalars'')"
proof -
  obtain k where limit: "limit = Suc (Suc k)"
    using assms(3) by (metis Suc_le_D numeral_2_eq_2 Suc_le_mono)
  let ?cx = "\<lparr>cx_llm = sv_llm sv, cx_tool_llm = None, cx_db = None, cx_username = name\<rparr>"
  from no_session_stops [of "ctx_env base ?cx"] assms(1,2) obtain c where
    "invoke_graph (ctx_env base ?cx) limit (saved_state g (''analyze:'' @ name @ '':'' @ fresh))
      [HumanMessage (''Analyze '' @ symbol)] = (Some (AttributeError ''scalars''), c)"
    unfolding limit by fastforce
  with assms(4) show ?thesis
    by (simp add: analyze_investment_def engine_ainvoke_def engine_run_def)
qed

theorem analyze_fails_without_session_witness:
  "fst (analyze_investment (engine_api (sample_env []) 8) (sample_services_record None) ''u1''
     ''AAPL'' ''alice'' []) = Inl (AttributeError ''scalars'')"
  by (rule analyze_fails_without_session [OF sample_appends])
    (simp_all add: sample_env_def is_admin_def default_settings_def sample_services_record_def)

text \<open>Resuming an interrupted run executes its pending nodes and then answers with an
  error: the response names the caller's user name as its request id, which is not a UUID.\<close>

theorem resume_runs_then_fails:
  assumes "sv_build sv = None" and "is_interrupted (state_graph.truncate api) thread g = Inr True"
    and "run_on_thread api sv name rows (checkpoint_config thread None) None g = (Inr out, g')"
    and "out_messages out \<noteq> []" and "sv_uuid sv name = None"
  shows "resume_thread api sv thread name rows g =
    (Inl (ValidationError [([''request_id''], ''Input should be a valid UUID'')]), g')"
  using assms by (simp add: resume_thread_def last_content_def last_of_def AgentResponse_def)

definition sample_interrupted :: saved where
  "sample_interrupted = [(''t1'', \<lparr>pending = Some Billing_worker,
     gstate = empty_state\<lparr>messages := [HumanMessage ''my invoice'']\<rparr>,
     outside = \<lparr>calls = 0, stream = []\<rparr>\<rparr>)]"

lemma sample_resumed: "case run_on_thread (engine_api (sample_env []) 8) (sample_services_record None)
    ''alice'' sample_rows (checkpoint_config ''t1'' None) None sample_interrupted of
      (Inl e, g') \<Rightarrow> False
    | (Inr out, g') \<Rightarrow> map content (out_messages out) = [''my invoice'', ''ok''] \<and>
        map_option pending (map_of g' ''t1'') = Some None"
  by code_simp

theorem resume_runs_then_fails_witness:
  "\<exists>g'. resume_thread (engine_api (sample_env []) 8) (sample_services_record None) ''t1'' ''alice''
      sample_rows sample_interrupted =
    (Inl (ValidationError [([''request_id''], ''Input should be a valid UUID'')]), g') \<and>
    map_option pending (map_of g' ''t1'') = Some None"
proof -
  obtain out g' where run: "run_on_thread (engine_api (sample_env []) 8) (sample_services_record None)
      ''alice'' sample_rows (checkpoint_config ''t1'' None) None sample_interrupted = (Inr out, g')"
    "map content (out_messages out) = [''my invoice'', ''ok'']"
    "map_option pending (map_of g' ''t1'') = Some None"
    using sample_resumed by (auto split: prod.splits sum.splits)
  have "is_interrupted (state_graph.truncate (engine_api (sample_env []) 8)) ''t1'' sample_interrupted
      = Inr True"
    by (simp add: is_interrupted_def engine_state_def sample_interrupted_def)
  from resume_runs_then_fails [OF _ this run(1)] run(2,3) show ?thesis
    by (auto simp: sample_services_record_def)
qed

text \<open>What a stream's client sees: one event per chunk of the run, and at the end exactly
  one closing event - done, with a completed row stored, or the recursion error, with a failed
  row stored - unless another exception breaks the stream off, which stores nothing.\<close>

theorem stream_closing_event:
  "\<exists>cs closing d'. run_agent_stream api sv (\<lambda>_. None) p name g d =
       (map stream_event_of cs @ closing, snd (snd (stream_events api sv p name (owners d) g)), d') \<and>
     (closing = [done_event] \<and> executions d' = executions d @ [execution_row p ''completed''] \<or>
      closing = [recursion_event] \<and> executions d' = executions d @ [execution_row p ''failed''] \<or>
      closing = [] \<and> d' = d)"
proof (cases rule: stream_events_cases [where api = api and sv = sv and p = p and name = name
      and rows = "owners d" and g = g])
  case (completed cs g')
  then show ?thesis by (intro exI [of _ cs]) (simp add: run_agent_stream_def get_db_def)
next
  case (recursion cs g')
  then show ?thesis by (intro exI [of _ cs]) (simp add: run_agent_stream_def get_db_def)
next
  case (broken cs e g')
  then show ?thesis by (intro exI [of _ cs]) (simp add: run_agent_stream_def get_db_def)
qed

text \<open>The cache key of \<open>/ask\<close> separates callers and questions as long as no user name
  holds a colon.\<close>

theorem ask_cache_key_separates:
  assumes "CHR '':'' \<notin> set name" and "CHR '':'' \<notin> set name'"
    and "ask_cache_key ns name q = ask_cache_key ns name' q'"
  shows "name = name' \<and> q = q'"
proof -
  from assms(3) have "name @ CHR '':'' # q = name' @ CHR '':'' # q'"
    by (simp add: ask_cache_key_def)
  with assms(1,2) show ?thesis
    by (auto simp: append_eq_append_conv2 Cons_eq_append_conv append_eq_Cons_conv)
qed

theorem ask_cache_key_separates_witness:
  "ask_cache_key ''c'' ''alice'' ''q'' \<noteq> ask_cache_key ''c'' ''bob'' ''q''"
  using ask_cache_key_separates [of "''alice''" "''bob''" "''c''" "''q''" "''q''"] by auto

lemma ask_cache_key_collides: "ask_cache_key ns ''a'' ''b:c'' = ask_cache_key ns ''a:b'' ''c''"
  by (simp add: ask_cache_key_def)

end
