(* ===== verification/Main_App.thy ===== *)
theory Main_App
  imports Endpoint_Claims
begin

text \<open>
  The application itself, \<open>app/main.py\<close>: request ids (\<open>app/core/context.py\<close>), the exception
  handlers that turn a raised exception into an answer, the middleware around them, and the
  smoke test. The clock and the timer of \<open>asyncio.wait_for\<close> are parameters. Start-up and the
  wiring of the connections are I/O; the background sweep is in theory \<open>GC\<close>.
\<close>

text \<open>\<open>GET /\<close>\<close>

definition root_status :: "(string \<times> string) list" where
  "root_status = [(''status'', ''Active''), (''message'', ''Sovereign Agent Node Online'')]"

section \<open>Answers\<close>

datatype 'b body = Error_body error_response | Detail string | Data 'b

record 'b http_response =
  answer_status :: int
  answer_headers :: "(string \<times> string) list"
  answer_body :: "'b body"

definition REQUEST_ID_HEADER :: string where
  "REQUEST_ID_HEADER = ''X-Request-ID''"

text \<open>\<open>get_request_id() or None\<close>\<close>

definition current_trace :: "string \<Rightarrow> string option" where
  "current_trace rid = (if rid = [] then None else Some rid)"

definition error_body :: "string \<Rightarrow> string \<Rightarrow> string \<Rightarrow> details \<Rightarrow> 'b body" where
  "error_body rid code msg d = Error_body \<lparr>success = False, er_code = code, er_message = msg,
     er_details = d, trace_id = current_trace rid\<rparr>"

definition handle_agentic_exception :: "string \<Rightarrow> agentic_exception \<Rightarrow> 'b http_response" where
  "handle_agentic_exception rid x = \<lparr>answer_status = status_code x, answer_headers = [],
     answer_body = error_body rid (error_code x) (message x) (details x)\<rparr>"

definition handle_graph_recursion :: "string \<Rightarrow> 'b http_response" where
  "handle_graph_recursion rid =
     handle_agentic_exception rid (MaxRecursionError (Details_dict [(''source'', ''langgraph'')]))"

definition handle_validation_error :: "string \<Rightarrow> string list \<Rightarrow> 'b http_response" where
  "handle_validation_error rid errs = \<lparr>answer_status = 422, answer_headers = [],
     answer_body = error_body rid ''VALIDATION_ERROR'' ''Request body failed validation.''
       (Details_list errs)\<rparr>"

definition handle_rate_limit :: "string \<Rightarrow> string \<Rightarrow> int \<Rightarrow> 'b http_response" where
  "handle_rate_limit rid limit retry_after = \<lparr>answer_status = 429,
     answer_headers = [(''Retry-After'', show_int retry_after)],
     answer_body = error_body rid ''RATE_LIMIT_EXCEEDED'' (''Rate limit exceeded: '' @ limit)
       (Details_dict [(''limit'', limit)])\<rparr>"

text \<open>
  The registered handlers, and the framework's own for \<open>HTTPException\<close>; an exception with no
  handler leaves the application (\<open>None\<close>).
\<close>

fun handle_exception :: "string \<Rightarrow> exn \<Rightarrow> 'b http_response option" where
  "handle_exception rid (Agentic x) = Some (handle_agentic_exception rid x)"
| "handle_exception rid GraphRecursionError = Some (handle_graph_recursion rid)"
| "handle_exception rid (RequestValidationError errs) = Some (handle_validation_error rid errs)"
| "handle_exception rid (RateLimitExceeded limit retry) = Some (handle_rate_limit rid limit retry)"
| "handle_exception rid (HTTPException code detail) =
     Some \<lparr>answer_status = code, answer_headers = [], answer_body = Detail detail\<rparr>"
| "handle_exception rid _ = None"

definition route_response :: "string \<Rightarrow> exn + 'b \<Rightarrow> 'b http_response option" where
  "route_response rid r = (case r of
       Inl e \<Rightarrow> handle_exception rid e
     | Inr b \<Rightarrow> Some \<lparr>answer_status = 200, answer_headers = [], answer_body = Data b\<rparr>)"

text \<open>
  \<open>request_id_middleware\<close>: the incoming id, or a fresh one, is put into the context, and into
  the headers of the answer, if there is one.
\<close>

definition request_id_for :: "string \<Rightarrow> string option \<Rightarrow> string" where
  "request_id_for fresh incoming =
     (case incoming of None \<Rightarrow> fresh | Some h \<Rightarrow> if h = [] then fresh else h)"

definition request_id_middleware ::
    "string \<Rightarrow> string option \<Rightarrow> (string \<Rightarrow> 'b http_response option) \<Rightarrow> 'b http_response option" where
  "request_id_middleware fresh incoming call_next =
     (let rid = request_id_for fresh incoming in
      case call_next rid of
        None \<Rightarrow> None
      | Some resp \<Rightarrow> Some (resp\<lparr>answer_headers :=
          AList.update REQUEST_ID_HEADER rid (answer_headers resp)\<rparr>))"

text \<open>What the client receives: the framework answers an exception that left the application.\<close>

definition serve :: "string \<Rightarrow> string option \<Rightarrow> exn + 'b \<Rightarrow> 'b http_response" where
  "serve fresh incoming r =
     (case request_id_middleware fresh incoming (\<lambda>rid. route_response rid r) of
        Some resp \<Rightarrow> resp
      | None \<Rightarrow> \<lparr>answer_status = 500, answer_headers = [],
          answer_body = Detail ''Internal Server Error''\<rparr>)"

section \<open>The smoke test\<close>

record smoke_response =
  sm_test_id :: string
  sm_graph_state :: string
  sm_llm_response :: string
  sm_latency_ms :: rat
  sm_status :: string

definition SMOKE_TEST_TIMEOUT_S :: nat where
  "SMOKE_TEST_TIMEOUT_S = 60"

text \<open>No user is authenticated: the context names the demo account, and carries no session.\<close>

definition smoke_context :: "services \<Rightarrow> string list \<Rightarrow> run_ctx" where
  "smoke_context sv ts = \<lparr>cx_llm = sv_llm sv, cx_tool_llm = Some (sv_bind sv ts), cx_db = None,
     cx_username = demo_username (sv_settings sv)\<rparr>"

definition smoke_outcome :: "string \<Rightarrow> rat \<Rightarrow> rat \<Rightarrow> exn + graph_output \<Rightarrow> exn + smoke_response" where
  "smoke_outcome test_id t0 t1 r =
     (case bindr r last_content of
        Inr t \<Rightarrow> Inr \<lparr>sm_test_id = test_id, sm_graph_state = ''COMPLETED'', sm_llm_response = t,
          sm_latency_ms = (t1 - t0) * 1000, sm_status = ''PASS''\<rparr>
      | Inl TimeoutError \<Rightarrow> Inl (HTTPException 504 ''System Ignition Timed Out'')
      | Inl _ \<Rightarrow> Inl (HTTPException 500 ''System Ignition Failed''))"

definition run_smoke_test ::
    "('g, 'v) graph_api \<Rightarrow> services \<Rightarrow>
     (nat \<Rightarrow> (exn + graph_output) \<times> 'g \<Rightarrow> (exn + graph_output) \<times> 'g) \<Rightarrow> rat \<times> rat \<Rightarrow>
     string \<Rightarrow> string \<Rightarrow> 'g \<Rightarrow> (exn + smoke_response) \<times> 'g" where
  "run_smoke_test api sv wait_for clock test_id payload_text g =
     (let (r, g') = (case sv_build sv of
          Some e \<Rightarrow> (Inl e, g)
        | None \<Rightarrow> (case sv_tools sv of
            Inl e \<Rightarrow> (Inl e, g)
          | Inr ts \<Rightarrow> wait_for SMOKE_TEST_TIMEOUT_S (ainvoke api (smoke_context sv ts)
              (checkpoint_config (''smoke:'' @ test_id) None) (Some [HumanMessage payload_text]) g)))
      in (smoke_outcome test_id (fst clock) (snd clock) r, g'))"

text \<open>A timer that lets the result through when the awaited call was quick enough, and raises
  otherwise.\<close>

definition wait_for_law ::
    "(nat \<Rightarrow> (exn + graph_output) \<times> 'g \<Rightarrow> (exn + graph_output) \<times> 'g) \<Rightarrow> bool" where
  "wait_for_law wait_for \<longleftrightarrow> (\<forall>n r. wait_for n r = r \<or> fst (wait_for n r) = Inl TimeoutError)"

lemma smoke_success:
  assumes "wait_for_law wait_for"
    and "run_smoke_test api sv wait_for clock test_id q g = (Inr resp, g')"
  shows "\<exists>ts out m. ainvoke api (smoke_context sv ts) (checkpoint_config (''smoke:'' @ test_id) None)
       (Some [HumanMessage q]) g = (Inr out, g') \<and>
     last_of (out_messages out) = Inr m \<and> sm_llm_response resp = content m"
proof -
  have out: "\<exists>out m. r = Inr out \<and> last_of (out_messages out) = Inr m \<and> sm_llm_response resp = content m"
    if "smoke_outcome test_id t0 t1 r = Inr resp" for r t0 t1
    using that by (auto simp: smoke_outcome_def last_content_def bindr_Inr_iff
        split: sum.splits exn.splits)
  from assms(2) obtain r where r: "smoke_outcome test_id (fst clock) (snd clock) r = Inr resp"
    and run: "(case sv_build sv of
          Some e \<Rightarrow> (Inl e, g)
        | None \<Rightarrow> (case sv_tools sv of
            Inl e \<Rightarrow> (Inl e, g)
          | Inr ts \<Rightarrow> wait_for SMOKE_TEST_TIMEOUT_S (ainvoke api (smoke_context sv ts)
              (checkpoint_config (''smoke:'' @ test_id) None) (Some [HumanMessage q]) g))) = (r, g')"
    unfolding run_smoke_test_def Let_def by (auto split: prod.splits)
  from out [OF r] obtain out m where o: "r = Inr out" "last_of (out_messages out) = Inr m"
    "sm_llm_response resp = content m" by blast
  from run o(1) obtain ts where "wait_for SMOKE_TEST_TIMEOUT_S (ainvoke api (smoke_context sv ts)
      (checkpoint_config (''smoke:'' @ test_id) None) (Some [HumanMessage q]) g) = (Inr out, g')"
    by (auto split: option.splits sum.splits)
  with assms(1) have "ainvoke api (smoke_context sv ts) (checkpoint_config (''smoke:'' @ test_id) None)
      (Some [HumanMessage q]) g = (Inr out, g')"
    unfolding wait_for_law_def by (metis fst_conv sum.distinct(1))
  with o show ?thesis by blast
qed

section \<open>Properties\<close>

text \<open>Tracing: every answer of a handler, error or not, carries the request's id in its
  header - the incoming one if it is not empty - and an error body repeats it as its trace id.
  Only an exception without a handler is answered without it, with a bare 500.\<close>

theorem answers_are_traced:
  assumes "fresh \<noteq> []"
  shows "map_of (answer_headers (serve fresh incoming r)) REQUEST_ID_HEADER =
         Some (request_id_for fresh incoming) \<and>
       (case answer_body (serve fresh incoming r) of
          Error_body b \<Rightarrow> trace_id b = Some (request_id_for fresh incoming) \<and> \<not> success b
        | _ \<Rightarrow> True) \<or>
     (\<exists>e. r = Inl e \<and> handle_exception (request_id_for fresh incoming) e = (None :: 'b http_response option)
        \<and> serve fresh incoming r = \<lparr>answer_status = 500, answer_headers = [],
          answer_body = Detail ''Internal Server Error'' :: 'b body\<rparr>)"
proof -
  from assms have rid: "request_id_for fresh incoming \<noteq> []"
    by (simp add: request_id_for_def split: option.split)
  show ?thesis
  proof (cases r)
    case (Inr b)
    then show ?thesis by (simp add: serve_def request_id_middleware_def route_response_def Let_def)
  next
    case (Inl e)
    with rid show ?thesis
      by (cases e) (simp_all add: serve_def request_id_middleware_def route_response_def Let_def
          handle_agentic_exception_def handle_graph_recursion_def handle_validation_error_def
          handle_rate_limit_def error_body_def current_trace_def update_conv')
  qed
qed

theorem answers_are_traced_witness:
  "map_of (answer_headers (serve ''f1'' None (Inl GraphRecursionError :: exn + unit))) REQUEST_ID_HEADER
     = Some ''f1''"
  using answers_are_traced [of "''f1''" None "Inl GraphRecursionError :: exn + unit"]
  by (simp add: request_id_for_def)

text \<open>The smoke test reads everybody's memories: a smoke run that completes, which needs
  no authentication, has put into its context what the unrestricted search over all users'
  threads gave for the text the caller sent.\<close>

theorem smoke_test_searches_all:
  assumes "appends base" and "env_settings base = sv_settings sv" and "wait_for_law wait_for"
    and "run_smoke_test (engine_api base limit) sv wait_for clock test_id q g = (Inr resp, g')"
  shows "\<exists>hits ctx. search (env_settings base) (env_backend base) (env_memory base) q 2 None = Inr hits \<and>
     fit_context MAX_CONTEXT_CHARS hits = Inr ctx \<and>
     retrieved_context (saved_state g' (''smoke:'' @ test_id)) = Some ctx"
proof -
  from smoke_success [OF assms(3,4)] obtain ts out where
    "engine_ainvoke base limit (smoke_context sv ts) (checkpoint_config (''smoke:'' @ test_id) None)
       (Some [HumanMessage q]) g = (Inr out, g')" by auto
  from engine_answer [OF this] obtain c where
    c: "invoke_graph (ctx_env base (smoke_context sv ts)) limit
        (saved_state g (''smoke:'' @ test_id)) [HumanMessage q] = (None, c)"
    and g': "g' = AList.update (''smoke:'' @ test_id) c g" by auto
  have "fetched (ctx_env base (smoke_context sv ts)) q (gstate c)"
    using invoke_context [OF _ _ c] assms(1) by simp
  moreover have "scoped_search (ctx_env base (smoke_context sv ts)) q 2 =
      search (env_settings base) (env_backend base) (env_memory base) q 2 None"
    by (simp add: scoped_search_def is_admin_def smoke_context_def assms(2) ctx_env_def)
  ultimately show ?thesis by (simp add: fetched_def g' saved_state_def update_conv')
qed

definition sample_smoke :: "(exn + smoke_response) \<times> saved" where
  "sample_smoke = run_smoke_test (engine_api (sample_env []) 8) (sample_services_record None)
     (\<lambda>n r. r) (0, 1) ''ST-1'' ''hello'' []"

lemma sample_smoke_passes: "\<not> isl (fst sample_smoke)"
  by code_simp

theorem smoke_test_searches_all_witness:
  "\<exists>resp g'. sample_smoke = (Inr resp, g') \<and>
     retrieved_context (saved_state g' ''smoke:ST-1'') = Some [''the sky is blue'']"
proof -
  obtain resp g' where run: "sample_smoke = (Inr resp, g')"
    using sample_smoke_passes by (metis prod.collapse sum.collapse(2))
  have "wait_for_law (\<lambda>n r. r :: (exn + graph_output) \<times> saved)" by (simp add: wait_for_law_def)
  from smoke_test_searches_all [OF sample_appends _ this run [unfolded sample_smoke_def]]
  have "\<exists>hits ctx. search default_settings sample_backend sample_memory ''hello'' 2 None = Inr hits \<and>
     fit_context MAX_CONTEXT_CHARS hits = Inr ctx \<and>
     retrieved_context (saved_state g' ''smoke:ST-1'') = Some ctx"
    by (simp add: sample_env_def sample_services_record_def)
  moreover have "search default_settings sample_backend sample_memory ''hello'' 2 None =
      Inr [\<lparr>score = 1, hit_text = Some ''the sky is blue'', hit_thread_id = Some ''t1''\<rparr>]"
    by (simp add: search_def sample_backend_def sample_memory_def has_collection_def
        default_settings_def hit_of_def)
  ultimately show ?thesis using run by (auto simp: MAX_CONTEXT_CHARS_def)
qed

end
