(* ===== verification/Lifespan.thy ===== *)
theory Lifespan
  imports GC
begin

text \<open>
  The application's lifespan, \<open>app/main.py\<close>: building the graph, connecting the checkpoint pool on
  an exit stack, starting the sweep loop, connecting the response cache, serving, and the
  unwinding of the stack - which also happens when a later start-up step raises. What each
  call answers is a parameter; the model keeps the order in which resources are acquired and
  released. Also the row counts of the retention statistics (\<open>app/api/v1/endpoints.py\<close>).
\<close>

section \<open>Resources on an exit stack\<close>

datatype event = Graph_built | Pool_opened | Saver_attached | Gc_started | Cache_connected
  | Cache_unavailable | Served | Gc_cancelled | Pool_closed

text \<open>What happened so far, and the callbacks to run at the end, the last registered first.\<close>

record startup =
  happened :: "event list"
  callbacks :: "event list"

definition log :: "event \<Rightarrow> startup \<Rightarrow> startup" where
  "log e s = s\<lparr>happened := happened s @ [e]\<rparr>"

definition on_exit :: "event \<Rightarrow> startup \<Rightarrow> startup" where
  "on_exit e s = s\<lparr>callbacks := e # callbacks s\<rparr>"

type_synonym step = "startup \<Rightarrow> exn option \<times> startup"

text \<open>A call that may raise, and what it leaves when it does not.\<close>

definition attempt :: "exn option \<Rightarrow> (startup \<Rightarrow> startup) \<Rightarrow> step" where
  "attempt r f s = (case r of Some e \<Rightarrow> (Some e, s) | None \<Rightarrow> (None, f s))"

definition followed_by :: "step \<Rightarrow> step \<Rightarrow> step" where
  "followed_by a b s = (case a s of (Some e, s') \<Rightarrow> (Some e, s') | (None, s') \<Rightarrow> b s')"

definition exit_stack :: "step \<Rightarrow> step" where
  "exit_stack body s = (case body (s\<lparr>callbacks := []\<rparr>) of
       (r, s') \<Rightarrow> (r, \<lparr>happened = happened s' @ callbacks s', callbacks = callbacks s\<rparr>))"

section \<open>The lifespan\<close>

text \<open>The answers of the calls of a start-up: \<open>None\<close> when the call returns.\<close>

record answers =
  building :: "exn option"
  entering :: "exn option"
  connecting :: "exn option"
  setting_up :: "exn option"
  caching :: "exn option"
  serving :: "exn option"

definition enter_pool :: "answers \<Rightarrow> step" where
  "enter_pool a = followed_by (attempt (entering a) (on_exit Pool_closed \<circ> log Pool_opened))
     (attempt (connecting a) id)"

definition attach_saver :: "answers \<Rightarrow> step" where
  "attach_saver a = attempt (setting_up a) (log Saver_attached)"

definition start_gc :: step where
  "start_gc = attempt None (on_exit Gc_cancelled \<circ> log Gc_started)"

text \<open>The cache's failure is caught and logged.\<close>

definition connect_cache :: "answers \<Rightarrow> step" where
  "connect_cache a s = (case caching a of
       None \<Rightarrow> (None, log Cache_connected s)
     | Some _ \<Rightarrow> (None, log Cache_unavailable s))"

definition serve_requests :: "answers \<Rightarrow> step" where
  "serve_requests a s = (serving a, log Served s)"

definition lifespan :: "answers \<Rightarrow> step" where
  "lifespan a = followed_by (attempt (building a) (log Graph_built))
     (exit_stack (followed_by (enter_pool a) (followed_by (attach_saver a)
        (followed_by start_gc (followed_by (connect_cache a) (serve_requests a))))))"

definition app_run :: "answers \<Rightarrow> exn option \<times> event list" where
  "app_run a = map_prod id happened (lifespan a \<lparr>happened = [], callbacks = []\<rparr>)"

lemmas lifespan_defs = app_run_def lifespan_def followed_by_def exit_stack_def attempt_def
  enter_pool_def attach_saver_def start_gc_def connect_cache_def serve_requests_def
  log_def on_exit_def

section \<open>Retention statistics\<close>

record gc_stats =
  st_checkpoints :: nat
  st_writes :: nat
  st_blobs :: nat
  st_threads :: nat
  st_oldest :: "rat option"
  st_retention_days :: int

text \<open>\<open>_STATS_QUERY\<close>: counts of the three tables, the number of distinct threads, and the least
  time stamp, which is NULL on an empty table.\<close>

definition gc_stats :: "'a checkpoint_rows \<Rightarrow> nat \<Rightarrow> nat \<Rightarrow> int \<Rightarrow> gc_stats" where
  "gc_stats rows writes blobs days = \<lparr>st_checkpoints = length rows, st_writes = writes,
     st_blobs = blobs, st_threads = length (remdups (map ck_thread rows)),
     st_oldest = (case rows of [] \<Rightarrow> None | r # rs \<Rightarrow> Some (fold (\<lambda>r. min (ck_ts r)) rs (ck_ts r))),
     st_retention_days = days\<rparr>"

lemma threads_card: "st_threads (gc_stats rows w b days) = card (ck_thread ` set rows)"
  by (simp add: gc_stats_def length_remdups_card_conv)

lemma fold_min: "fold (\<lambda>r. min (ck_ts r)) rs m = Min (insert m (ck_ts ` set rs))"
proof (induction rs arbitrary: m)
  case Nil
  then show ?case by simp
next
  case (Cons r rs)
  have "fold (\<lambda>r. min (ck_ts r)) (r # rs) m = Min (insert (min (ck_ts r) m) (ck_ts ` set rs))"
    using Cons.IH by simp
  also have "\<dots> = Min (insert m (ck_ts ` set (r # rs)))"
    by (cases "rs = []") (simp_all add: min.commute min.left_commute)
  finally show ?case .
qed

lemma oldest_Min: "st_oldest (gc_stats rows w b days) = (if rows = [] then None else Some (Min (ck_ts ` set rows)))"
  by (simp add: gc_stats_def fold_min split: list.split)

section \<open>Properties\<close>

text \<open>The service runs exactly when the graph is built and the pool and the saver are ready
  - the cache does not matter - and then with the persistent saver attached and the sweep
  running. In every case what was acquired is released, in reverse order: a pool that was
  opened is closed last, after the sweep loop, if it was started, has been cancelled.\<close>

theorem lifespan_releases:
  "app_run a = (case (building a, entering a, connecting a, setting_up a) of
      (Some e, _, _, _) \<Rightarrow> (Some e, [])
    | (None, Some e, _, _) \<Rightarrow> (Some e, [Graph_built])
    | (None, None, Some e, _) \<Rightarrow> (Some e, [Graph_built, Pool_opened, Pool_closed])
    | (None, None, None, Some e) \<Rightarrow> (Some e, [Graph_built, Pool_opened, Pool_closed])
    | (None, None, None, None) \<Rightarrow> (serving a, [Graph_built, Pool_opened, Saver_attached, Gc_started,
        if caching a = None then Cache_connected else Cache_unavailable, Served,
        Gc_cancelled, Pool_closed]))"
  by (simp add: lifespan_defs split: option.split)


text \<open>The statistics agree with the sweep: after an undisturbed sweep they report exactly the
  deleted threads less, no more rows than before, and an oldest checkpoint that is not older
  than the one before; on an empty table, and only there, no oldest one.\<close>

theorem stats_after_sweep:
  assumes "delete_law del" and "never_fails del"
    and "sweep del now days rows = (Inr summary, rows')"
  shows "st_threads (gc_stats rows' w b days) + deleted summary = st_threads (gc_stats rows w b days) \<and>
    st_checkpoints (gc_stats rows' w b days) \<le> st_checkpoints (gc_stats rows w b days) \<and>
    (case (st_oldest (gc_stats rows w b days), st_oldest (gc_stats rows' w b days)) of
       (Some t, Some t') \<Rightarrow> t \<le> t' | (None, t') \<Rightarrow> rows = [] \<and> t' = None | (_, None) \<Rightarrow> rows' = [])"
proof -
  let ?st = "find_stale_threads now days rows"
  from assms(3) have s: "deleted summary = length ?st"
    "rows' = filter (\<lambda>r. ck_thread r \<notin> set ?st) rows"
    by (auto simp: sweep_eq [OF assms(1,2)])
  have "ck_thread ` set rows = set ?st \<union> ck_thread ` set rows'"
    and disj: "set ?st \<inter> ck_thread ` set rows' = {}"
    by (auto simp: s(2) find_stale_iff)
  moreover have "card (set ?st) = length ?st"
    by (rule distinct_card) (simp add: find_stale_threads_def)
  ultimately have "card (ck_thread ` set rows) = length ?st + card (ck_thread ` set rows')"
    by (simp add: card_Un_disjoint)
  moreover have "length rows' \<le> length rows" by (simp add: s(2))
  moreover have "Min (ck_ts ` set rows) \<le> Min (ck_ts ` set rows')" if "rows' \<noteq> []"
    using that by (intro Min_antimono) (auto simp: s(2) filter_empty_conv)
  ultimately show ?thesis
    by (auto simp: threads_card oldest_Min s(1)) (auto simp: gc_stats_def s(2))
qed

theorem stats_after_sweep_witness:
  "\<exists>summary rows'. sweep pg_delete (100 * 86400) 30 sample_rows = (Inr summary, rows') \<and>
    st_threads (gc_stats rows' 0 0 30) + deleted summary = st_threads (gc_stats sample_rows 0 0 30)"
proof -
  obtain summary rows' where run: "sweep pg_delete (100 * 86400) 30 sample_rows = (Inr summary, rows')"
    using sweep_eq [OF pg_delete_ok] by blast
  from stats_after_sweep [OF pg_delete_ok run] run show ?thesis by blast
qed

end
