(* ===== verification/Doubles.thy ===== *)
theory Doubles
  imports Prelude "HOL-Library.Log_Nat"
begin

text \<open>
  Python's floats as far as the risk server needs them: positive numbers, represented by the
  rational they stand for. \<open>double_of\<close> rounds to the nearest number with a significand of 53
  bits, ties to even, with the gradual underflow of the format; \<open>mul\<close> is the correctly rounded
  product and \<open>round2\<close> the built-in \<open>round(x, 2)\<close>, which rounds the exact value to two decimals,
  ties to even, and then to the nearest double. Overflow is far outside the inputs the
  server accepts.
\<close>

section \<open>Rounding to an integer\<close>

definition round_even :: "rat \<Rightarrow> int" where
  "round_even x = (let f = \<lfloor>x\<rfloor>; r = x - of_int f in
     if r < 1 / 2 then f else if 1 / 2 < r then f + 1 else if even f then f else f + 1)"

lemma round_even_range: "round_even x = \<lfloor>x\<rfloor> \<or> round_even x = \<lfloor>x\<rfloor> + 1"
  by (simp add: round_even_def Let_def)

lemma round_even_error: "\<bar>of_int (round_even x) - x\<bar> \<le> 1 / 2"
  using floor_correct [of x] by (auto simp: round_even_def Let_def abs_le_iff)

lemma round_even_int [simp]: "round_even (of_int n) = n"
  by (simp add: round_even_def)

lemma round_even_mono: "x \<le> y \<Longrightarrow> round_even x \<le> round_even y"
proof -
  assume le: "x \<le> y"
  show ?thesis
  proof (cases "\<lfloor>x\<rfloor> = \<lfloor>y\<rfloor>")
    case True
    with le show ?thesis by (auto simp: round_even_def Let_def)
  next
    case False
    with floor_mono [OF le] have "\<lfloor>x\<rfloor> + 1 \<le> \<lfloor>y\<rfloor>" by simp
    with round_even_range [of x] round_even_range [of y] show ?thesis by auto
  qed
qed

lemma round_even_le: "x \<le> of_int n \<Longrightarrow> round_even x \<le> n"
  using round_even_mono [of x "of_int n"] by simp

lemma round_even_ge: "of_int n \<le> x \<Longrightarrow> n \<le> round_even x"
  using round_even_mono [of "of_int n" x] by simp

lemma round_even_eq: "of_int n - 1 / 2 < x \<Longrightarrow> x < of_int n + 1 / 2 \<Longrightarrow> round_even x = n"
proof -
  assume "of_int n - 1 / 2 < x" "x < of_int n + 1 / 2"
  with round_even_error [of x]
  have "(of_int n :: rat) < of_int (round_even x) + 1" "of_int (round_even x) < (of_int n :: rat) + 1"
    by linarith+
  then show ?thesis by linarith
qed

section \<open>Rounding to a double\<close>

text \<open>The least positive double, and the distance of neighbouring doubles around a number.\<close>

definition least :: rat where
  "least = 1 / 2 ^ 1074"

definition ulp :: "rat \<Rightarrow> rat" where
  "ulp x = 2 ^ nat (bitlen \<lfloor>x / least\<rfloor> - 53) * least"

definition double_of :: "rat \<Rightarrow> rat" where
  "double_of x = of_int (round_even (x / ulp x)) * ulp x"

definition mul :: "rat \<Rightarrow> rat \<Rightarrow> rat" where
  "mul x y = double_of (x * y)"

definition round2 :: "rat \<Rightarrow> rat" where
  "round2 x = double_of (of_int (round_even (x * 100)) / 100)"

lemma least_pos [simp]: "0 < least"
  by (simp add: least_def)

lemma ulp_pos [simp]: "0 < ulp x" "ulp x \<noteq> 0"
  by (simp_all add: ulp_def less_imp_neq [OF least_pos, symmetric])

lemma floor_div_bounds:
  fixes x d :: rat
  assumes "0 < d"
  shows "of_int \<lfloor>x / d\<rfloor> * d \<le> x" "x < (of_int \<lfloor>x / d\<rfloor> + 1) * d"
  using assms floor_correct [of "x / d"] by (simp_all only: pos_le_divide_eq pos_divide_less_eq of_int_add of_int_1)

lemma bitlen_above: "0 \<le> n \<Longrightarrow> n + 1 \<le> 2 ^ nat (bitlen n)"
  using bitlen_bounds [of n] by (cases "n = 0") (auto simp del: one_le_floor)

lemma floor_least_nonneg: "0 \<le> x \<Longrightarrow> 0 \<le> \<lfloor>x / least\<rfloor>"
  by (simp add: less_imp_le)

lemma ulp_upper: "0 \<le> x \<Longrightarrow> x < 2 ^ 53 * ulp x"
proof -
  assume "0 \<le> x"
  let ?n = "\<lfloor>x / least\<rfloor>"
  have "?n + 1 \<le> 2 ^ nat (bitlen ?n)"
    by (rule bitlen_above [OF floor_least_nonneg [OF \<open>0 \<le> x\<close>]])
  also have "\<dots> \<le> 2 ^ (53 + nat (bitlen ?n - 53))"
    by (rule power_increasing) auto
  finally have "of_int (?n + 1) \<le> (of_int (2 ^ (53 + nat (bitlen ?n - 53))) :: rat)"
    by (simp only: of_int_le_iff)
  then have "(of_int ?n + 1) * least \<le> 2 ^ (53 + nat (bitlen ?n - 53)) * least"
    by (intro mult_right_mono) (simp_all add: less_imp_le)
  with floor_div_bounds(2) [OF least_pos, of x]
  have "x < 2 ^ (53 + nat (bitlen ?n - 53)) * least" by (rule less_le_trans)
  then show ?thesis by (simp only: ulp_def power_add mult.assoc)
qed

lemma ulp_lower: "0 \<le> x \<Longrightarrow> ulp x = least \<or> 2 ^ 52 * ulp x \<le> x"
proof -
  assume "0 \<le> x"
  let ?n = "\<lfloor>x / least\<rfloor>"
  show ?thesis
  proof (cases "bitlen ?n \<le> 53")
    case True
    then show ?thesis by (simp add: ulp_def)
  next
    case False
    then have "?n \<noteq> 0" by auto
    with floor_least_nonneg [OF \<open>0 \<le> x\<close>] have "0 < ?n" by linarith
    from bitlen_bounds [OF this] have "2 ^ nat (bitlen ?n - 1) \<le> ?n" by simp
    moreover have "nat (bitlen ?n - 1) = 52 + nat (bitlen ?n - 53)" using False by simp
    ultimately have "of_int (2 ^ (52 + nat (bitlen ?n - 53))) \<le> (of_int ?n :: rat)"
      by (simp only: of_int_le_iff)
    then have "2 ^ (52 + nat (bitlen ?n - 53)) * least \<le> of_int ?n * least"
      by (intro mult_right_mono) (simp_all add: less_imp_le)
    from order_trans [OF this floor_div_bounds(1) [OF least_pos, of x]] show ?thesis
      by (simp only: ulp_def power_add mult.assoc simp_thms)
  qed
qed


lemma bitlen_mono: "m \<le> n \<Longrightarrow> bitlen m \<le> bitlen n"
  by (simp add: bitlen_def floorlog_mono nat_mono)

lemma ulp_mono: "x \<le> y \<Longrightarrow> ulp x \<le> ulp y"
proof -
  assume "x \<le> y"
  then have "\<lfloor>x / least\<rfloor> \<le> \<lfloor>y / least\<rfloor>"
    by (intro floor_mono divide_right_mono) (simp_all add: less_imp_le)
  from bitlen_mono [OF this] show ?thesis
    unfolding ulp_def by (intro mult_right_mono power_increasing) (simp_all add: less_imp_le)
qed

text \<open>The doubles around \<open>x\<close> are at most \<open>q\<close> apart when \<open>x\<close> has no more than 53 bits above it.\<close>

lemma ulp_le: "0 \<le> x \<Longrightarrow> q = 2 ^ k * least \<Longrightarrow> x < 2 ^ 53 * q \<Longrightarrow> ulp x \<le> q"
proof (rule ccontr)
  assume x: "0 \<le> x" and q: "q = 2 ^ k * least" "x < 2 ^ 53 * q" and "\<not> ulp x \<le> q"
  then have "q < ulp x" by simp
  then have "(2 :: rat) ^ k < 2 ^ nat (bitlen \<lfloor>x / least\<rfloor> - 53)"
    by (simp add: q(1) ulp_def)
  then have "k < nat (bitlen \<lfloor>x / least\<rfloor> - 53)" by simp
  then have "(2 :: rat) ^ Suc k \<le> 2 ^ nat (bitlen \<lfloor>x / least\<rfloor> - 53)"
    by (intro power_increasing) simp_all
  then have two: "2 * q \<le> ulp x"
    by (simp add: q(1) ulp_def mult.assoc [symmetric])
  have "q \<ge> least" by (simp add: q(1))
  with two have "ulp x \<noteq> least" using least_pos by linarith
  with ulp_lower [OF x] have "2 ^ 52 * ulp x \<le> x" by simp
  with two q(2) show False by simp
qed

section \<open>What rounding promises\<close>

lemma double_of_error: "\<bar>double_of x - x\<bar> \<le> ulp x / 2"
proof -
  have "double_of x - x = (of_int (round_even (x / ulp x)) - x / ulp x) * ulp x"
    by (simp add: double_of_def left_diff_distrib)
  then have "\<bar>double_of x - x\<bar> = \<bar>of_int (round_even (x / ulp x)) - x / ulp x\<bar> * ulp x"
    by (simp add: abs_mult less_imp_le)
  also have "\<dots> \<le> 1 / 2 * ulp x"
    by (rule mult_right_mono [OF round_even_error]) (simp add: less_imp_le)
  finally show ?thesis by simp
qed

lemma double_of_mono: "0 \<le> x \<Longrightarrow> x \<le> y \<Longrightarrow> double_of x \<le> double_of y"
proof -
  assume x: "0 \<le> x" and le: "x \<le> y"
  show ?thesis
  proof (cases "ulp x = ulp y")
    case True
    have "round_even (x / ulp y) \<le> round_even (y / ulp y)"
      by (intro round_even_mono divide_right_mono le) (simp add: less_imp_le)
    with True show ?thesis by (simp add: double_of_def)
  next
    case False
    with ulp_mono [OF le] have less: "ulp x < ulp y" by simp
    then have "nat (bitlen \<lfloor>x / least\<rfloor> - 53) < nat (bitlen \<lfloor>y / least\<rfloor> - 53)"
      by (simp add: ulp_def)
    then have "Suc (nat (bitlen \<lfloor>x / least\<rfloor> - 53)) \<le> nat (bitlen \<lfloor>y / least\<rfloor> - 53)"
      by (rule Suc_leI)
    then have "(2 :: rat) ^ Suc (nat (bitlen \<lfloor>x / least\<rfloor> - 53)) \<le> 2 ^ nat (bitlen \<lfloor>y / least\<rfloor> - 53)"
      by (rule power_increasing) simp
    then have two: "2 * ulp x \<le> ulp y"
      by (simp add: ulp_def mult.assoc [symmetric])
    have "least \<le> ulp x" by (simp add: ulp_def)
    with less have "ulp y \<noteq> least" by simp
    with ulp_lower [of y] x le have low: "2 ^ 52 * ulp y \<le> y" by simp
    have "round_even (x / ulp x) \<le> 2 ^ 53"
      using ulp_upper [OF x] by (intro round_even_le) (simp add: pos_divide_le_eq less_imp_le)
    then have "double_of x \<le> of_int (2 ^ 53) * ulp x"
      unfolding double_of_def by (intro mult_right_mono) (simp_all only: of_int_le_iff, simp add: less_imp_le)
    also have "\<dots> \<le> of_int (2 ^ 52) * ulp y" using two by simp
    also have "2 ^ 52 \<le> round_even (y / ulp y)"
      using low by (intro round_even_ge) (simp add: pos_le_divide_eq)
    then have "of_int (2 ^ 52) * ulp y \<le> double_of y"
      unfolding double_of_def by (intro mult_right_mono) (simp_all only: of_int_le_iff, simp add: less_imp_le)
    finally show ?thesis .
  qed
qed

lemma double_of_nonneg: "0 \<le> x \<Longrightarrow> 0 \<le> double_of x"
  unfolding double_of_def by (intro mult_nonneg_nonneg) (simp_all add: round_even_ge less_imp_le)

text \<open>A multiple of a power of two with few enough bits is a double.\<close>

lemma double_of_exact:
  assumes "0 \<le> n" and "n < 2 ^ 53" and "q = 2 ^ k * least"
  shows "double_of (of_int n * q) = of_int n * q"
proof -
  have q: "0 < q" by (simp add: assms(3))
  have x: "0 \<le> of_int n * q" using assms(1) q by simp
  have "(of_int n :: rat) < of_int (2 ^ 53)" using assms(2) by (simp only: of_int_less_iff)
  then have "of_int n * q < 2 ^ 53 * q" using q by simp
  from ulp_le [OF x assms(3) this] have le: "ulp (of_int n * q) \<le> 2 ^ k * least"
    by (simp only: assms(3))
  obtain m where m: "ulp (of_int n * q) = 2 ^ m * least" using ulp_def by blast
  with le have "m \<le> k" by simp
  then obtain j where "k = m + j" by (auto simp only: le_iff_add)
  with m assms(3) have "q = 2 ^ j * ulp (of_int n * q)"
    by (simp only: power_add mult_ac)
  then obtain u where u: "u = ulp (of_int n * q)" "q = 2 ^ j * u" "u \<noteq> 0"
    using ulp_pos(2) by blast
  have "double_of (of_int n * q) = of_int (round_even (of_int n * q / u)) * u"
    by (simp only: double_of_def u(1))
  also have "of_int n * q / u = of_int (n * 2 ^ j)" using u(2,3) by simp
  also have "of_int (round_even (of_int (n * 2 ^ j))) * u = of_int n * q"
    by (simp only: round_even_int) (simp add: u(2))
  finally show ?thesis .
qed

end
