(* ===== verification/Risk.thy ===== *)
theory Risk
  imports Doubles Json
begin

text \<open>
  The risk server, \<open>app/mcp/risk_server.py\<close>: the validation of the tool's arguments, the
  score in floating point, and the band. The properties relate the score to the exact product
  of exposure, rate and multiplier.
\<close>

section \<open>The tool\<close>

datatype industry = Finance | Tech | Healthcare | Manufacturing

definition parse_industry :: "string \<Rightarrow> industry option" where
  "parse_industry s = map_of [(''Finance'', Finance), (''Tech'', Tech),
     (''Healthcare'', Healthcare), (''Manufacturing'', Manufacturing)] s"

text \<open>The literals of the table, as written, and the doubles they denote.\<close>

fun rate :: "industry \<Rightarrow> rat" where
  "rate Finance = 15 / 100"
| "rate Tech = 8 / 100"
| "rate Healthcare = 12 / 100"
| "rate Manufacturing = 5 / 100"

definition base_rate :: "industry \<Rightarrow> rat" where
  "base_rate i = double_of (rate i)"

definition multiplier :: "bool \<Rightarrow> rat" where
  "multiplier is_regulated = (if is_regulated then 3 / 2 else 1)"

text \<open>\<open>exposure_value * base_rates[industry] * multiplier\<close>, before and after \<open>round(..., 2)\<close>.\<close>

definition raw_score :: "rat \<Rightarrow> industry \<Rightarrow> bool \<Rightarrow> rat" where
  "raw_score exposure i is_regulated = mul (mul exposure (base_rate i)) (multiplier is_regulated)"

definition score_of :: "rat \<Rightarrow> industry \<Rightarrow> bool \<Rightarrow> rat" where
  "score_of exposure i is_regulated = round2 (raw_score exposure i is_regulated)"

definition band_of :: "rat \<Rightarrow> string" where
  "band_of score = (if score > 100000 then ''High'' else ''Standard'')"

record risk_report =
  entity :: string
  risk_score :: rat
  band :: string
  logic_version :: string

text \<open>The framework validates every argument and reports all that fail.\<close>

definition argument_errors :: "string \<Rightarrow> rat \<Rightarrow> (string list \<times> string) list" where
  "argument_errors ind exposure =
     (if parse_industry ind = None then [([''industry''],
        ''Input should be 'Finance', 'Tech', 'Healthcare' or 'Manufacturing'' @ [CHR 0x27])] else []) @
     (if exposure \<le> 0 then [([''exposure_value''], ''Input should be greater than 0'')] else []) @
     (if exposure > 1000000000 then [([''exposure_value''],
        ''Input should be less than or equal to 1000000000'')] else [])"

definition calculate_corporate_risk ::
    "string \<Rightarrow> string \<Rightarrow> rat \<Rightarrow> bool \<Rightarrow> exn + risk_report" where
  "calculate_corporate_risk company ind exposure is_regulated =
     (case (argument_errors ind exposure, parse_industry ind) of
        ([], Some i) \<Rightarrow> (let score = score_of exposure i is_regulated in
          Inr \<lparr>entity = company, risk_score = score, band = band_of score,
            logic_version = ''2026.09.0''\<rparr>)
      | (errs, _) \<Rightarrow> Inl (ValidationError errs))"

section \<open>How far the score is from the exact product\<close>

definition exact_score :: "rat \<Rightarrow> industry \<Rightarrow> bool \<Rightarrow> rat" where
  "exact_score exposure i is_regulated = exposure * rate i * multiplier is_regulated"

text \<open>Everything the computation passes through is below \<open>2 ^ 28\<close>, where doubles are at most
  \<open>2 ^ -25\<close> apart; the rates are below one, where they are at most \<open>2 ^ -53\<close> apart.\<close>

lemma quantum_28: "1 / 2 ^ 25 = 2 ^ 1049 * least"
  by (simp add: least_def)

lemma quantum_1: "1 / 2 ^ 53 = 2 ^ 1021 * least"
  by (simp add: least_def)

lemma double_28: "0 \<le> x \<Longrightarrow> x < 2 ^ 28 \<Longrightarrow> \<bar>double_of x - x\<bar> \<le> 1 / 67108864"
  using double_of_error [of x] ulp_le [OF _ quantum_28, of x] by simp

lemma double_1: "0 \<le> x \<Longrightarrow> x < 1 \<Longrightarrow> \<bar>double_of x - x\<bar> \<le> 1 / 18014398509481984"
  using double_of_error [of x] ulp_le [OF _ quantum_1, of x] by simp

lemma rate_bounds: "0 < rate i" "rate i \<le> 15 / 100"
  by (cases i; simp)+

lemma multiplier_bounds: "1 \<le> multiplier r" "multiplier r \<le> 3 / 2" "0 \<le> multiplier r"
  by (simp_all add: multiplier_def)

lemma base_rate_error: "\<bar>base_rate i - rate i\<bar> \<le> 1 / 18014398509481984"
  unfolding base_rate_def using rate_bounds [of i] by (intro double_1) simp_all

lemma base_rate_bounds: "0 \<le> base_rate i" "base_rate i \<le> 16 / 100"
proof -
  show "0 \<le> base_rate i"
    unfolding base_rate_def using rate_bounds [of i] by (intro double_of_nonneg) simp
  show "base_rate i \<le> 16 / 100" using base_rate_error [of i] rate_bounds [of i] by linarith
qed


lemma scaled_error: "\<bar>a - b\<bar> \<le> e \<Longrightarrow> 0 \<le> c \<Longrightarrow> c \<le> d \<Longrightarrow> \<bar>c * a - c * b\<bar> \<le> d * (e :: rat)"
proof -
  assume "\<bar>a - b\<bar> \<le> e" "0 \<le> c" "c \<le> d"
  then have "c * \<bar>a - b\<bar> \<le> d * e" by (intro mult_mono) simp_all
  moreover have "\<bar>c * a - c * b\<bar> = c * \<bar>a - b\<bar>"
    using \<open>0 \<le> c\<close> by (simp add: abs_mult flip: right_diff_distrib)
  ultimately show ?thesis by simp
qed

text \<open>The product with the rate, then with the multiplier.\<close>

lemma product_error:
  assumes "0 < x" "x \<le> 1000000000"
  shows "\<bar>mul x (base_rate i) - x * rate i\<bar> \<le> 1 / 10000000"
    and "0 \<le> mul x (base_rate i)" "mul x (base_rate i) \<le> 160000001"
proof -
  have pos: "0 \<le> x * base_rate i" using assms base_rate_bounds [of i] by simp
  have "x * base_rate i \<le> 1000000000 * (16 / 100)"
    using assms base_rate_bounds [of i] by (intro mult_mono) simp_all
  then have le: "x * base_rate i \<le> 160000000" by simp
  with double_28 [OF pos] have d: "\<bar>mul x (base_rate i) - x * base_rate i\<bar> \<le> 1 / 67108864"
    by (simp add: mul_def)
  moreover have "\<bar>x * base_rate i - x * rate i\<bar> \<le> 1000000000 * (1 / 18014398509481984)"
    using assms by (intro scaled_error base_rate_error) simp_all
  ultimately show "\<bar>mul x (base_rate i) - x * rate i\<bar> \<le> 1 / 10000000"
    by linarith
  show "0 \<le> mul x (base_rate i)" using pos by (simp add: mul_def double_of_nonneg)
  from d le show "mul x (base_rate i) \<le> 160000001" by linarith
qed

lemma raw_score_error:
  assumes "0 < x" "x \<le> 1000000000"
  shows "\<bar>raw_score x i r - exact_score x i r\<bar> \<le> 1 / 1000000"
    and "0 \<le> raw_score x i r" "raw_score x i r \<le> 250000000"
proof -
  let ?p = "mul x (base_rate i)"
  note p = product_error [OF assms, of i]
  have pos: "0 \<le> ?p * multiplier r" using p(2) multiplier_bounds by simp
  have "?p * multiplier r \<le> 160000001 * (3 / 2)"
    using p(3) multiplier_bounds by (intro mult_mono) simp_all
  then have le: "?p * multiplier r \<le> 240000002" by simp
  with double_28 [OF pos] have d: "\<bar>raw_score x i r - ?p * multiplier r\<bar> \<le> 1 / 67108864"
    by (simp add: raw_score_def mul_def)
  moreover have "\<bar>multiplier r * ?p - multiplier r * (x * rate i)\<bar> \<le> 3 / 2 * (1 / 10000000)"
    using multiplier_bounds by (intro scaled_error p(1)) simp_all
  ultimately show "\<bar>raw_score x i r - exact_score x i r\<bar> \<le> 1 / 1000000"
    by (simp only: exact_score_def mult.commute [of "multiplier r"])
  show "0 \<le> raw_score x i r" using pos by (simp add: raw_score_def mul_def double_of_nonneg)
  from d le show "raw_score x i r \<le> 250000000" by linarith
qed

lemma round2_error:
  assumes "0 \<le> x" "x \<le> 250000000"
  shows "\<bar>round2 x - x\<bar> \<le> 1 / 200 + 1 / 67108864"
proof -
  have pos: "0 \<le> of_int (round_even (x * 100)) / (100 :: rat)"
    using assms by (simp add: round_even_ge)
  have d: "\<bar>of_int (round_even (x * 100)) / 100 - x\<bar> \<le> 1 / 200"
    using round_even_error [of "x * 100"] by linarith
  with assms(2) have "of_int (round_even (x * 100)) / 100 < (268435456 :: rat)" by linarith
  then have "of_int (round_even (x * 100)) / 100 < (2 :: rat) ^ 28" by simp
  from double_28 [OF pos this] d show ?thesis unfolding round2_def by linarith
qed

lemma round2_mono: "0 \<le> x \<Longrightarrow> x \<le> y \<Longrightarrow> round2 x \<le> round2 y"
  unfolding round2_def
  by (intro double_of_mono divide_right_mono)
    (simp_all add: round_even_ge round_even_mono of_int_le_iff)

text \<open>The band's threshold is a double, and the next two-decimal number is above it.\<close>

lemma threshold_exact: "double_of 100000 = 100000"
proof -
  have "(1 :: rat) = 2 ^ 1074 * least" by (simp add: least_def)
  from double_of_exact [of 100000, OF _ _ this] show ?thesis by simp
qed

lemma round2_low: "0 \<le> x \<Longrightarrow> x \<le> 100000 + 49 / 10000 \<Longrightarrow> round2 x \<le> 100000"
proof -
  assume x: "0 \<le> x" "x \<le> 100000 + 49 / 10000"
  have "round_even (x * 100) \<le> round_even (10000000 + 49 / 100)"
    using x by (intro round_even_mono) simp
  also have "round_even (10000000 + 49 / 100) = 10000000" by (rule round_even_eq) simp_all
  finally have "of_int (round_even (x * 100)) \<le> (of_int 10000000 :: rat)"
    by (simp only: of_int_le_iff)
  then have "round2 x \<le> double_of 100000"
    unfolding round2_def using x by (intro double_of_mono) (simp_all add: round_even_ge)
  then show ?thesis by (simp add: threshold_exact)
qed

lemma round2_high: "100000 + 51 / 10000 \<le> x \<Longrightarrow> x \<le> 250000000 \<Longrightarrow> 100000 < round2 x"
proof -
  assume x: "100000 + 51 / 10000 \<le> x" "x \<le> 250000000"
  have "round2 (100000 + 51 / 10000) \<le> round2 x" using x(1) by (intro round2_mono) simp_all
  moreover have "round_even (10000000 + 51 / 100) = 10000001"
    by (rule round_even_eq) simp_all
  then have "round2 (100000 + 51 / 10000) = double_of (10000001 / 100)"
    by (simp add: round2_def)
  moreover have "\<bar>double_of (10000001 / 100) - 10000001 / 100\<bar> \<le> 1 / 67108864"
    by (rule double_28) simp_all
  ultimately show ?thesis by linarith
qed


section \<open>Properties\<close>

lemma accepted_iff:
  "calculate_corporate_risk company ind x r = Inr rep \<longleftrightarrow>
   (\<exists>i. parse_industry ind = Some i \<and> 0 < x \<and> x \<le> 1000000000 \<and>
      rep = \<lparr>entity = company, risk_score = score_of x i r, band = band_of (score_of x i r),
        logic_version = ''2026.09.0''\<rparr>)"
  by (auto simp: calculate_corporate_risk_def argument_errors_def Let_def split: option.splits)

text \<open>C28. The score is the exact product of exposure, rate and multiplier to within half a cent
  and a millionth, in spite of the binary rounding of the rate and of every operation; the
  band is decided by the exact product wherever that is not within a tenth of a cent of the
  rounding point above 100000.\<close>

theorem risk_score_accurate:
  assumes "calculate_corporate_risk company ind x r = Inr rep" and "parse_industry ind = Some i"
  shows "\<bar>risk_score rep - exact_score x i r\<bar> \<le> 5 / 1000 + 2 / 1000000 \<and>
    (exact_score x i r \<le> 100000 + 48 / 10000 \<longrightarrow> band rep = ''Standard'') \<and>
    (100000 + 52 / 10000 \<le> exact_score x i r \<longrightarrow> band rep = ''High'')"
proof -
  from assms have x: "0 < x" "x \<le> 1000000000" and rep: "risk_score rep = round2 (raw_score x i r)"
    "band rep = band_of (round2 (raw_score x i r))" by (auto simp: accepted_iff score_of_def)
  note raw = raw_score_error [OF x, of i r]
  have "\<bar>round2 (raw_score x i r) - exact_score x i r\<bar> \<le> 5 / 1000 + 2 / 1000000"
    using round2_error [OF raw(2,3)] raw(1) by linarith
  moreover have "band_of (round2 (raw_score x i r)) = ''Standard''"
    if "exact_score x i r \<le> 100000 + 48 / 10000"
  proof -
    have "raw_score x i r \<le> 100000 + 49 / 10000" using that raw(1) by linarith
    from round2_low [OF raw(2) this] show ?thesis by (simp add: band_of_def)
  qed
  moreover have "band_of (round2 (raw_score x i r)) = ''High''"
    if "100000 + 52 / 10000 \<le> exact_score x i r"
  proof -
    have "100000 + 51 / 10000 \<le> raw_score x i r" using that raw(1) by linarith
    from round2_high [OF this raw(3)] show ?thesis by (simp add: band_of_def)
  qed
  ultimately show ?thesis unfolding rep by blast
qed

definition sample_report :: "rat \<Rightarrow> risk_report" where
  "sample_report x = \<lparr>entity = ''ACME'', risk_score = score_of x Finance True,
     band = band_of (score_of x Finance True), logic_version = ''2026.09.0''\<rparr>"

lemma parse_Finance: "parse_industry ''Finance'' = Some Finance"
  by (simp add: parse_industry_def)

lemma sample_accepted: "0 < x \<Longrightarrow> x \<le> 1000000000 \<Longrightarrow>
    calculate_corporate_risk ''ACME'' ''Finance'' x True = Inr (sample_report x)"
  by (simp add: accepted_iff parse_Finance sample_report_def)

theorem risk_score_accurate_witness:
  "\<bar>risk_score (sample_report 200000) - 45000\<bar> \<le> 5 / 1000 + 2 / 1000000 \<and>
   band (sample_report 200000) = ''Standard'' \<and> band (sample_report 444445) = ''High''"
  using risk_score_accurate [OF sample_accepted [of 200000] parse_Finance]
    risk_score_accurate [OF sample_accepted [of 444445] parse_Finance]
  by (simp add: exact_score_def multiplier_def)

text \<open>The tool accepts exactly the four sectors with an exposure above zero and at most one
  billion, and reports every argument that is not; on accepted arguments a larger exposure or
  a regulated entity never lowers the score, nor takes the band from High to Standard.\<close>

theorem risk_score_monotone:
  "(case calculate_corporate_risk company ind x r of
      Inl e \<Rightarrow> e = ValidationError (argument_errors ind x) \<and>
        \<not> (parse_industry ind \<noteq> None \<and> 0 < x \<and> x \<le> 1000000000)
    | Inr a \<Rightarrow> parse_industry ind \<noteq> None \<and> 0 < x \<and> x \<le> 1000000000 \<and> entity a = company \<and>
        (case calculate_corporate_risk company' ind y r' of
           Inl e \<Rightarrow> True
         | Inr b \<Rightarrow> x \<le> y \<and> (r \<longrightarrow> r') \<longrightarrow> risk_score a \<le> risk_score b \<and>
             (band a = ''High'' \<longrightarrow> band b = ''High'')))"
proof -
  have mono: "score_of x i r \<le> score_of y i r'"
    if "0 < x" "x \<le> y" "x \<le> 1000000000" "r \<longrightarrow> r'" for i
  proof -
    have "mul x (base_rate i) \<le> mul y (base_rate i)"
      unfolding mul_def using that base_rate_bounds [of i]
      by (intro double_of_mono mult_right_mono) simp_all
    moreover have "multiplier r \<le> multiplier r'" using that(4) by (auto simp: multiplier_def)
    ultimately have "mul x (base_rate i) * multiplier r \<le> mul y (base_rate i) * multiplier r'"
      using product_error(2) [OF that(1,3), of i] multiplier_bounds by (intro mult_mono) simp_all
    then have "raw_score x i r \<le> raw_score y i r'"
      unfolding raw_score_def mul_def [of _ "multiplier _"]
      using product_error(2) [OF that(1,3), of i] multiplier_bounds
      by (intro double_of_mono) simp_all
    then show ?thesis
      unfolding score_of_def using raw_score_error(2) [OF that(1,3)] by (intro round2_mono) simp_all
  qed
  show ?thesis
  proof (cases "calculate_corporate_risk company ind x r")
    case (Inl e)
    then show ?thesis
      by (auto simp: calculate_corporate_risk_def argument_errors_def Let_def
          split: option.splits if_splits)
  next
    case (Inr a)
    then obtain i where a: "parse_industry ind = Some i" "0 < x" "x \<le> 1000000000"
      "risk_score a = score_of x i r" "band a = band_of (score_of x i r)" "entity a = company"
      by (auto simp: accepted_iff)
    show ?thesis
    proof (cases "calculate_corporate_risk company' ind y r'")
      case (Inl e)
      with Inr a show ?thesis by simp
    next
      case (Inr b)
      with a(1) have b: "risk_score b = score_of y i r'" "band b = band_of (score_of y i r')"
        by (auto simp: accepted_iff)
      have "x \<le> y \<and> (r \<longrightarrow> r') \<longrightarrow> risk_score a \<le> risk_score b \<and>
          (band a = ''High'' \<longrightarrow> band b = ''High'')"
        using mono [of i] a b by (auto simp: band_of_def split: if_splits)
      with \<open>calculate_corporate_risk company ind x r = Inr a\<close> Inr a show ?thesis by simp
    qed
  qed
qed

theorem risk_score_monotone_witness:
  "risk_score (sample_report 200000) \<le> risk_score (sample_report 300000)"
  using risk_score_monotone [where company = "''ACME''" and company' = "''ACME''"
      and ind = "''Finance''" and x = 200000 and y = 300000 and r = True and r' = True]
  by (simp add: sample_accepted)

end
