(* ===== verification/Migrations.thy ===== *)
theory Migrations
  imports Config
begin

text \<open>
  The schema migrations, \<open>alembic/versions/\<close>, run as \<open>alembic/env.py\<close> runs them: all pending
  revisions in one transaction. A database is its tables with their rows, its indexes and
  the recorded revision; each migration operation is a definition that fails as PostgreSQL
  does. The target is the metadata of \<open>app/models.py\<close>.
\<close>

section \<open>Databases\<close>

datatype sql_type = Uuid | Integer | SText | String "nat option" | DateTime_tz | Bytea | Jsonb

record column =
  col_name :: string
  col_type :: sql_type
  nullable :: bool
  server_default :: "string option"

record 'r db_table =
  columns :: "column list"
  primary_key :: "string list"
  rows :: "'r list"

record 'r database =
  tables :: "string \<Rightarrow> 'r db_table option"
  indexes :: "string \<Rightarrow> (string \<times> string list) option"
  version :: "string option"

definition column :: "string \<Rightarrow> sql_type \<Rightarrow> bool \<Rightarrow> column" where
  "column n ty nul = \<lparr>col_name = n, col_type = ty, nullable = nul, server_default = None\<rparr>"

definition column_with_default :: "string \<Rightarrow> sql_type \<Rightarrow> string \<Rightarrow> column" where
  "column_with_default n ty d =
     \<lparr>col_name = n, col_type = ty, nullable = False, server_default = Some d\<rparr>"

section \<open>Operations\<close>

type_synonym 'r op = "'r database \<Rightarrow> exn + 'r database"

definition create_table :: "string \<Rightarrow> column list \<Rightarrow> string list \<Rightarrow> 'r op" where
  "create_table t cols pk d = (if tables d t \<noteq> None then Inl (OtherError ''DuplicateTable'')
     else Inr (d\<lparr>tables := (tables d)(t \<mapsto> \<lparr>columns = cols, primary_key = pk, rows = []\<rparr>)\<rparr>))"

definition drop_table :: "string \<Rightarrow> 'r op" where
  "drop_table t d = (if tables d t = None then Inl (OtherError ''UndefinedTable'')
     else Inr (d\<lparr>tables := (tables d)(t := None),
       indexes := (\<lambda>n. case indexes d n of None \<Rightarrow> None
         | Some (t', cs) \<Rightarrow> if t' = t then None else Some (t', cs))\<rparr>))"

definition create_index :: "string \<Rightarrow> string \<Rightarrow> string list \<Rightarrow> 'r op" where
  "create_index n t cs d = (if tables d t = None then Inl (OtherError ''UndefinedTable'')
     else if indexes d n \<noteq> None then Inl (OtherError ''DuplicateTable'')
     else Inr (d\<lparr>indexes := (indexes d)(n \<mapsto> (t, cs))\<rparr>))"

definition drop_index :: "string \<Rightarrow> 'r op" where
  "drop_index n d = (if indexes d n = None then Inl (OtherError ''UndefinedObject'')
     else Inr (d\<lparr>indexes := (indexes d)(n := None)\<rparr>))"

fun run_ops :: "'r op list \<Rightarrow> 'r op" where
  "run_ops [] d = Inr d"
| "run_ops (f # fs) d = bindr (f d) (run_ops fs)"

text \<open>The defaults of the checkpointer's columns: a quoted empty text and a quoted empty object.\<close>

definition empty_text :: string where
  "empty_text = [CHR 0x27, CHR 0x27] @ ''::text''"

definition empty_json :: string where
  "empty_json = [CHR 0x27] @ ''{}'' @ [CHR 0x27] @ ''::jsonb''"

section \<open>The revisions\<close>

text \<open>The two columns of \<open>TimestampMixin\<close>, which every table of the models has.\<close>

definition timestamps :: "column list" where
  "timestamps = [column_with_default ''created_at'' DateTime_tz ''now()'',
     column_with_default ''updated_at'' DateTime_tz ''now()'']"

definition baseline_upgrade :: "'r op list" where
  "baseline_upgrade = [
     create_table ''agent_executions'' ([column ''id'' Uuid False, column ''request_id'' Uuid False,
       column ''agent_id'' (String None) False, column ''status'' (String None) False] @ timestamps) [''id''],
     create_index ''ix_agent_executions_request_id'' ''agent_executions'' [''request_id''],
     create_table ''file_audit_events'' ([column ''id'' Integer False,
       column ''path'' (String (Some 1024)) False, column ''action'' (String (Some 32)) False,
       column ''byte_count'' Integer False, column ''preview'' SText False] @ timestamps) [''id''],
     create_table ''thread_ownership'' ([column ''thread_id'' (String None) False,
       column ''owner_username'' (String None) False] @ timestamps) [''thread_id''],
     create_index ''ix_thread_ownership_owner_username'' ''thread_ownership'' [''owner_username'']]"

definition baseline_downgrade :: "'r op list" where
  "baseline_downgrade = [
     drop_index ''ix_thread_ownership_owner_username'', drop_table ''thread_ownership'',
     drop_table ''file_audit_events'', drop_index ''ix_agent_executions_request_id'',
     drop_table ''agent_executions'']"

definition balance_upgrade :: "'r op list" where
  "balance_upgrade = [
     create_table ''balance_query_events'' ([column ''id'' Integer False,
       column ''account_id'' (String (Some 64)) False, column ''thread_id'' (String (Some 128)) True,
       column ''username'' (String (Some 128)) True, column ''outcome'' (String (Some 16)) False,
       column ''detail'' (String (Some 256)) True] @ timestamps) [''id'']]"

definition balance_downgrade :: "'r op list" where
  "balance_downgrade = [drop_table ''balance_query_events'']"

definition code_events_upgrade :: "'r op list" where
  "code_events_upgrade = [
     create_table ''code_execution_events'' ([column ''id'' Integer False,
       column ''thread_id'' (String (Some 128)) True, column ''code_length'' Integer False,
       column ''outcome'' (String (Some 16)) False, column ''detail'' (String (Some 512)) True]
       @ timestamps) [''id''],
     drop_index ''checkpoints_thread_id_idx'', drop_table ''checkpoints'',
     drop_index ''checkpoint_blobs_thread_id_idx'', drop_table ''checkpoint_blobs'',
     drop_table ''checkpoint_migrations'',
     drop_index ''checkpoint_writes_thread_id_idx'', drop_table ''checkpoint_writes'']"

definition code_events_downgrade :: "'r op list" where
  "code_events_downgrade = [
     create_table ''checkpoint_writes'' [column ''thread_id'' SText False,
       column_with_default ''checkpoint_ns'' SText empty_text, column ''checkpoint_id'' SText False,
       column ''task_id'' SText False, column ''idx'' Integer False, column ''channel'' SText False,
       column ''type'' SText True, column ''blob'' Bytea False,
       column_with_default ''task_path'' SText empty_text]
       [''thread_id'', ''checkpoint_ns'', ''checkpoint_id'', ''task_id'', ''idx''],
     create_index ''checkpoint_writes_thread_id_idx'' ''checkpoint_writes'' [''thread_id''],
     create_table ''checkpoint_migrations'' [column ''v'' Integer False] [''v''],
     create_table ''checkpoint_blobs'' [column ''thread_id'' SText False,
       column_with_default ''checkpoint_ns'' SText empty_text, column ''channel'' SText False,
       column ''version'' SText False, column ''type'' SText False, column ''blob'' Bytea True]
       [''thread_id'', ''checkpoint_ns'', ''channel'', ''version''],
     create_index ''checkpoint_blobs_thread_id_idx'' ''checkpoint_blobs'' [''thread_id''],
     create_table ''checkpoints'' [column ''thread_id'' SText False,
       column_with_default ''checkpoint_ns'' SText empty_text, column ''checkpoint_id'' SText False,
       column ''parent_checkpoint_id'' SText True, column ''type'' SText True,
       column ''checkpoint'' Jsonb False, column_with_default ''metadata'' Jsonb empty_json]
       [''thread_id'', ''checkpoint_ns'', ''checkpoint_id''],
     create_index ''checkpoints_thread_id_idx'' ''checkpoints'' [''thread_id''],
     drop_table ''code_execution_events'']"


record 'r revision =
  rev_id :: string
  down_revision :: "string option"
  upgrade :: "'r op list"
  downgrade :: "'r op list"

definition revisions :: "'r revision list" where
  "revisions = [
     \<lparr>rev_id = ''4b3e4acd205a'', down_revision = Some ''6e8da6865934'',
       upgrade = code_events_upgrade, downgrade = code_events_downgrade\<rparr>,
     \<lparr>rev_id = ''5a228e071209'', down_revision = None,
       upgrade = baseline_upgrade, downgrade = baseline_downgrade\<rparr>,
     \<lparr>rev_id = ''6e8da6865934'', down_revision = Some ''5a228e071209'',
       upgrade = balance_upgrade, downgrade = balance_downgrade\<rparr>]"

section \<open>Running them\<close>

text \<open>The pending revisions follow the recorded one along \<open>down_revision\<close>; there are at most as
  many as there are files.\<close>

fun upgrade_from :: "nat \<Rightarrow> 'r op" where
  "upgrade_from 0 d = Inr d"
| "upgrade_from (Suc k) d = (case find (\<lambda>r. down_revision r = version d) revisions of
       None \<Rightarrow> Inr d
     | Some r \<Rightarrow> bindr (run_ops (upgrade r) d)
         (\<lambda>d'. upgrade_from k (d'\<lparr>version := Some (rev_id r)\<rparr>)))"

definition downgrade_one :: "'r op" where
  "downgrade_one d = (case find (\<lambda>r. Some (rev_id r) = version d) revisions of
       None \<Rightarrow> Inl (OtherError ''CommandError'')
     | Some r \<Rightarrow> bindr (run_ops (downgrade r) d) (\<lambda>d'. Inr (d'\<lparr>version := down_revision r\<rparr>)))"

text \<open>\<open>with context.begin_transaction(): context.run_migrations()\<close>: PostgreSQL rolls schema
  changes back with the transaction.\<close>

definition in_transaction :: "'r op \<Rightarrow> 'r database \<Rightarrow> exn option \<times> 'r database" where
  "in_transaction f d = (case f d of Inl e \<Rightarrow> (Some e, d) | Inr d' \<Rightarrow> (None, d'))"

definition run_migrations_online :: "'r database \<Rightarrow> exn option \<times> 'r database" where
  "run_migrations_online d = in_transaction (upgrade_from (length (revisions :: 'r revision list))) d"

section \<open>The models' metadata\<close>

definition mapped :: "string \<Rightarrow> sql_type \<Rightarrow> column" where
  "mapped n ty = column n ty False"

definition mapped_optional :: "string \<Rightarrow> sql_type \<Rightarrow> column" where
  "mapped_optional n ty = column n ty True"

definition metadata :: "(string \<times> column list \<times> string list) list" where
  "metadata = [
     (''agent_executions'', [mapped ''id'' Uuid, mapped ''request_id'' Uuid,
        mapped ''agent_id'' (String None), mapped ''status'' (String None)] @ timestamps, [''id'']),
     (''thread_ownership'', [mapped ''thread_id'' (String None),
        mapped ''owner_username'' (String None)] @ timestamps, [''thread_id'']),
     (''file_audit_events'', [mapped ''id'' Integer, mapped ''path'' (String (Some 1024)),
        mapped ''action'' (String (Some 32)), mapped ''byte_count'' Integer,
        mapped ''preview'' SText] @ timestamps, [''id'']),
     (''balance_query_events'', [mapped ''id'' Integer, mapped ''account_id'' (String (Some 64)),
        mapped_optional ''thread_id'' (String (Some 128)),
        mapped_optional ''username'' (String (Some 128)), mapped ''outcome'' (String (Some 16)),
        mapped_optional ''detail'' (String (Some 256))] @ timestamps, [''id'']),
     (''code_execution_events'', [mapped ''id'' Integer,
        mapped_optional ''thread_id'' (String (Some 128)), mapped ''code_length'' Integer,
        mapped ''outcome'' (String (Some 16)), mapped_optional ''detail'' (String (Some 512))]
        @ timestamps, [''id''])]"

definition indexed_columns :: "(string \<times> string) list" where
  "indexed_columns = [(''agent_executions'', ''request_id''), (''thread_ownership'', ''owner_username'')]"

definition implements :: "'r database \<Rightarrow> bool" where
  "implements d \<longleftrightarrow>
     list_all (\<lambda>(t, cols, pk). map_option (\<lambda>tab. (columns tab, primary_key tab)) (tables d t) =
       Some (cols, pk)) metadata \<and>
     list_all (\<lambda>(t, c). indexes d (''ix_'' @ t @ ''_'' @ c) = Some (t, [c])) indexed_columns"

section \<open>Operations that succeed\<close>

lemma create_table_Inr: "create_table t cols pk d = Inr d' \<longleftrightarrow> tables d t = None \<and>
    d' = d\<lparr>tables := (tables d)(t \<mapsto> \<lparr>columns = cols, primary_key = pk, rows = []\<rparr>)\<rparr>"
  by (auto simp: create_table_def)

lemma create_index_Inr: "create_index n t cs d = Inr d' \<longleftrightarrow> tables d t \<noteq> None \<and> indexes d n = None \<and>
    d' = d\<lparr>indexes := (indexes d)(n \<mapsto> (t, cs))\<rparr>"
  by (cases "indexes d n") (auto simp: create_index_def)

definition without_table :: "string \<Rightarrow> (string \<Rightarrow> (string \<times> string list) option) \<Rightarrow>
    string \<Rightarrow> (string \<times> string list) option" where
  "without_table t ix n = (case ix n of None \<Rightarrow> None
     | Some (t', cs) \<Rightarrow> if t' = t then None else Some (t', cs))"

lemma drop_table_Inr: "drop_table t d = Inr d' \<longleftrightarrow> tables d t \<noteq> None \<and>
    d' = d\<lparr>tables := (tables d)(t := None), indexes := without_table t (indexes d)\<rparr>"
  by (auto simp: drop_table_def without_table_def [abs_def])

lemma drop_index_Inr: "drop_index n d = Inr d' \<longleftrightarrow> indexes d n \<noteq> None \<and>
    d' = d\<lparr>indexes := (indexes d)(n := None)\<rparr>"
  by (auto simp: drop_index_def)

lemmas op_Inr = create_table_Inr create_index_Inr drop_table_Inr drop_index_Inr

lemma run_ops_Inr:
  "run_ops [] d = Inr d' \<longleftrightarrow> d' = d"
  "run_ops (f # fs) d = Inr d' \<longleftrightarrow> (\<exists>d1. f d = Inr d1 \<and> run_ops fs d1 = Inr d')"
  by (auto simp: bindr_Inr_iff)

lemma without_table_upd [simp]:
  "without_table t (ix(n \<mapsto> (t', cs))) = (if t' = t then (without_table t ix)(n := None)
     else (without_table t ix)(n \<mapsto> (t', cs)))"
  "without_table t (ix(n := None)) = (without_table t ix)(n := None)"
  by (auto simp: without_table_def fun_eq_iff)


section \<open>The effect of each revision\<close>

definition checkpointer_tables :: "string list" where
  "checkpointer_tables =
     [''checkpoints'', ''checkpoint_blobs'', ''checkpoint_migrations'', ''checkpoint_writes'']"

text \<open>The empty table of a model.\<close>

definition model_table :: "nat \<Rightarrow> 'r db_table" where
  "model_table k = (case metadata ! k of (t, cols, pk) \<Rightarrow>
     \<lparr>columns = cols, primary_key = pk, rows = []\<rparr>)"

lemmas revision_simps = run_ops_Inr op_Inr model_table_def metadata_def mapped_def
  mapped_optional_def checkpointer_tables_def

lemma baseline_effect:
  assumes "run_ops baseline_upgrade d = Inr d'"
  shows "d' = d\<lparr>tables := (tables d)(''agent_executions'' \<mapsto> model_table 0,
        ''file_audit_events'' \<mapsto> model_table 2, ''thread_ownership'' \<mapsto> model_table 1),
      indexes := (indexes d)(''ix_agent_executions_request_id'' \<mapsto> (''agent_executions'', [''request_id'']),
        ''ix_thread_ownership_owner_username'' \<mapsto> (''thread_ownership'', [''owner_username'']))\<rparr> \<and>
    list_all (\<lambda>t. tables d t = None) (map fst (take 3 metadata))"
  using assms by (auto simp: baseline_upgrade_def revision_simps simp del: run_ops.simps)

lemma balance_effect:
  assumes "run_ops balance_upgrade d = Inr d'"
  shows "d' = d\<lparr>tables := (tables d)(''balance_query_events'' \<mapsto> model_table 3)\<rparr> \<and>
    tables d ''balance_query_events'' = None"
  using assms by (auto simp: balance_upgrade_def revision_simps simp del: run_ops.simps)

lemma code_events_effect:
  assumes "run_ops code_events_upgrade d = Inr d'"
  shows "d' = d\<lparr>tables := (tables d)(''code_execution_events'' \<mapsto> model_table 4, ''checkpoints'' := None,
        ''checkpoint_blobs'' := None, ''checkpoint_migrations'' := None, ''checkpoint_writes'' := None),
      indexes := fold without_table checkpointer_tables ((indexes d)
        (''checkpoints_thread_id_idx'' := None, ''checkpoint_blobs_thread_id_idx'' := None,
         ''checkpoint_writes_thread_id_idx'' := None))\<rparr> \<and>
    tables d ''code_execution_events'' = None \<and>
    list_all (\<lambda>t. tables d t \<noteq> None) checkpointer_tables \<and>
    indexes d ''checkpoints_thread_id_idx'' \<noteq> None"
  using assms
  by (auto simp: code_events_upgrade_def revision_simps simp del: run_ops.simps)


section \<open>Complete upgrades\<close>

definition HEAD :: string where
  "HEAD = ''4b3e4acd205a''"

text \<open>The revisions a database can be at before the last one.\<close>

definition behind :: "string option \<Rightarrow> bool" where
  "behind v \<longleftrightarrow> v \<in> {None, Some ''5a228e071209'', Some ''6e8da6865934''}"

lemma upgrade_steps:
  "version d = None \<Longrightarrow> upgrade_from (Suc k) d = bindr (run_ops baseline_upgrade d)
     (\<lambda>d'. upgrade_from k (d'\<lparr>version := Some ''5a228e071209''\<rparr>))"
  "version d = Some ''5a228e071209'' \<Longrightarrow> upgrade_from (Suc k) d = bindr (run_ops balance_upgrade d)
     (\<lambda>d'. upgrade_from k (d'\<lparr>version := Some ''6e8da6865934''\<rparr>))"
  "version d = Some ''6e8da6865934'' \<Longrightarrow> upgrade_from (Suc k) d = bindr (run_ops code_events_upgrade d)
     (\<lambda>d'. upgrade_from k (d'\<lparr>version := Some HEAD\<rparr>))"
  "version d = Some HEAD \<Longrightarrow> upgrade_from k d = Inr d"
  by (simp_all add: revisions_def HEAD_def) (cases k; simp add: revisions_def)

text \<open>An upgrade that succeeds ends with the last revision, on the result of the earlier ones.\<close>

definition earlier :: "'r database \<Rightarrow> 'r database \<Rightarrow> bool" where
  "earlier d d1 \<longleftrightarrow> (if version d = Some ''6e8da6865934'' then d1 = d
     else \<exists>d0. (if version d = None
         then run_ops baseline_upgrade d = Inr (d0\<lparr>version := None\<rparr>) \<and> version d0 = Some ''5a228e071209''
         else d0 = d) \<and>
       run_ops balance_upgrade d0 = Inr (d1\<lparr>version := Some ''5a228e071209''\<rparr>) \<and>
       version d1 = Some ''6e8da6865934'')"

lemma version_keep:
  "run_ops baseline_upgrade d = Inr d' \<Longrightarrow> version d' = version d"
  "run_ops balance_upgrade d = Inr d' \<Longrightarrow> version d' = version d"
  "run_ops code_events_upgrade d = Inr d' \<Longrightarrow> version d' = version d"
  by (auto dest: baseline_effect balance_effect code_events_effect)

lemma version_idem [simp]: "d\<lparr>version := v\<rparr>\<lparr>version := version d\<rparr> = d"
  by simp

lemma upgrade_run:
  assumes "behind (version d)" and "upgrade_from 3 d = Inr d'"
  shows "\<exists>d1 d2. earlier d d1 \<and> run_ops code_events_upgrade d1 = Inr d2 \<and>
    d' = d2\<lparr>version := Some HEAD\<rparr>"
proof -
  have last: "\<exists>d2. run_ops code_events_upgrade e = Inr d2 \<and> d' = d2\<lparr>version := Some HEAD\<rparr>"
    if "version e = Some ''6e8da6865934''" "upgrade_from (Suc k) e = Inr d'" for e k
    using that by (auto simp: upgrade_steps(3,4) bindr_Inr_iff simp del: upgrade_from.simps)
  have two: "\<exists>d1 d2. run_ops balance_upgrade e = Inr (d1\<lparr>version := Some ''5a228e071209''\<rparr>) \<and>
      version d1 = Some ''6e8da6865934'' \<and> run_ops code_events_upgrade d1 = Inr d2 \<and>
      d' = d2\<lparr>version := Some HEAD\<rparr>"
    if e: "version e = Some ''5a228e071209''" "upgrade_from (Suc (Suc k)) e = Inr d'" for e k
  proof -
    from e obtain e1 where e1: "run_ops balance_upgrade e = Inr e1"
      "upgrade_from (Suc k) (e1\<lparr>version := Some ''6e8da6865934''\<rparr>) = Inr d'"
      by (auto simp: upgrade_steps(2) bindr_Inr_iff simp del: upgrade_from.simps)
    from last [OF _ e1(2)] obtain d2 where
      "run_ops code_events_upgrade (e1\<lparr>version := Some ''6e8da6865934''\<rparr>) = Inr d2"
      "d' = d2\<lparr>version := Some HEAD\<rparr>" by auto
    moreover have "e1 = e1\<lparr>version := Some ''6e8da6865934''\<rparr>\<lparr>version := Some ''5a228e071209''\<rparr>"
      using version_keep(2) [OF e1(1)] e(1) by simp
    ultimately show ?thesis using e1(1)
      by (intro exI [of _ "e1\<lparr>version := Some ''6e8da6865934''\<rparr>"] exI [of _ d2]) simp
  qed
  from assms(1) consider "version d = None" | "version d = Some ''5a228e071209''"
    | "version d = Some ''6e8da6865934''" by (auto simp: behind_def)
  then show ?thesis
  proof cases
    case 1
    with assms(2) obtain e where e: "run_ops baseline_upgrade d = Inr e"
      "upgrade_from (Suc (Suc 0)) (e\<lparr>version := Some ''5a228e071209''\<rparr>) = Inr d'"
      by (auto simp: upgrade_steps(1) bindr_Inr_iff numeral_3_eq_3 simp del: upgrade_from.simps)
    have "e = e\<lparr>version := Some ''5a228e071209''\<rparr>\<lparr>version := None\<rparr>"
      using version_keep(1) [OF e(1)] 1 by simp
    with e(1) have "run_ops baseline_upgrade d = Inr (e\<lparr>version := Some ''5a228e071209''\<rparr>\<lparr>version := None\<rparr>)"
      by simp
    moreover obtain d1 d2 where
      "run_ops balance_upgrade (e\<lparr>version := Some ''5a228e071209''\<rparr>) =
         Inr (d1\<lparr>version := Some ''5a228e071209''\<rparr>)"
      "version d1 = Some ''6e8da6865934''" "run_ops code_events_upgrade d1 = Inr d2"
      "d' = d2\<lparr>version := Some HEAD\<rparr>"
      using two [OF _ e(2)] by auto
    ultimately show ?thesis using 1
      by (intro exI [of _ d1] exI [of _ d2])
        (auto simp: earlier_def intro!: exI [of _ "e\<lparr>version := Some ''5a228e071209''\<rparr>"])
  next
    case 2
    with two [of d "Suc 0"] assms(2) show ?thesis
      by (auto simp: earlier_def numeral_3_eq_3 simp del: upgrade_from.simps)
  next
    case 3
    with last [of d "Suc (Suc 0)"] assms(2) show ?thesis
      by (auto simp: earlier_def numeral_3_eq_3 simp del: upgrade_from.simps)
  qed
qed


definition index_names :: "string list" where
  "index_names = [''ix_agent_executions_request_id'', ''ix_thread_ownership_owner_username'']"

definition kept :: "'r database \<Rightarrow> 'r database \<Rightarrow> bool" where
  "kept d d1 \<longleftrightarrow> (\<forall>t. t \<notin> fst ` set metadata \<longrightarrow> tables d1 t = tables d t) \<and>
     (\<forall>n. n \<notin> set index_names \<longrightarrow> indexes d1 n = indexes d n)"

lemma kept_trans: "kept d d1 \<Longrightarrow> kept d1 d2 \<Longrightarrow> kept d d2"
  by (simp add: kept_def)

lemma kept_version [simp]: "kept (d\<lparr>version := v\<rparr>) d1 = kept d d1" "kept d (d1\<lparr>version := v\<rparr>) = kept d d1"
  by (simp_all add: kept_def)

lemma earlier_kept:
  assumes "earlier d d1"
  shows "kept d d1"
proof -
  have base: "kept d e" if "run_ops baseline_upgrade d = Inr e" for d e
    using baseline_effect [OF that] by (auto simp: kept_def metadata_def index_names_def)
  have balance: "kept d e" if "run_ops balance_upgrade d = Inr e" for d e
    using balance_effect [OF that] by (auto simp: kept_def metadata_def)
  from assms show ?thesis
    by (auto simp: earlier_def kept_def split: if_splits dest!: base balance)
qed

lemma earlier_fresh:
  assumes "earlier d d1" and "version d = None"
  shows "tables d1 ''agent_executions'' = Some (model_table 0) \<and>
    tables d1 ''thread_ownership'' = Some (model_table 1) \<and>
    tables d1 ''file_audit_events'' = Some (model_table 2) \<and>
    tables d1 ''balance_query_events'' = Some (model_table 3) \<and>
    list_all (\<lambda>(t, c). indexes d1 (''ix_'' @ t @ ''_'' @ c) = Some (t, [c])) indexed_columns"
proof -
  from assms obtain d0 where
    a: "run_ops baseline_upgrade d = Inr (d0\<lparr>version := None\<rparr>)"
    and b: "run_ops balance_upgrade d0 = Inr (d1\<lparr>version := Some ''5a228e071209''\<rparr>)"
    by (auto simp: earlier_def)
  from arg_cong [OF conjunct1 [OF baseline_effect [OF a]], of tables]
    arg_cong [OF conjunct1 [OF baseline_effect [OF a]], of indexes]
    arg_cong [OF conjunct1 [OF balance_effect [OF b]], of tables]
    arg_cong [OF conjunct1 [OF balance_effect [OF b]], of indexes]
  show ?thesis by (simp add: indexed_columns_def)
qed

section \<open>A database the checkpointer has set up\<close>

text \<open>The checkpointer's tables as the last revision's downgrade re-creates them, with given rows.\<close>

definition checkpointer_schema :: "string \<Rightarrow> (column list \<times> string list) option" where
  "checkpointer_schema = map_of [
     (''checkpoints'', [column ''thread_id'' SText False,
       column_with_default ''checkpoint_ns'' SText empty_text, column ''checkpoint_id'' SText False,
       column ''parent_checkpoint_id'' SText True, column ''type'' SText True,
       column ''checkpoint'' Jsonb False, column_with_default ''metadata'' Jsonb empty_json],
       [''thread_id'', ''checkpoint_ns'', ''checkpoint_id'']),
     (''checkpoint_blobs'', [column ''thread_id'' SText False,
       column_with_default ''checkpoint_ns'' SText empty_text, column ''channel'' SText False,
       column ''version'' SText False, column ''type'' SText False, column ''blob'' Bytea True],
       [''thread_id'', ''checkpoint_ns'', ''channel'', ''version'']),
     (''checkpoint_migrations'', [column ''v'' Integer False], [''v'']),
     (''checkpoint_writes'', [column ''thread_id'' SText False,
       column_with_default ''checkpoint_ns'' SText empty_text, column ''checkpoint_id'' SText False,
       column ''task_id'' SText False, column ''idx'' Integer False, column ''channel'' SText False,
       column ''type'' SText True, column ''blob'' Bytea False,
       column_with_default ''task_path'' SText empty_text],
       [''thread_id'', ''checkpoint_ns'', ''checkpoint_id'', ''task_id'', ''idx''])]"

definition checkpointer_index :: "string \<Rightarrow> string" where
  "checkpointer_index t = t @ ''_thread_id_idx''"

text \<open>Every table has this shape, its one index is there, and no other index is on it.\<close>

definition set_up :: "'r database \<Rightarrow> bool" where
  "set_up d \<longleftrightarrow>
     (\<forall>t \<in> set checkpointer_tables. map_option (\<lambda>tab. (columns tab, primary_key tab)) (tables d t) =
        checkpointer_schema t) \<and>
     (\<forall>t \<in> {''checkpoints'', ''checkpoint_blobs'', ''checkpoint_writes''}.
        indexes d (checkpointer_index t) = Some (t, [''thread_id''])) \<and>
     (\<forall>n t cs. indexes d n = Some (t, cs) \<longrightarrow> t \<in> set checkpointer_tables \<longrightarrow>
        n = checkpointer_index t \<and> t \<noteq> ''checkpoint_migrations'') \<and>
     (\<forall>n cs. indexes d n \<noteq> Some (''code_execution_events'', cs)) \<and>
     tables d ''code_execution_events'' = None"

definition emptied :: "'r database \<Rightarrow> 'r database" where
  "emptied d = d\<lparr>tables := (\<lambda>t. if t \<in> set checkpointer_tables
     then map_option (rows_update (\<lambda>_. [])) (tables d t) else tables d t)\<rparr>"

section \<open>Concrete databases\<close>

text \<open>One with the checkpointer's tables, a row in each, at a given revision; and an empty one.\<close>

definition sample_database :: "string option \<Rightarrow> string database" where
  "sample_database v = \<lparr>tables = (\<lambda>t. map_option (\<lambda>(cols, pk). \<lparr>columns = cols, primary_key = pk,
       rows = [''row'']\<rparr>) (checkpointer_schema t)),
     indexes = map_of (map (\<lambda>t. (checkpointer_index t, (t, [''thread_id''])))
       [''checkpoints'', ''checkpoint_blobs'', ''checkpoint_writes'']), version = v\<rparr>"

definition empty_database :: "string database" where
  "empty_database = \<lparr>tables = (\<lambda>t. None), indexes = (\<lambda>n. None), version = None\<rparr>"

lemma sample_version [simp]: "version (sample_database v) = v"
  by (simp add: sample_database_def)

lemma sample_set_up: "set_up (sample_database v)"
proof -
  have "t \<in> set checkpointer_tables \<Longrightarrow> map_option (\<lambda>tab. (columns tab, primary_key tab))
      (tables (sample_database v) t) = checkpointer_schema t" for t
    by (simp add: sample_database_def option.map_comp o_def split_def option.map_ident)
  moreover have "n = checkpointer_index t \<and> t \<noteq> ''checkpoint_migrations''"
    if "indexes (sample_database v) n = Some (t, cs)" for n t cs
    using that by (auto simp: sample_database_def split: if_splits)
  moreover have "indexes (sample_database v) n \<noteq> Some (''code_execution_events'', cs)" for n cs
    by (simp add: sample_database_def)
  moreover have "tables (sample_database v) ''code_execution_events'' = None"
    by (simp add: sample_database_def checkpointer_schema_def)
  moreover have "\<forall>t \<in> {''checkpoints'', ''checkpoint_blobs'', ''checkpoint_writes''}.
      indexes (sample_database v) (checkpointer_index t) = Some (t, [''thread_id''])"
    by (simp add: sample_database_def checkpointer_index_def)
  ultimately show ?thesis unfolding set_up_def by blast
qed

lemma sample_upgrades: "fst (run_migrations_online (sample_database None)) = None"
  by code_simp

section \<open>Properties\<close>

text \<open>C27. On a database in which the checkpointer has not created its tables - a fresh one -
  the upgrade fails, whatever earlier revision the database is at, and creates nothing.\<close>

theorem upgrade_needs_checkpointer:
  assumes "indexes d ''checkpoints_thread_id_idx'' = None" and "behind (version d)"
  shows "\<exists>e. run_migrations_online d = (Some e, d)"
proof (cases "upgrade_from (length (revisions :: 'a revision list)) d")
  case (Inl e)
  then show ?thesis by (simp add: run_migrations_online_def in_transaction_def)
next
  case (Inr d')
  then have "upgrade_from 3 d = Inr d'" by (simp add: revisions_def numeral_3_eq_3 del: upgrade_from.simps)
  from upgrade_run [OF assms(2) this] obtain d1 d2 where
    "earlier d d1" "run_ops code_events_upgrade d1 = Inr d2" by blast
  with assms(1) code_events_effect [of d1 d2] earlier_kept [of d d1] show ?thesis
    by (simp add: kept_def index_names_def)
qed


theorem upgrade_needs_checkpointer_witness:
  "\<exists>e. run_migrations_online empty_database = (Some e, empty_database)"
  by (rule upgrade_needs_checkpointer) (simp_all add: empty_database_def behind_def)

text \<open>C26. An upgrade that succeeds drops the checkpointer's four tables with all their rows -
  every saved conversation - and changes no other table that is not one of the models'.\<close>

theorem upgrade_drops_checkpoints:
  assumes "behind (version d)" and "run_migrations_online d = (None, d')"
  shows "version d' = Some HEAD \<and>
    (\<forall>t. t \<in> set checkpointer_tables \<longrightarrow> tables d t \<noteq> None \<and> tables d' t = None) \<and>
    (\<forall>t. t \<notin> set checkpointer_tables \<longrightarrow> t \<notin> fst ` set metadata \<longrightarrow> tables d' t = tables d t)"
proof -
  from assms(2) have "upgrade_from 3 d = Inr d'"
    by (simp add: run_migrations_online_def in_transaction_def revisions_def numeral_3_eq_3
        del: upgrade_from.simps split: sum.splits)
  from upgrade_run [OF assms(1) this] obtain d1 d2 where d1: "earlier d d1"
    and d2: "run_ops code_events_upgrade d1 = Inr d2" and d': "d' = d2\<lparr>version := Some HEAD\<rparr>" by blast
  note eff = code_events_effect [OF d2]
  have tabs: "tables d' = (tables d1)(''code_execution_events'' \<mapsto> model_table 4, ''checkpoints'' := None,
      ''checkpoint_blobs'' := None, ''checkpoint_migrations'' := None, ''checkpoint_writes'' := None)"
    using conjunct1 [OF eff] by (simp add: d')
  have kept: "tables d1 t = tables d t" if "t \<notin> fst ` set metadata" for t
    using earlier_kept [OF d1] that by (simp add: kept_def)
  have "set checkpointer_tables \<inter> fst ` set metadata = {}"
    by (simp add: checkpointer_tables_def metadata_def)
  then have "tables d t \<noteq> None" if "t \<in> set checkpointer_tables" for t
    using eff kept [of t] that unfolding list_all_iff by (metis disjoint_iff)
  moreover have "tables d' t = None" if "t \<in> set checkpointer_tables" for t
    using that unfolding tabs checkpointer_tables_def by (simp only: list.set insert_iff empty_iff) (elim disjE; simp)
  moreover have "tables d' t = tables d t"
    if "t \<notin> set checkpointer_tables" "t \<notin> fst ` set metadata" for t
  proof -
    have "t \<noteq> ''code_execution_events''" using that(2) by (auto simp: metadata_def)
    with that(1) have "tables d' t = tables d1 t" by (simp add: tabs checkpointer_tables_def)
    with kept [OF that(2)] show ?thesis by simp
  qed
  ultimately show ?thesis by (simp add: d')
qed

theorem upgrade_drops_checkpoints_witness:
  "tables (sample_database None) ''checkpoints'' \<noteq> None \<and>
   tables (snd (run_migrations_online (sample_database None))) ''checkpoints'' = None"
proof -
  have "run_migrations_online (sample_database None) =
      (None, snd (run_migrations_online (sample_database None)))"
    by (rule prod_eqI) (simp_all add: sample_upgrades)
  from upgrade_drops_checkpoints [OF _ this] show ?thesis
    by (simp add: behind_def checkpointer_tables_def)
qed




lemma set_up_facts:
  assumes "set_up d"
  shows "tables d ''code_execution_events'' = None"
    and "indexes d ''checkpoints_thread_id_idx'' = Some (''checkpoints'', [''thread_id''])"
    and "indexes d ''checkpoint_blobs_thread_id_idx'' = Some (''checkpoint_blobs'', [''thread_id''])"
    and "indexes d ''checkpoint_writes_thread_id_idx'' = Some (''checkpoint_writes'', [''thread_id''])"
    and "t \<in> set checkpointer_tables \<Longrightarrow> \<exists>tab. tables d t = Some tab \<and>
      checkpointer_schema t = Some (columns tab, primary_key tab)"
proof -
  from assms show "tables d ''code_execution_events'' = None"
    and "indexes d ''checkpoints_thread_id_idx'' = Some (''checkpoints'', [''thread_id''])"
    and "indexes d ''checkpoint_blobs_thread_id_idx'' = Some (''checkpoint_blobs'', [''thread_id''])"
    and "indexes d ''checkpoint_writes_thread_id_idx'' = Some (''checkpoint_writes'', [''thread_id''])"
    by (simp_all add: set_up_def checkpointer_index_def)
  assume t: "t \<in> set checkpointer_tables"
  then have "checkpointer_schema t \<noteq> None"
    by (simp only: checkpointer_tables_def list.set insert_iff empty_iff)
      (elim disjE; simp add: checkpointer_schema_def)
  moreover from assms t have "map_option (\<lambda>tab. (columns tab, primary_key tab)) (tables d t) =
      checkpointer_schema t" by (simp add: set_up_def)
  ultimately show "\<exists>tab. tables d t = Some tab \<and>
      checkpointer_schema t = Some (columns tab, primary_key tab)"
    by (cases "tables d t") auto
qed

lemma set_up_upgrade:
  assumes "set_up d"
  shows "\<exists>d2. run_ops code_events_upgrade d = Inr d2"
proof -
  have "tables d t \<noteq> None" if "t \<in> set checkpointer_tables" for t
    using set_up_facts(5) [OF assms that] by auto
  then have "tables d ''checkpoints'' \<noteq> None" "tables d ''checkpoint_blobs'' \<noteq> None"
    "tables d ''checkpoint_migrations'' \<noteq> None" "tables d ''checkpoint_writes'' \<noteq> None"
    by (simp_all add: checkpointer_tables_def)
  with set_up_facts(1-4) [OF assms] show ?thesis
    by (simp add: code_events_upgrade_def create_table_def drop_table_def drop_index_def)
qed


text \<open>What the last revision leaves of the indexes: everything but the checkpointer's three.\<close>

lemma fold_without_table:
  "fold without_table ts ix n = (case ix n of None \<Rightarrow> None
     | Some (t, cs) \<Rightarrow> if t \<in> set ts then None else Some (t, cs))"
proof (induction ts arbitrary: ix)
  case Nil
  then show ?case by (simp split: option.split)
next
  case (Cons t ts)
  have "fold without_table (t # ts) ix n = fold without_table ts (without_table t ix) n" by simp
  also note Cons.IH
  also have "(case without_table t ix n of None \<Rightarrow> None
       | Some (t', cs) \<Rightarrow> if t' \<in> set ts then None else Some (t', cs)) =
     (case ix n of None \<Rightarrow> None
       | Some (t', cs) \<Rightarrow> if t' \<in> set (t # ts) then None else Some (t', cs))"
    by (simp add: without_table_def split: option.split)
  finally show ?case .
qed

definition checkpointer_indexes :: "string list" where
  "checkpointer_indexes = [''checkpoints_thread_id_idx'', ''checkpoint_blobs_thread_id_idx'',
     ''checkpoint_writes_thread_id_idx'']"

lemma set_up_indexes:
  assumes "set_up d" and "run_ops code_events_upgrade d = Inr d2"
  shows "indexes d2 n = (if n \<in> set checkpointer_indexes then None else indexes d n)"
proof -
  have eff: "indexes d2 = fold without_table checkpointer_tables ((indexes d)
        (''checkpoints_thread_id_idx'' := None, ''checkpoint_blobs_thread_id_idx'' := None,
         ''checkpoint_writes_thread_id_idx'' := None))"
    using conjunct1 [OF code_events_effect [OF assms(2)]] by simp
  show ?thesis
  proof (cases "n \<in> set checkpointer_indexes")
    case True
    then show ?thesis by (auto simp: eff fold_without_table checkpointer_indexes_def)
  next
    case False
    have "t \<notin> set checkpointer_tables" if "indexes d n = Some (t, cs)" for t cs
    proof
      assume t: "t \<in> set checkpointer_tables"
      with assms(1) that have "n = checkpointer_index t" "t \<noteq> ''checkpoint_migrations''"
        unfolding set_up_def by blast+
      with t have "n \<in> set checkpointer_indexes"
        by (simp only: checkpointer_tables_def checkpointer_index_def list.set insert_iff empty_iff)
          (elim disjE; simp add: checkpointer_indexes_def)
      with False show False ..
    qed
    moreover from False have "((indexes d)(''checkpoints_thread_id_idx'' := None,
        ''checkpoint_blobs_thread_id_idx'' := None, ''checkpoint_writes_thread_id_idx'' := None)) n =
      indexes d n" by (simp add: checkpointer_indexes_def)
    ultimately show ?thesis
      using False by (simp only: eff fold_without_table if_False) (auto split: option.split)
  qed
qed

lemma code_events_downgrade_effect:
  assumes "list_all (\<lambda>t. tables d t = None) checkpointer_tables"
    and "list_all (\<lambda>n. indexes d n = None) checkpointer_indexes"
    and "tables d ''code_execution_events'' \<noteq> None"
  shows "\<exists>d'. run_ops code_events_downgrade d = Inr d' \<and> version d' = version d \<and>
    (\<forall>t \<in> set checkpointer_tables. map_option (\<lambda>tab. (columns tab, primary_key tab, rows tab)) (tables d' t) =
       map_option (\<lambda>(cols, pk). (cols, pk, [])) (checkpointer_schema t)) \<and>
    (\<forall>t. t \<notin> set checkpointer_tables \<longrightarrow> tables d' t = ((tables d)(''code_execution_events'' := None)) t) \<and>
    indexes d' = without_table ''code_execution_events'' ((indexes d)
      (''checkpoint_writes_thread_id_idx'' \<mapsto> (''checkpoint_writes'', [''thread_id'']),
       ''checkpoint_blobs_thread_id_idx'' \<mapsto> (''checkpoint_blobs'', [''thread_id'']),
       ''checkpoints_thread_id_idx'' \<mapsto> (''checkpoints'', [''thread_id''])))"
  using assms
  by (simp add: code_events_downgrade_def checkpointer_tables_def checkpointer_indexes_def
      create_table_def create_index_def drop_table_def checkpointer_schema_def
      without_table_def [abs_def])


text \<open>The database after an upgrade from the revision before the last.\<close>

lemma upgraded_database:
  assumes "set_up d" and "version d = Some ''6e8da6865934''"
  shows "\<exists>d1. run_migrations_online d = (None, d1) \<and> version d1 = Some HEAD \<and>
    tables d1 = (tables d)(''code_execution_events'' \<mapsto> model_table 4, ''checkpoints'' := None,
      ''checkpoint_blobs'' := None, ''checkpoint_migrations'' := None, ''checkpoint_writes'' := None) \<and>
    (\<forall>n. indexes d1 n = (if n \<in> set checkpointer_indexes then None else indexes d n))"
proof -
  from set_up_upgrade [OF assms(1)] obtain d2 where up: "run_ops code_events_upgrade d = Inr d2" ..
  let ?d1 = "d2\<lparr>version := Some HEAD\<rparr>"
  have "upgrade_from (Suc (Suc (Suc 0))) d = Inr ?d1"
    by (simp add: upgrade_steps(3) [OF assms(2)] up upgrade_steps(4) del: upgrade_from.simps)
  then have "run_migrations_online d = (None, ?d1)"
    by (simp add: run_migrations_online_def in_transaction_def revisions_def del: upgrade_from.simps)
  moreover note conjunct1 [OF code_events_effect [OF up]] set_up_indexes [OF assms(1) up]
  ultimately show ?thesis by (intro exI [of _ ?d1]) simp
qed

text \<open>A downgrade of it: the indexes of a set-up checkpointer, and its tables without rows.\<close>

lemma restored_indexes:
  assumes "set_up d" and "\<And>n. indexes d1 n = (if n \<in> set checkpointer_indexes then None else indexes d n)"
  shows "without_table ''code_execution_events'' ((indexes d1)
      (''checkpoint_writes_thread_id_idx'' \<mapsto> (''checkpoint_writes'', [''thread_id'']),
       ''checkpoint_blobs_thread_id_idx'' \<mapsto> (''checkpoint_blobs'', [''thread_id'']),
       ''checkpoints_thread_id_idx'' \<mapsto> (''checkpoints'', [''thread_id'']))) n = indexes (emptied d) n"
proof (cases "n \<in> set checkpointer_indexes")
  case True
  then show ?thesis using set_up_facts(2-4) [OF assms(1)]
    by (auto simp: without_table_def checkpointer_indexes_def emptied_def)
next
  case False
  then have "((indexes d1)
    (''checkpoint_writes_thread_id_idx'' \<mapsto> (''checkpoint_writes'', [''thread_id'']),
     ''checkpoint_blobs_thread_id_idx'' \<mapsto> (''checkpoint_blobs'', [''thread_id'']),
     ''checkpoints_thread_id_idx'' \<mapsto> (''checkpoints'', [''thread_id'']))) n = indexes d n"
    by (simp add: assms(2) checkpointer_indexes_def)
  moreover have "indexes d n \<noteq> Some (''code_execution_events'', cs)" for cs
    using assms(1) by (simp add: set_up_def)
  ultimately show ?thesis
    by (simp only: without_table_def) (auto simp: emptied_def split: option.split)
qed

lemma restored_tables:
  assumes "set_up d"
    and "tables d1 = (tables d)(''code_execution_events'' \<mapsto> model_table 4, ''checkpoints'' := None,
      ''checkpoint_blobs'' := None, ''checkpoint_migrations'' := None, ''checkpoint_writes'' := None)"
    and own: "\<And>t. t \<in> set checkpointer_tables \<Longrightarrow>
       map_option (\<lambda>tab. (columns tab, primary_key tab, rows tab)) (tables d' t) =
       map_option (\<lambda>(cols, pk). (cols, pk, [])) (checkpointer_schema t)"
    and others: "\<And>t. t \<notin> set checkpointer_tables \<Longrightarrow>
       tables d' t = ((tables d1)(''code_execution_events'' := None)) t"
  shows "tables d' t = tables (emptied d) t"
proof (cases "t \<in> set checkpointer_tables")
  case True
  from set_up_facts(5) [OF assms(1) True] own [OF True] show ?thesis
    using True by (auto simp: emptied_def)
next
  case False
  then have "tables d1 t = ((tables d)(''code_execution_events'' \<mapsto> model_table 4)) t"
    by (simp add: assms(2) checkpointer_tables_def)
  with False others [OF False] set_up_facts(1) [OF assms(1)] show ?thesis
    by (simp add: emptied_def)
qed

text \<open>C39. Downgrading the last revision right after upgrading restores the schema a set-up
  checkpointer had - tables, columns, keys, indexes - and every table of the application, but
  none of the checkpointer's rows.\<close>

theorem downgrade_restores_schema:
  assumes "set_up d" and "version d = Some ''6e8da6865934''"
  shows "\<exists>d1. run_migrations_online d = (None, d1) \<and> downgrade_one d1 = Inr (emptied d)"
proof -
  from upgraded_database [OF assms] obtain d1 where run: "run_migrations_online d = (None, d1)"
    and v: "version d1 = Some HEAD"
    and tabs: "tables d1 = (tables d)(''code_execution_events'' \<mapsto> model_table 4, ''checkpoints'' := None,
      ''checkpoint_blobs'' := None, ''checkpoint_migrations'' := None, ''checkpoint_writes'' := None)"
    and ixs: "\<And>n. indexes d1 n = (if n \<in> set checkpointer_indexes then None else indexes d n)" by blast
  have "list_all (\<lambda>t. tables d1 t = None) checkpointer_tables"
    "list_all (\<lambda>n. indexes d1 n = None) checkpointer_indexes" "tables d1 ''code_execution_events'' \<noteq> None"
    by (simp_all add: tabs ixs checkpointer_tables_def list_all_iff)
  from code_events_downgrade_effect [OF this] obtain d' where
    down: "run_ops code_events_downgrade d1 = Inr d'" "version d' = version d1"
    and own: "\<And>t. t \<in> set checkpointer_tables \<Longrightarrow>
       map_option (\<lambda>tab. (columns tab, primary_key tab, rows tab)) (tables d' t) =
       map_option (\<lambda>(cols, pk). (cols, pk, [])) (checkpointer_schema t)"
    and others: "\<And>t. t \<notin> set checkpointer_tables \<Longrightarrow>
       tables d' t = ((tables d1)(''code_execution_events'' := None)) t"
    and ix': "indexes d' = without_table ''code_execution_events'' ((indexes d1)
      (''checkpoint_writes_thread_id_idx'' \<mapsto> (''checkpoint_writes'', [''thread_id'']),
       ''checkpoint_blobs_thread_id_idx'' \<mapsto> (''checkpoint_blobs'', [''thread_id'']),
       ''checkpoints_thread_id_idx'' \<mapsto> (''checkpoints'', [''thread_id''])))" by blast
  have "tables d' t = tables (emptied d) t" for t by (rule restored_tables [OF assms(1) tabs own others])
  moreover have "indexes d' n = indexes (emptied d) n" for n
    unfolding ix' by (rule restored_indexes [OF assms(1) ixs])
  ultimately have "d'\<lparr>version := Some ''6e8da6865934''\<rparr> = emptied d"
    using assms(2) by (simp add: emptied_def fun_eq_iff)
  with down v have "downgrade_one d1 = Inr (emptied d)"
    by (simp add: downgrade_one_def revisions_def HEAD_def)
  with run show ?thesis by blast
qed

theorem downgrade_restores_schema_witness:
  "\<exists>d1. run_migrations_online (sample_database (Some ''6e8da6865934'')) = (None, d1) \<and>
    downgrade_one d1 = Inr (emptied (sample_database (Some ''6e8da6865934'')))"
  by (rule downgrade_restores_schema [OF sample_set_up]) simp

end
