(* ===== verification/Scripts.thy ===== *)
theory Scripts
  imports Endpoints
begin

text \<open>
  The small programs beside the application: the health and graph routes
  (\<open>app/api/v1/health.py\<close>) and the drawing functions of \<open>app/graph/engine.py\<close> behind them, the first gateway (\<open>server.py\<close>), the placeholder service
  (\<open>main_backup.py\<close>) and the one-node graph (\<open>verify_neural.py\<close>).
\<close>

section \<open>health.py\<close>

definition health_check :: "(string \<times> string) list" where
  "health_check = [(''status'', ''healthy''), (''uptime'', ''nominal''), (''agent_engine'', ''ready'')]"

text \<open>Drawing is the graph library's; whatever fails in it or in the build is answered with 502.\<close>

definition graph_mermaid :: "exn option \<Rightarrow> exn + string \<Rightarrow> exn + string" where
  "graph_mermaid build draw = (case build of Some e \<Rightarrow> Inl e | None \<Rightarrow> draw)"

definition graph_png :: "exn option \<Rightarrow> exn + 'p \<Rightarrow> exn + 'p" where
  "graph_png build draw = (case build of Some e \<Rightarrow> Inl e | None \<Rightarrow> draw)"

definition graph_structure :: "exn option \<Rightarrow> exn + string \<Rightarrow> exn + string" where
  "graph_structure build draw = graph_mermaid build draw"

definition graph_image :: "(exn \<Rightarrow> string) \<Rightarrow> exn option \<Rightarrow> exn + 'p \<Rightarrow> exn + 'p" where
  "graph_image show_exn build draw =
     (case graph_png build draw of
        Inr png \<Rightarrow> Inr png
      | Inl e \<Rightarrow> Inl (HTTPException 502 (''Graph PNG render failed (mermaid.ink unreachable?): '' @ show_exn e)))"

lemma graph_image_answers:
  "graph_image f build draw \<in> range Inr \<union> {Inl (HTTPException 502 d) | d. True}"
  by (cases "graph_png build draw") (auto simp: graph_image_def)

section \<open>server.py\<close>

record gateway_request =
  input_text :: string
  gw_thread_id :: string

record gateway_response =
  final_state :: graph_output
  gw_status :: string

definition GatewayRequest :: "string \<Rightarrow> string option \<Rightarrow> gateway_request" where
  "GatewayRequest t thread = \<lparr>input_text = t,
     gw_thread_id = (case thread of None \<Rightarrow> ''default_user'' | Some x \<Rightarrow> x)\<rparr>"

text \<open>The graph is invoked without a context; \<open>bare\<close> is that invocation. The plain text is turned
  into a human message by the message reducer. Every exception is answered with 500.\<close>

definition run_agent_endpoint ::
    "(exn \<Rightarrow> string) \<Rightarrow> exn option \<Rightarrow>
     (string \<Rightarrow> message list \<Rightarrow> string \<Rightarrow> 'g \<Rightarrow> (exn + graph_output) \<times> 'g) \<Rightarrow>
     gateway_request \<Rightarrow> 'g \<Rightarrow> (exn + gateway_response) \<times> 'g" where
  "run_agent_endpoint show_exn build bare req g =
     (case (case build of Some e \<Rightarrow> (Inl e, g)
         | None \<Rightarrow> bare (gw_thread_id req) [HumanMessage (input_text req)] ''starting'' g) of
        (Inr out, g') \<Rightarrow> (Inr \<lparr>final_state = out, gw_status = ''success''\<rparr>, g')
      | (Inl e, g') \<Rightarrow> (Inl (HTTPException 500 (show_exn e)), g'))"

lemma run_agent_endpoint_answers:
  "fst (run_agent_endpoint f build bare req g) \<in> range Inr \<union> {Inl (HTTPException 500 d) | d. True}"
  by (auto simp: run_agent_endpoint_def split: prod.splits sum.splits option.splits)

section \<open>main_backup.py\<close>

definition invoke_agent :: "(string \<Rightarrow> string option) \<Rightarrow> agent_request \<Rightarrow> exn + agent_response" where
  "invoke_agent parse_uuid req = AgentResponse parse_uuid (request_id req)
     (''Agent '' @ [CHR 0x27] @ agent_id req @ [CHR 0x27] @ '' has received the task: ''
       @ task_description req)
     ''processing''"

section \<open>verify_neural.py\<close>

text \<open>One node and the edge to the end; the state is its status. The flag says the node is pending.\<close>

definition check_logic :: "string \<Rightarrow> string" where
  "check_logic status_text = ''Verified''"

definition verify_step :: "bool \<times> string \<Rightarrow> exn option \<times> (bool \<times> string)" where
  "verify_step c = (None, (False, check_logic (snd c)))"

definition verify_app :: "string \<Rightarrow> exn option \<times> (bool \<times> string)" where
  "verify_app status_text = run_graph verify_step (\<lambda>c. \<not> fst c) 25 (True, status_text)"

lemma verify_app_verified: "verify_app t = (None, (False, ''Verified''))"
proof -
  have "run_graph verify_step (\<lambda>c. \<not> fst c) (Suc 24) (True, t) = (None, (False, ''Verified''))"
    by (simp only: run_graph.simps) (simp add: verify_step_def check_logic_def)
  then show ?thesis by (simp add: verify_app_def)
qed

end
