(* ===== verification/Checkpoints.thy ===== *)
theory Checkpoints
  imports Endpoint_Claims
begin

text \<open>
  A thread's chain of checkpoints behind the routes of \<open>app/api/v1/endpoints.py\<close> that read,
  resume, fork and edit it. The saver is the checkpoint table (one row per checkpoint, in the
  order of writing); what the routes rely on is the interface \<open>checkpointer\<close>: whatever runs on
  a thread only adds checkpoints, to that thread, and sees no other thread. \<open>history_api\<close> runs
  the main graph with a checkpoint after every superstep and is an instance of the interface.
\<close>

section \<open>The table\<close>

record saved_checkpoint = checkpoint_row +
  ck_parent :: "string option"
  ck_pending :: "node option"
  ck_state :: graph_state
  ck_source :: string
  ck_step :: int

type_synonym saver = "saved_checkpoint list"

definition thread_rows :: "string \<Rightarrow> saver \<Rightarrow> saver" where
  "thread_rows t g = filter (\<lambda>c. ck_thread c = t) g"

definition adds :: "string \<Rightarrow> saver \<Rightarrow> saver \<Rightarrow> bool" where
  "adds t g g' \<longleftrightarrow> (\<exists>new. g' = g @ new \<and> list_all (\<lambda>c. ck_thread c = t) new)"

lemma thread_rows_append [simp]: "thread_rows t (g @ h) = thread_rows t g @ thread_rows t h"
  by (simp add: thread_rows_def)

lemma thread_rows_other:
  "list_all (\<lambda>c. ck_thread c = t) new \<Longrightarrow> t' \<noteq> t \<Longrightarrow> thread_rows t' new = []"
  by (auto simp: thread_rows_def list_all_iff filter_empty_conv)

lemma thread_rows_own:
  "list_all (\<lambda>c. ck_thread c = t) new \<Longrightarrow> thread_rows t new = new"
  by (auto simp: thread_rows_def list_all_iff)

lemma adds_refl [simp]: "adds t g g"
  by (auto simp: adds_def)

lemma adds_trans: "adds t g g' \<Longrightarrow> adds t g' g'' \<Longrightarrow> adds t g g''"
  by (auto simp: adds_def)

lemma adds_other: "adds t g g' \<Longrightarrow> t' \<noteq> t \<Longrightarrow> thread_rows t' g' = thread_rows t' g"
  by (auto simp: adds_def thread_rows_other)

lemma adds_prefix: "adds t g g' \<Longrightarrow> prefix g g'"
  by (auto simp: adds_def)

section \<open>The interface\<close>

text \<open>
  Documented behaviour of a compiled graph with a checkpointer. A run answers by what the
  thread's own checkpoints hold, and adds the same checkpoints whatever else is in the table.
\<close>

locale checkpointer =
  fixes api :: "(saver, 'v) graph_api"
  assumes ainvoke_local: "\<exists>r new. list_all (\<lambda>c. ck_thread c = cfg_thread cfg) new \<and>
      (\<forall>g. thread_rows (cfg_thread cfg) g = h \<longrightarrow> ainvoke api cx cfg input g = (r, g @ new))"
    and astream_local: "\<exists>r new. list_all (\<lambda>c. ck_thread c = cfg_thread cfg) new \<and>
      (\<forall>g. thread_rows (cfg_thread cfg) g = h \<longrightarrow> astream api cx cfg ms g = (r, g @ new))"
    and update_local: "\<exists>r. \<forall>g. thread_rows (cfg_thread cfg) g = h \<longrightarrow>
      aupdate_state api cfg vs n g = (case r of Inl e \<Rightarrow> Inl e | Inr (cfg', c) \<Rightarrow> Inr (cfg', g @ [c]))"
    and update_thread: "aupdate_state api cfg vs n g = Inr (cfg', g @ [c]) \<Longrightarrow>
      ck_thread c = cfg_thread cfg"
    and state_local: "thread_rows (cfg_thread cfg) g = thread_rows (cfg_thread cfg) g' \<Longrightarrow>
      aget_state api cfg g = aget_state api cfg g'"
    and history_local: "thread_rows (cfg_thread cfg) g = thread_rows (cfg_thread cfg) g' \<Longrightarrow>
      aget_state_history api cfg k g = aget_state_history api cfg k g'"
begin

lemma ainvoke_adds: "ainvoke api cx cfg input g = (r, g') \<Longrightarrow> adds (cfg_thread cfg) g g'"
  using ainvoke_local [of cfg "thread_rows (cfg_thread cfg) g" cx input] by (auto simp: adds_def)

lemma astream_adds: "astream api cx cfg ms g = (r, g') \<Longrightarrow> adds (cfg_thread cfg) g g'"
  using astream_local [of cfg "thread_rows (cfg_thread cfg) g" cx ms] by (auto simp: adds_def)

lemma update_adds:
  assumes "aupdate_state api cfg vs n g = Inr (cfg', g')"
  shows "adds (cfg_thread cfg) g g'"
proof -
  obtain r where "aupdate_state api cfg vs n g =
      (case r of Inl e \<Rightarrow> Inl e | Inr (cfg', c) \<Rightarrow> Inr (cfg', g @ [c]))"
    using update_local [of cfg "thread_rows (cfg_thread cfg) g" vs n] by blast
  with assms obtain c where "g' = g @ [c]" by (auto split: sum.splits prod.splits)
  with update_thread assms show ?thesis by (simp add: adds_def)
qed

lemma run_on_thread_adds:
  "run_on_thread api sv name rows cfg input g = (r, g') \<Longrightarrow> adds (cfg_thread cfg) g g'"
  by (auto simp: run_on_thread_def split: sum.splits intro: ainvoke_adds)

lemma run_on_thread_local:
  "\<exists>r new. list_all (\<lambda>c. ck_thread c = cfg_thread cfg) new \<and>
    (\<forall>g. thread_rows (cfg_thread cfg) g = h \<longrightarrow>
       run_on_thread api sv name rows cfg input g = (r, g @ new))"
proof (cases "prepare sv name rows")
  case (Inl e)
  then show ?thesis by (intro exI [of _ "Inl e"] exI [of _ "[]"]) (simp add: run_on_thread_def)
next
  case (Inr cx)
  with ainvoke_local [of cfg h cx input] show ?thesis by (simp add: run_on_thread_def)
qed

end

section \<open>The main graph with a checkpoint after every superstep\<close>

text \<open>\<open>run_graph\<close> with the configurations after its supersteps.\<close>

fun run_log :: "('c \<Rightarrow> exn option \<times> 'c) \<Rightarrow> ('c \<Rightarrow> bool) \<Rightarrow> nat \<Rightarrow> 'c \<Rightarrow> (exn option \<times> 'c) \<times> 'c list" where
  "run_log step stop 0 c = ((if stop c then None else Some GraphRecursionError, c), [])"
| "run_log step stop (Suc k) c =
     (if stop c then ((None, c), [])
      else (case step c of
              (Some e, c') \<Rightarrow> ((Some e, c'), [])
            | (None, c') \<Rightarrow> (case run_log step stop k c' of (r, cs) \<Rightarrow> (r, c' # cs))))"

lemma run_log_run: "fst (run_log step stop k c) = run_graph step stop k c"
proof (induction k arbitrary: c)
  case 0
  then show ?case by simp
next
  case (Suc k)
  have "fst (run_log step stop (Suc k) c) = (if stop c then (None, c) else
      case step c of (Some e, c') \<Rightarrow> (Some e, c') | (None, c') \<Rightarrow> fst (run_log step stop k c'))"
    by (simp split: prod.splits option.splits)
  with Suc.IH show ?case by (simp only: run_graph.simps)
qed

lemma run_log_last: "run_log step stop k c = ((None, d), cs) \<Longrightarrow> last (c # cs) = d"
  by (induction k arbitrary: c cs) (auto split: if_splits prod.splits option.splits)

text \<open>A row per configuration, each the child of the one before. Identifiers count the
  thread's rows; the saver's own are time-ordered UUIDs.\<close>

definition row_id :: "nat \<Rightarrow> string" where
  "row_id n = replicate (Suc n) (CHR ''i'')"

fun chain_rows :: "string \<Rightarrow> rat \<Rightarrow> string option \<Rightarrow> nat \<Rightarrow> int \<Rightarrow> string \<Rightarrow> config list \<Rightarrow> saver" where
  "chain_rows t now parent n k src [] = []"
| "chain_rows t now parent n k src (c # cs) =
     \<lparr>ck_thread = t, ck_id = row_id n, ck_ts = now, ck_parent = parent, ck_pending = pending c,
       ck_state = gstate c, ck_source = src, ck_step = k\<rparr> #
     chain_rows t now (Some (row_id n)) (Suc n) (k + 1) ''loop'' cs"

lemma chain_rows_last:
  "cs \<noteq> [] \<Longrightarrow> chain_rows t now p n k src cs \<noteq> [] \<and>
   ck_state (last (chain_rows t now p n k src cs)) = gstate (last cs) \<and>
   ck_pending (last (chain_rows t now p n k src cs)) = pending (last cs)"
proof (induction cs arbitrary: p n k src)
  case (Cons c cs)
  show ?case
  proof (cases "cs = []")
    case False
    from Cons.IH [OF False] show ?thesis using False by simp
  qed simp
qed simp

text \<open>The functions below are of the rows \<open>h\<close> of one thread.\<close>

definition find_checkpoint :: "string option \<Rightarrow> saver \<Rightarrow> saved_checkpoint option" where
  "find_checkpoint pin h = (case pin of
       None \<Rightarrow> if h = [] then None else Some (last h)
     | Some i \<Rightarrow> find (\<lambda>c. ck_id c = i) h)"

text \<open>Where a run starts: the row named by the config, or the empty state.\<close>

definition start_state :: "saved_checkpoint option \<Rightarrow> graph_state" where
  "start_state k = (case k of None \<Rightarrow> empty_state | Some c \<Rightarrow> ck_state c)"

definition parent_of :: "string option \<Rightarrow> saved_checkpoint option \<Rightarrow> string option" where
  "parent_of pin k = (case k of None \<Rightarrow> pin | Some c \<Rightarrow> Some (ck_id c))"

definition next_step :: "saved_checkpoint option \<Rightarrow> int" where
  "next_step k = (case k of None \<Rightarrow> -1 | Some c \<Rightarrow> ck_step c + 1)"

definition nothing_done :: world where
  "nothing_done = \<lparr>calls = 0, stream = []\<rparr>"

definition rows_after :: "rat \<Rightarrow> run_config \<Rightarrow> saver \<Rightarrow> string \<Rightarrow> config list \<Rightarrow> saver" where
  "rows_after now cfg h src cs = (let k = find_checkpoint (cfg_checkpoint cfg) h in
     chain_rows (cfg_thread cfg) now (parent_of (cfg_checkpoint cfg) k) (length h) (next_step k) src cs)"

definition logged_run ::
    "run_env \<Rightarrow> nat \<Rightarrow> run_ctx \<Rightarrow> run_config \<Rightarrow> message list option \<Rightarrow> saver \<Rightarrow>
     (exn option \<times> config) \<times> config list" where
  "logged_run base limit cx cfg input h =
     (case (input, find_checkpoint (cfg_checkpoint cfg) h) of
        (Some ms, k) \<Rightarrow> (let c = start_config (ctx_env base cx) (start_state k) ms in
          case run_log (superstep (ctx_env base cx)) ended limit c of (r, cs) \<Rightarrow> (r, c # cs))
      | (None, None) \<Rightarrow> ((Some (OtherError ''EmptyInputError''),
          \<lparr>pending = None, gstate = empty_state, outside = nothing_done\<rparr>), [])
      | (None, Some k) \<Rightarrow> run_log (superstep (ctx_env base cx)) ended limit
          \<lparr>pending = ck_pending k, gstate = ck_state k, outside = nothing_done\<rparr>)"

definition run_source :: "message list option \<Rightarrow> string" where
  "run_source input = (case input of None \<Rightarrow> ''loop'' | Some ms \<Rightarrow> ''input'')"

definition history_run ::
    "run_env \<Rightarrow> nat \<Rightarrow> rat \<Rightarrow> run_ctx \<Rightarrow> run_config \<Rightarrow> message list option \<Rightarrow> saver \<Rightarrow>
     (exn option \<times> config) \<times> saver" where
  "history_run base limit now cx cfg input g = (let h = thread_rows (cfg_thread cfg) g in
     case logged_run base limit cx cfg input h of
       (r, cs) \<Rightarrow> (r, g @ rows_after now cfg h (run_source input) cs))"

definition history_ainvoke ::
    "run_env \<Rightarrow> nat \<Rightarrow> rat \<Rightarrow> run_ctx \<Rightarrow> run_config \<Rightarrow> message list option \<Rightarrow> saver \<Rightarrow>
     (exn + graph_output) \<times> saver" where
  "history_ainvoke base limit now cx cfg input g =
     (case history_run base limit now cx cfg input g of
        ((None, c), g') \<Rightarrow> (Inr (output_of (gstate c)), g')
      | ((Some e, c), g') \<Rightarrow> (Inl e, g'))"

definition snapshot_of :: "saved_checkpoint \<Rightarrow> snapshot" where
  "snapshot_of c = \<lparr>sn_checkpoint = Some (ck_id c), sn_parent = map_option Some (ck_parent c),
     sn_next = (case ck_pending c of None \<Rightarrow> [] | Some n \<Rightarrow> [node_name n]),
     sn_messages = Some (messages (ck_state c)), sn_status = status (ck_state c),
     sn_created_at = Some ''now'', sn_source = Some (ck_source c), sn_step = Some (ck_step c)\<rparr>"

definition history_state :: "run_config \<Rightarrow> saver \<Rightarrow> exn + snapshot" where
  "history_state cfg g = Inr (case find_checkpoint (cfg_checkpoint cfg) (thread_rows (cfg_thread cfg) g) of
       None \<Rightarrow> \<lparr>sn_checkpoint = None, sn_parent = None, sn_next = [], sn_messages = None,
         sn_status = None, sn_created_at = None, sn_source = None, sn_step = None\<rparr>
     | Some c \<Rightarrow> snapshot_of c)"

fun write_value :: "edit_value \<Rightarrow> delta \<Rightarrow> delta" where
  "write_value (Critique t) d = d\<lparr>d_critique := Some t\<rparr>"
| "write_value (Revision_count n) d = d\<lparr>d_revision_count := Some n\<rparr>"

definition all_nodes :: "node list" where
  "all_nodes = [Router, Memory_retriever, Agent, Tools, Billing_worker, General_worker, Critic,
     Fetch_metrics, Format_report]"

definition node_of :: "string \<Rightarrow> node option" where
  "node_of name = find (\<lambda>n. node_name n = name) all_nodes"

text \<open>\<open>aupdate_state\<close>: the values are merged by the reducers into the named checkpoint's state,
  and the node's edge decides what is pending. The library's reserved node names are left out.\<close>

definition history_update ::
    "run_env \<Rightarrow> rat \<Rightarrow> run_config \<Rightarrow> edit_value list \<Rightarrow> string \<Rightarrow> saver \<Rightarrow> exn + run_config \<times> saver" where
  "history_update base now cfg vs as_node g =
     (let h = thread_rows (cfg_thread cfg) g;
          s = apply_delta (add_messages base) (start_state (find_checkpoint (cfg_checkpoint cfg) h))
            (fold write_value vs no_update)
      in case node_of as_node of
           None \<Rightarrow> Inl (OtherError ''InvalidUpdateError'')
         | Some node \<Rightarrow> bindr (next_node base node s) (\<lambda>nx.
             Inr (\<lparr>cfg_thread = cfg_thread cfg, cfg_checkpoint = Some (row_id (length h))\<rparr>,
               g @ rows_after now cfg h ''update''
                 [\<lparr>pending = nx, gstate = s, outside = nothing_done\<rparr>])))"

definition history_api :: "run_env \<Rightarrow> nat \<Rightarrow> rat \<Rightarrow> (saver, edit_value list) graph_api" where
  "history_api base limit now = \<lparr>
     aget_state_history = (\<lambda>cfg k g.
       Inr (map snapshot_of (take (nat k) (rev (thread_rows (cfg_thread cfg) g))))),
     aget_state = history_state,
     aupdate_state = history_update base now,
     ainvoke = history_ainvoke base limit now,
     astream = (\<lambda>cx cfg ms g. case history_run base limit now cx cfg (Some ms) g of
        ((r, c), g') \<Rightarrow> ((r, stream (outside c)), g'))\<rparr>"

lemma history_api_simps [simp]:
  "ainvoke (history_api base limit now) = history_ainvoke base limit now"
  "aget_state (history_api base limit now) = history_state"
  "aget_state (state_graph.truncate (history_api base limit now)) = history_state"
  "aupdate_state (history_api base limit now) = history_update base now"
  "aupdate_state (state_graph.truncate (history_api base limit now)) = history_update base now"
  by (simp_all add: history_api_def state_graph.defs)

lemma chain_rows_thread [simp]: "list_all (\<lambda>c. ck_thread c = t) (chain_rows t now p n k src cs)"
  by (induction cs arbitrary: p n k src) simp_all

lemma rows_after_thread [simp]:
  "list_all (\<lambda>c. ck_thread c = cfg_thread cfg) (rows_after now cfg h src cs)"
  by (simp add: rows_after_def Let_def)

lemma history_run_local:
  "thread_rows (cfg_thread cfg) g = h \<Longrightarrow> history_run base limit now cx cfg input g =
   (fst (logged_run base limit cx cfg input h),
    g @ rows_after now cfg h (run_source input) (snd (logged_run base limit cx cfg input h)))"
  by (simp add: history_run_def split_beta)

interpretation kept: checkpointer "history_api base limit now" for base limit now
proof
  fix cx cfg input h
  let ?l = "logged_run base limit cx cfg input h"
  show "\<exists>r new. list_all (\<lambda>c. ck_thread c = cfg_thread cfg) new \<and>
      (\<forall>g. thread_rows (cfg_thread cfg) g = h \<longrightarrow>
         ainvoke (history_api base limit now) cx cfg input g = (r, g @ new))"
    by (intro exI [of _ "case fst ?l of (None, c) \<Rightarrow> Inr (output_of (gstate c)) | (Some e, c) \<Rightarrow> Inl e"]
        exI [of _ "rows_after now cfg h (run_source input) (snd ?l)"])
      (auto simp: history_ainvoke_def history_run_local split: prod.splits option.splits)
next
  fix cx cfg ms h
  let ?l = "logged_run base limit cx cfg (Some ms) h"
  show "\<exists>r new. list_all (\<lambda>c. ck_thread c = cfg_thread cfg) new \<and>
      (\<forall>g. thread_rows (cfg_thread cfg) g = h \<longrightarrow>
         astream (history_api base limit now) cx cfg ms g = (r, g @ new))"
    by (intro exI [of _ "(fst (fst ?l), stream (outside (snd (fst ?l))))"]
        exI [of _ "rows_after now cfg h ''input'' (snd ?l)"])
      (auto simp: history_api_def history_run_local run_source_def split_beta)
next
  fix cfg h vs n
  show "\<exists>r. \<forall>g. thread_rows (cfg_thread cfg) g = h \<longrightarrow>
      aupdate_state (history_api base limit now) cfg vs n g =
        (case r of Inl e \<Rightarrow> Inl e | Inr (cfg', c) \<Rightarrow> Inr (cfg', g @ [c]))"
  proof (cases "\<exists>g. thread_rows (cfg_thread cfg) g = h")
    case True
    let ?s = "apply_delta (add_messages base)
        (start_state (find_checkpoint (cfg_checkpoint cfg) h)) (fold write_value vs no_update)"
    show ?thesis
    proof (cases "node_of n")
      case None
      then show ?thesis
        by (intro exI [of _ "Inl (OtherError ''InvalidUpdateError'')"])
          (simp add: history_update_def Let_def)
    next
      case (Some node)
      then show ?thesis
        by (cases "next_node base node ?s",
            intro exI [of _ "Inl (projl (next_node base node ?s))"],
            simp add: history_update_def Let_def,
            intro exI [of _ "Inr (\<lparr>cfg_thread = cfg_thread cfg, cfg_checkpoint = Some (row_id (length h))\<rparr>,
              hd (rows_after now cfg h ''update''
                [\<lparr>pending = projr (next_node base node ?s), gstate = ?s, outside = nothing_done\<rparr>]))"],
            simp add: history_update_def Let_def rows_after_def)
    qed
  qed auto
next
  fix cfg vs n g cfg' c
  assume "aupdate_state (history_api base limit now) cfg vs n g = Inr (cfg', g @ [c])"
  then show "ck_thread c = cfg_thread cfg"
    by (auto simp: history_update_def Let_def rows_after_def bindr_Inr_iff split: option.splits)
next
  fix cfg :: run_config and g g'
  assume same: "thread_rows (cfg_thread cfg) g = thread_rows (cfg_thread cfg) g'"
  then show "aget_state (history_api base limit now) cfg g = aget_state (history_api base limit now) cfg g'"
    by (simp add: history_state_def)
  from same show "aget_state_history (history_api base limit now) cfg k g =
      aget_state_history (history_api base limit now) cfg k g'" for k
    by (simp add: history_api_def)
qed

end
