(* ===== verification/Service.thy ===== *)
theory Service
  imports Checkpoints Lifespan Research
begin

text \<open>
  The service as a whole: the routes of \<open>app/api/v1/auth.py\<close> and \<open>app/api/v1/endpoints.py\<close> as
  requests on one state - the database session's tables, the checkpoint table, the research
  graph's in-memory threads and the semantic memory - each behind the dependencies its signature
  declares: the bearer token's user, the ownership of the thread, and the session that commits
  or rolls back around the handler. Requests are served one after the other; the smoke test,
  which has none of these dependencies, is in theory \<open>Main_App\<close>.
\<close>

section \<open>State, environment, requests\<close>

record service =
  session :: session
  saver :: saver
  research_threads :: "(string \<times> message list) list"
  memory :: memory_store

text \<open>What the service is deployed with. The graph is a function of the memory its retrieval
  node searches and of the time.\<close>

record deployment =
  dp_services :: services
  dp_jwt :: jwt_library
  dp_hasher :: hasher
  dp_users :: users
  dp_commit :: "session \<Rightarrow> exn option"
  dp_backend :: backend
  dp_delete :: "string \<Rightarrow> saver \<Rightarrow> exn option \<times> saver"
  dp_counts :: "saver \<Rightarrow> nat \<times> nat"
  dp_graph :: "memory_store \<Rightarrow> rat \<Rightarrow> (saver, edit_value list) graph_api"
  dp_research_built :: "exn option"
  dp_research :: research_env

datatype call =
    Run agent_request
  | Run_stream agent_request
  | Ask string
  | Analyze string
  | Do_research research_request
  | Conversation string
  | Thread_history string int
  | Resume string
  | Fork string string string
  | Edit string string string "string option" "int option"
  | Branches string int
  | Remember string string
  | Search_memory string nat
  | Run_gc
  | Gc_stats

datatype request_body = Login string string | Call call

text \<open>A request arrives at a time, with the random identifier it may draw, and with the token of
  its Authorization header if that has the bearer scheme.\<close>

record request =
  arrival :: rat
  uuid :: string
  token :: "string option"
  body :: request_body

datatype answer =
    Token string
  | Ran agent_response "string list"
  | Streamed "stream_event list"
  | Asked ask_response
  | Analyzed investment_analysis
  | Researched "research_report option"
  | Conversed conversation_history
  | Timeline history_response
  | Resumed agent_response
  | Forked fork_response
  | Edited edit_response
  | Branched branches_response
  | Remembered string string
  | Found string "hit list"
  | Swept sweep_summary
  | Stats gc_stats

definition config_of :: "deployment \<Rightarrow> settings" where
  "config_of dp = sv_settings (dp_services dp)"

section \<open>The dependencies\<close>

text \<open>\<open>oauth2_scheme\<close> and \<open>get_current_user\<close>.\<close>

definition current_user :: "deployment \<Rightarrow> rat \<Rightarrow> string option \<Rightarrow> exn + string" where
  "current_user dp now tok = (case tok of
       None \<Rightarrow> Inl (HTTPException 401 ''Not authenticated'')
     | Some t \<Rightarrow> get_current_user (config_of dp) (dp_jwt dp) (dp_users dp) now t)"

text \<open>A handler with a session but no ownership check: it reads the tables, and the session is
  committed around it.\<close>

definition with_session ::
    "deployment \<Rightarrow> (ownership_rows \<Rightarrow> (exn + answer) \<times> service) \<Rightarrow> service \<Rightarrow> (exn + answer) \<times> service" where
  "with_session dp handler s =
     (case handler (owners (session s)) of (r, s') \<Rightarrow>
        (case get_db (dp_commit dp) (\<lambda>d. (r, d)) (session s) of (r', d') \<Rightarrow> (r', s'\<lparr>session := d'\<rparr>)))"

text \<open>\<open>require_thread_owner\<close> in front of a handler: the claim and the handler share the session.
  The handler sees the tables with the claim; what it does to the checkpoints or the memory is
  not part of the session and stays even when the session is rolled back.\<close>

definition as_owner ::
    "deployment \<Rightarrow> string \<Rightarrow> string \<Rightarrow> (ownership_rows \<Rightarrow> (exn + answer) \<times> service) \<Rightarrow> service \<Rightarrow>
     (exn + answer) \<times> service" where
  "as_owner dp thread name handler s =
     (case require_thread_owner (config_of dp) thread name (owners (session s)) of
        (Inl e, _) \<Rightarrow> (Inl e, s)
      | (Inr u, rows) \<Rightarrow> (case handler rows of (r, s') \<Rightarrow>
          (case get_db (dp_commit dp) (\<lambda>d. (r, d\<lparr>owners := rows\<rparr>)) (session s) of
             (r', d') \<Rightarrow> (r', s'\<lparr>session := d'\<rparr>))))"

section \<open>The routes\<close>

definition keep_graph :: "('a \<Rightarrow> answer) \<Rightarrow> (exn + 'a) \<times> saver \<Rightarrow> service \<Rightarrow> (exn + answer) \<times> service" where
  "keep_graph mk rg s = (bindr (fst rg) (\<lambda>a. Inr (mk a)), s\<lparr>saver := snd rg\<rparr>)"

definition only_answer :: "('a \<Rightarrow> answer) \<Rightarrow> exn + 'a \<Rightarrow> service \<Rightarrow> (exn + answer) \<times> service" where
  "only_answer mk r s = (bindr r (\<lambda>a. Inr (mk a)), s)"

fun route :: "deployment \<Rightarrow> rat \<Rightarrow> string \<Rightarrow> string \<Rightarrow> call \<Rightarrow> service \<Rightarrow> (exn + answer) \<times> service" where
  "route dp now fresh name (Run p) s =
     (case run_agent (dp_graph dp (memory s) now) (dp_services dp) (dp_commit dp) p name (saver s) (session s) of
        (r, g, d) \<Rightarrow> (bindr r (\<lambda>(resp, tasks). Inr (Ran resp tasks)), s\<lparr>saver := g, session := d\<rparr>))"
| "route dp now fresh name (Run_stream p) s =
     (case run_agent_stream (dp_graph dp (memory s) now) (dp_services dp) (dp_commit dp) p name
         (saver s) (session s) of
        (evs, g, d) \<Rightarrow> (Inr (Streamed evs), s\<lparr>saver := g, session := d\<rparr>))"
| "route dp now fresh name (Ask q) s =
     with_session dp (\<lambda>rows. keep_graph Asked
       (ask (dp_graph dp (memory s) now) (dp_services dp) q name rows (saver s)) s) s"
| "route dp now fresh name (Analyze symbol) s =
     keep_graph Analyzed
       (analyze_investment (dp_graph dp (memory s) now) (dp_services dp) fresh symbol name (saver s)) s"
| "route dp now fresh name (Do_research r) s =
     (case run_research (dp_research_built dp) (dp_research dp) r
         (case map_of (research_threads s) (rr_thread_id r) of None \<Rightarrow> [] | Some ms \<Rightarrow> ms) of
        (a, ms) \<Rightarrow> (bindr a (\<lambda>x. Inr (Researched x)),
          s\<lparr>research_threads := AList.update (rr_thread_id r) ms (research_threads s)\<rparr>))"
| "route dp now fresh name (Conversation t) s =
     only_answer Conversed
       (get_conversation (dp_graph dp (memory s) now) (dp_services dp) t (saver s)) s"
| "route dp now fresh name (Thread_history t limit) s =
     as_owner dp t name (\<lambda>rows. only_answer Timeline
       (thread_history (dp_graph dp (memory s) now) (dp_services dp) t limit (saver s)) s) s"
| "route dp now fresh name (Resume t) s =
     as_owner dp t name (\<lambda>rows. keep_graph Resumed
       (resume_thread (dp_graph dp (memory s) now) (dp_services dp) t name rows (saver s)) s) s"
| "route dp now fresh name (Fork t checkpoint msg) s =
     as_owner dp t name (\<lambda>rows. keep_graph Forked
       (fork_thread (dp_graph dp (memory s) now) (dp_services dp) t checkpoint msg name rows (saver s)) s) s"
| "route dp now fresh name (Edit t checkpoint as_node crit count) s =
     as_owner dp t name (\<lambda>rows. keep_graph Edited
       (edit_thread_checkpoint (dp_graph dp (memory s) now) (dp_services dp) t checkpoint as_node
          crit count (saver s)) s) s"
| "route dp now fresh name (Branches t limit) s =
     as_owner dp t name (\<lambda>rows. only_answer Branched
       (thread_branches (dp_graph dp (memory s) now) (dp_services dp) t limit (saver s)) s) s"
| "route dp now fresh name (Remember t words) s =
     as_owner dp t name (\<lambda>rows.
       case remember_thread_fact (config_of dp) (dp_backend dp) fresh t words (memory s) of
         Inl e \<Rightarrow> (Inl e, s)
       | Inr ((pid, thread), m) \<Rightarrow> (Inr (Remembered pid thread), s\<lparr>memory := m\<rparr>)) s"
| "route dp now fresh name (Search_memory q limit) s =
     with_session dp (\<lambda>rows. only_answer (\<lambda>(q', hits). Found q' hits)
       (search_memory (config_of dp) (dp_backend dp) (memory s) q limit name rows) s) s"
| "route dp now fresh name Run_gc s =
     keep_graph Swept (run_gc (dp_services dp) (dp_delete dp) now (saver s)) s"
| "route dp now fresh name Gc_stats s =
     only_answer Stats (case sv_build (dp_services dp) of Some e \<Rightarrow> Inl e
       | None \<Rightarrow> Inr (gc_stats (saver s) (fst (dp_counts dp (saver s))) (snd (dp_counts dp (saver s)))
           (checkpoint_retention_days (config_of dp)))) s"

definition handle_request :: "deployment \<Rightarrow> request \<Rightarrow> service \<Rightarrow> (exn + answer) \<times> service" where
  "handle_request dp r s = (case body r of
       Login name password \<Rightarrow> only_answer Token
         (login (config_of dp) (dp_hasher dp) (dp_jwt dp) (dp_users dp) (arrival r) name password) s
     | Call c \<Rightarrow> (case current_user dp (arrival r) (token r) of
         Inl e \<Rightarrow> (Inl e, s)
       | Inr name \<Rightarrow> route dp (arrival r) (uuid r) name c s))"

end
