(* ===== verification/Service_Props.thy ===== *)
theory Service_Props
  imports Service
begin

text \<open>
  What one request does to the service, kind by kind: to the tables, to the checkpoints, to the
  memory. The lemmas are lifted to sequences of requests in \<open>Service_Claims\<close>.
\<close>

section \<open>Laws of the deployment\<close>

definition lawful :: "deployment \<Rightarrow> bool" where
  "lawful dp \<longleftrightarrow> (\<forall>m now. checkpointer (dp_graph dp m now)) \<and> jwt_law (dp_jwt dp)"

lemma lawful_graph: "lawful dp \<Longrightarrow> checkpointer (dp_graph dp m now)"
  by (simp add: lawful_def)

section \<open>The dependencies\<close>

text \<open>The thread of a route behind the ownership check.\<close>

fun gated :: "call \<Rightarrow> string option" where
  "gated (Thread_history t limit) = Some t"
| "gated (Resume t) = Some t"
| "gated (Fork t c m) = Some t"
| "gated (Edit t c n crit count) = Some t"
| "gated (Branches t limit) = Some t"
| "gated (Remember t w) = Some t"
| "gated _ = None"

text \<open>The outcome of the claim a gated route begins with.\<close>

definition admitted :: "deployment \<Rightarrow> string \<Rightarrow> string \<Rightarrow> ownership_rows \<Rightarrow> bool" where
  "admitted dp t name rows \<longleftrightarrow> fst (claim_or_check (config_of dp) t name rows)"

definition claimed :: "deployment \<Rightarrow> string \<Rightarrow> string \<Rightarrow> ownership_rows \<Rightarrow> ownership_rows" where
  "claimed dp t name rows = snd (claim_or_check (config_of dp) t name rows)"

lemma as_owner_refused:
  "\<not> admitted dp t name (owners (session s)) \<Longrightarrow> as_owner dp t name h s =
    (Inl (HTTPException 403 ''Not the owner of this thread_id.''), s)"
  by (auto simp: as_owner_def require_thread_owner_def admitted_def split: prod.splits bool.splits)

lemma as_owner_admitted:
  assumes "admitted dp t name (owners (session s))"
  shows "as_owner dp t name h s = (let rows = claimed dp t name (owners (session s)) in
    case h rows of (r, s') \<Rightarrow>
      (case get_db (dp_commit dp) (\<lambda>d. (r, d\<lparr>owners := rows\<rparr>)) (session s) of
         (r', d') \<Rightarrow> (r', s'\<lparr>session := d'\<rparr>)))"
  using assms
  by (auto simp: as_owner_def require_thread_owner_def admitted_def claimed_def Let_def
      split: prod.splits bool.splits)

lemma as_owner_cases:
  obtains (refused) "\<not> admitted dp t name (owners (session s))"
    and "as_owner dp t name h s = (Inl (HTTPException 403 ''Not the owner of this thread_id.''), s)"
  | (failed) e where "admitted dp t name (owners (session s))"
    and "as_owner dp t name h s = (Inl e,
      (snd (h (claimed dp t name (owners (session s)))))\<lparr>session := session s\<rparr>)"
  | (served) a where "admitted dp t name (owners (session s))"
    and "fst (h (claimed dp t name (owners (session s)))) = Inr a"
    and "as_owner dp t name h s = (Inr a,
      (snd (h (claimed dp t name (owners (session s)))))\<lparr>session :=
        (session s)\<lparr>owners := claimed dp t name (owners (session s))\<rparr>\<rparr>)"
proof (cases "admitted dp t name (owners (session s))")
  case False
  with refused as_owner_refused show ?thesis by blast
next
  case True
  let ?rows = "claimed dp t name (owners (session s))"
  show ?thesis
  proof (cases "fst (h ?rows)")
    case (Inl e)
    with failed [of e] True show ?thesis
      by (simp add: as_owner_admitted get_db_def Let_def split_beta)
  next
    case (Inr a)
    with True served [of a] failed show ?thesis
      by (cases "dp_commit dp ((session s)\<lparr>owners := ?rows\<rparr>)")
        (simp_all add: as_owner_admitted get_db_def Let_def split_beta)
  qed
qed

lemma with_session_session [simp]: "session (snd (with_session dp h s)) = session s"
  by (auto simp: with_session_def get_db_def split: prod.splits sum.splits option.splits)

lemma with_session_rest [simp]:
  "saver (snd (with_session dp h s)) = saver (snd (h (owners (session s))))"
  "memory (snd (with_session dp h s)) = memory (snd (h (owners (session s))))"
  by (simp_all add: with_session_def split_beta)

lemma keep_graph_simps [simp]:
  "saver (snd (keep_graph mk rg s)) = snd rg" "memory (snd (keep_graph mk rg s)) = memory s"
  "session (snd (keep_graph mk rg s)) = session s"
  "research_threads (snd (keep_graph mk rg s)) = research_threads s"
  by (simp_all add: keep_graph_def)

lemma only_answer_state [simp]: "snd (only_answer mk r s) = s"
  by (simp add: only_answer_def)

section \<open>The tables\<close>

lemma get_db_outcome: "snd (get_db commit h d) = d \<or> snd (get_db commit h d) = snd (h d)"
  by (auto simp: get_db_def split: sum.splits option.splits prod.splits)

lemma finish_run_owners: "owners (snd (finish_run sv p r d)) = owners d"
  by (auto simp: finish_run_def split: sum.splits exn.splits)

lemma run_agent_owners: "owners (snd (snd (run_agent api sv commit p name g d))) = owners d"
  using get_db_outcome [of commit "finish_run sv p
      (fst (run_on_thread api sv name (owners d) (checkpoint_config (run_thread_id p) None)
         (Some [HumanMessage (task_description p)]) g))" d]
  by (auto simp: run_agent_def split_beta finish_run_owners)

lemma run_agent_stream_owners:
  "owners (snd (snd (run_agent_stream api sv commit p name g d))) = owners d"
  using get_db_outcome [of commit "\<lambda>s. (fst (snd (stream_events api sv p name (owners d) g)), add_execution p
      (case fst (snd (stream_events api sv p name (owners d) g)) of Inr stat \<Rightarrow> stat | Inl _ \<Rightarrow> ''running'') s)" d]
  by (auto simp: run_agent_stream_def split_beta)

lemma as_owner_owners:
  "owners (session (snd (as_owner dp t name h s))) = owners (session s) \<or>
   admitted dp t name (owners (session s)) \<and>
     owners (session (snd (as_owner dp t name h s))) = claimed dp t name (owners (session s))"
  by (rule as_owner_cases [of dp t name s h]) auto

text \<open>A request leaves the ownership table as it was, or has claimed its thread.\<close>

lemma route_owners:
  "owners (session (snd (route dp now fresh name c s))) = owners (session s) \<or>
   (\<exists>t. gated c = Some t \<and> admitted dp t name (owners (session s)) \<and>
     owners (session (snd (route dp now fresh name c s))) = claimed dp t name (owners (session s)))"
proof (cases "gated c")
  case None
  then show ?thesis
    by (cases c) (simp_all add: split_beta run_agent_owners run_agent_stream_owners)
next
  case (Some t)
  then show ?thesis
    by (cases c) (simp_all only: gated.simps route.simps option.inject option.distinct; metis as_owner_owners)+
qed

section \<open>The checkpoints\<close>

text \<open>What each handler does to the checkpoint table, whatever it answers.\<close>

context checkpointer
begin

lemma run_agent_adds:
  "adds (run_thread_id p) g (fst (snd (run_agent api sv commit p name g d)))"
  using run_on_thread_adds [OF prod.collapse [symmetric], of "checkpoint_config (run_thread_id p) None" g
      sv name "owners d" "Some [HumanMessage (task_description p)]"]
  by (simp add: run_agent_def split_beta)

lemma stream_events_adds: "adds (run_thread_id p) g (snd (snd (stream_events api sv p name rows g)))"
proof (cases "prepare sv name rows")
  case (Inl e)
  then show ?thesis by (cases e) (simp_all add: stream_events_def)
next
  case (Inr cx)
  obtain stop cs g' where run: "astream api cx (checkpoint_config (run_thread_id p) None)
      [HumanMessage (task_description p)] g = ((stop, cs), g')" by (metis prod.collapse)
  have "snd (snd (stream_events api sv p name rows g)) = g'"
    using Inr run by (cases stop; cases "the stop") (simp_all add: stream_events_def)
  with astream_adds [OF run] show ?thesis by simp
qed

lemma run_agent_stream_adds:
  "adds (run_thread_id p) g (fst (snd (run_agent_stream api sv commit p name g d)))"
  using stream_events_adds [of p g sv name "owners d"] by (simp add: run_agent_stream_def split_beta)

lemma ask_adds: "adds (''ask:'' @ name) g (snd (ask api sv q name rows g))"
  using run_on_thread_adds [OF prod.collapse [symmetric], of "checkpoint_config (''ask:'' @ name) None" g
      sv name rows "Some [HumanMessage q]"]
  by (simp add: ask_def split_beta)

lemma analyze_adds:
  "adds (''analyze:'' @ name @ '':'' @ fresh) g (snd (analyze_investment api sv fresh symbol name g))"
proof -
  obtain r g' where run: "ainvoke api \<lparr>cx_llm = sv_llm sv, cx_tool_llm = None, cx_db = None, cx_username = name\<rparr>
      (checkpoint_config (''analyze:'' @ name @ '':'' @ fresh) None)
      (Some [HumanMessage (''Analyze '' @ symbol)]) g = (r, g')" by (metis prod.collapse)
  from ainvoke_adds [OF run] run show ?thesis
    by (cases "sv_build sv") (simp_all add: analyze_investment_def)
qed

lemma resume_adds: "adds t g (snd (resume_thread api sv t name rows g))"
proof -
  obtain r g' where run: "run_on_thread api sv name rows (checkpoint_config t None) None g = (r, g')"
    by (metis prod.collapse)
  from run_on_thread_adds [OF run] run show ?thesis
    by (auto simp: resume_thread_def split: option.split sum.split bool.split)
qed

lemma fork_adds: "adds t g (snd (fork_thread api sv t i msg name rows g))"
proof -
  obtain r g' where run: "run_on_thread api sv name rows (checkpoint_config t (Some i))
      (Some [HumanMessage msg]) g = (r, g')" by (metis prod.collapse)
  from run_on_thread_adds [OF run] run show ?thesis
    by (cases r) (simp_all add: fork_thread_def)
qed

end

lemma edit_adds:
  assumes "checkpointer api"
  shows "adds t g (snd (edit_thread_checkpoint api sv t i n crit count g))"
proof (cases "aupdate_state api (checkpoint_config t (Some i)) (edit_values crit count) n g")
  case (Inl e)
  then show ?thesis
    by (simp add: edit_thread_checkpoint_def Let_def edit_checkpoint_def state_graph.truncate_def
        split: option.split)
next
  case (Inr r)
  then obtain cfg' g' where r: "aupdate_state api (checkpoint_config t (Some i)) (edit_values crit count) n g
      = Inr (cfg', g')" by (cases r) auto
  from checkpointer.update_adds [OF assms r] r show ?thesis
    by (simp add: edit_thread_checkpoint_def Let_def edit_checkpoint_def state_graph.truncate_def
        split: option.split)
qed

text \<open>The thread a request may write checkpoints to.\<close>

fun writes_to :: "string \<Rightarrow> string \<Rightarrow> call \<Rightarrow> string option" where
  "writes_to name fresh (Run p) = Some (run_thread_id p)"
| "writes_to name fresh (Run_stream p) = Some (run_thread_id p)"
| "writes_to name fresh (Ask q) = Some (''ask:'' @ name)"
| "writes_to name fresh (Analyze symbol) = Some (''analyze:'' @ name @ '':'' @ fresh)"
| "writes_to name fresh (Resume t) = Some t"
| "writes_to name fresh (Fork t c m) = Some t"
| "writes_to name fresh (Edit t c n crit count) = Some t"
| "writes_to name fresh _ = None"

lemma as_owner_saver:
  "saver (snd (as_owner dp t name h s)) = saver s \<or> admitted dp t name (owners (session s)) \<and>
     saver (snd (as_owner dp t name h s)) = saver (snd (h (claimed dp t name (owners (session s)))))"
  by (rule as_owner_cases [of dp t name s h]) auto

lemma as_owner_adds:
  assumes "\<And>rows. adds t (saver s) (saver (snd (h rows)))"
  shows "saver (snd (as_owner dp t name h s)) = saver s \<or>
    adds t (saver s) (saver (snd (as_owner dp t name h s))) \<and> admitted dp t name (owners (session s))"
  using as_owner_saver [of dp t name h s] assms by auto

lemmas handler_adds = checkpointer.run_agent_adds checkpointer.run_agent_stream_adds
  checkpointer.ask_adds checkpointer.analyze_adds checkpointer.resume_adds checkpointer.fork_adds edit_adds

lemma route_adds:
  assumes "lawful dp" and "c \<noteq> Run_gc"
  shows "saver (snd (route dp now fresh name c s)) = saver s \<or>
    (\<exists>t. writes_to name fresh c = Some t \<and> adds t (saver s) (saver (snd (route dp now fresh name c s))) \<and>
       (gated c = None \<or> gated c = Some t \<and> admitted dp t name (owners (session s))))"
proof (cases "gated c")
  case None
  with assms(2) show ?thesis
    by (cases c) (simp_all add: split_beta handler_adds(1,2) [OF lawful_graph [OF assms(1)]]
        handler_adds(3,4) [OF lawful_graph [OF assms(1)], simplified])
next
  case (Some t)
  with assms(2) show ?thesis
  proof (cases c)
    case (Resume t)
    then show ?thesis
      by (simp, intro as_owner_adds) (simp add: handler_adds(5) [OF lawful_graph [OF assms(1)]])
  next
    case (Fork t i m)
    then show ?thesis
      by (simp, intro as_owner_adds) (simp add: handler_adds(6) [OF lawful_graph [OF assms(1)]])
  next
    case (Edit t i n crit count)
    then show ?thesis
      by (simp, intro as_owner_adds) (simp add: handler_adds(7) [OF lawful_graph [OF assms(1)]])
  next
    case (Remember t w)
    have "saver (snd (case remember_thread_fact (config_of dp) (dp_backend dp) fresh t w (memory s) of
        Inl e \<Rightarrow> (Inl e, s) | Inr ((pid, thread), m) \<Rightarrow> (Inr (Remembered pid thread), s\<lparr>memory := m\<rparr>))) = saver s"
      by (auto split: sum.split prod.split)
    with Remember show ?thesis
      using as_owner_saver [of dp t name _ s] by (simp, metis)
  next
    case (Thread_history t limit)
    then show ?thesis using as_owner_saver [of dp t name _ s] by (simp, metis only_answer_state)
  next
    case (Branches t limit)
    then show ?thesis using as_owner_saver [of dp t name _ s] by (simp, metis only_answer_state)
  qed simp_all
qed

section \<open>The memory\<close>

lemma as_owner_memory:
  "memory (snd (as_owner dp t name h s)) = memory s \<or> admitted dp t name (owners (session s)) \<and>
     memory (snd (as_owner dp t name h s)) = memory (snd (h (claimed dp t name (owners (session s)))))"
  by (rule as_owner_cases [of dp t name s h]) auto

text \<open>Only remembering changes the memory, and only for one admitted to the thread; when the
  session commits, its claim of the thread is stored with it.\<close>

lemma route_memory:
  assumes "\<And>d. dp_commit dp d = None"
  shows "memory (snd (route dp now fresh name c s)) = memory s \<or>
    (\<exists>t w. c = Remember t w \<and> admitted dp t name (owners (session s)) \<and>
       owners (session (snd (route dp now fresh name c s))) = claimed dp t name (owners (session s)) \<and>
       fst (route dp now fresh name c s) = Inr (Remembered fresh t) \<and>
       remember (config_of dp) (dp_backend dp) fresh t w None (memory s) =
         Inr (fresh, memory (snd (route dp now fresh name c s))))"
proof (cases c)
  case (Remember t w)
  show ?thesis
  proof (cases "remember_thread_fact (config_of dp) (dp_backend dp) fresh t w (memory s)")
    case (Inl e)
    then show ?thesis using as_owner_memory [of dp t name _ s] unfolding Remember by (simp, metis snd_conv)
  next
    case (Inr r)
    then obtain pid m where r: "remember (config_of dp) (dp_backend dp) fresh t w None (memory s) = Inr (pid, m)"
      and "remember_thread_fact (config_of dp) (dp_backend dp) fresh t w (memory s) = Inr ((pid, t), m)"
      by (auto simp: remember_thread_fact_def bindr_Inr_iff)
    moreover from r have "pid = fresh" by (auto simp: remember_def bindr_Inr_iff)
    ultimately show ?thesis unfolding Remember
      by (cases "admitted dp t name (owners (session s))")
        (simp_all add: as_owner_refused as_owner_admitted Let_def get_db_def assms)
  qed
next
  case (Thread_history t limit)
  then show ?thesis using as_owner_memory [of dp t name _ s] by (simp, metis only_answer_state)
next
  case (Branches t limit)
  then show ?thesis using as_owner_memory [of dp t name _ s] by (simp, metis only_answer_state)
next
  case (Resume t)
  then show ?thesis using as_owner_memory [of dp t name _ s] by (simp, metis keep_graph_simps(2))
next
  case (Fork t i m)
  then show ?thesis using as_owner_memory [of dp t name _ s] by (simp, metis keep_graph_simps(2))
next
  case (Edit t i n crit count)
  then show ?thesis using as_owner_memory [of dp t name _ s] by (simp, metis keep_graph_simps(2))
qed (simp_all add: split_beta)

section \<open>The audit rows\<close>

lemma get_db_executions:
  assumes "prefix (executions d) (executions (snd (h d)))"
  shows "prefix (executions d) (executions (snd (get_db commit h d)))"
  using get_db_outcome [of commit h d] assms by auto

lemma finish_run_executions: "prefix (executions d) (executions (snd (finish_run sv p r d)))"
  by (auto simp: finish_run_def split: sum.splits exn.splits)

lemma as_owner_executions:
  "executions (session (snd (as_owner dp t name h s))) = executions (session s)"
  by (rule as_owner_cases [of dp t name s h]) auto

lemma route_executions:
  "prefix (executions (session s)) (executions (session (snd (route dp now fresh name c s))))"
proof (cases c)
  case (Run p)
  then show ?thesis
    by (simp add: run_agent_def split_beta get_db_executions finish_run_executions)
next
  case (Run_stream p)
  then show ?thesis
    by (simp add: run_agent_stream_def split_beta get_db_executions)
qed (simp_all add: as_owner_executions split_beta)

end
