(* ===== verification/Checkpoint_Claims.thy ===== *)
theory Checkpoint_Claims
  imports Checkpoints
begin

text \<open>
  What the thread routes do to a thread's chain of checkpoints: forking adds a branch and keeps
  the rest, editing writes one sibling checkpoint whose successor the graph's own edges choose,
  and so decides how a resumed run goes on. The instances run the main graph with a checkpoint
  after every superstep (\<open>history_api\<close>).
\<close>

section \<open>Identifiers\<close>

text \<open>The rows of a thread carry the identifiers in order.\<close>

definition ids_ok :: "saver \<Rightarrow> bool" where
  "ids_ok g \<longleftrightarrow> (\<forall>t. map ck_id (thread_rows t g) = map row_id [0..<length (thread_rows t g)])"

lemma row_id_inject [simp]: "row_id m = row_id n \<longleftrightarrow> m = n"
  by (simp add: row_id_def)

lemma row_id_not_empty [simp]: "row_id n \<noteq> []"
  by (simp add: row_id_def)

lemma chain_rows_ids: "map ck_id (chain_rows t now p n k src cs) = map row_id [n..<n + length cs]"
proof (induction cs arbitrary: p n k src)
  case Nil
  then show ?case by simp
next
  case (Cons c cs)
  have "[n..<n + length (c # cs)] = n # [Suc n..<Suc n + length cs]"
    by (subst upt_conv_Cons) simp_all
  with Cons show ?case by (simp del: upt_Suc)
qed

lemma chain_rows_length [simp]: "length (chain_rows t now p n k src cs) = length cs"
  by (induction cs arbitrary: p n k src) simp_all

lemma chain_rows_parents:
  "Suc j < length cs \<Longrightarrow>
   ck_parent (chain_rows t now p n k src cs ! Suc j) = Some (ck_id (chain_rows t now p n k src cs ! j))"
proof (induction cs arbitrary: p n k src j)
  case Nil
  then show ?case by simp
next
  case (Cons c cs)
  show ?case
  proof (cases j)
    case 0
    with Cons.prems show ?thesis by (cases cs) auto
  next
    case (Suc i)
    with Cons show ?thesis by simp
  qed
qed

lemma ids_ok_after: "ids_ok g \<Longrightarrow> ids_ok (g @ rows_after now cfg (thread_rows (cfg_thread cfg) g) src cs)"
proof -
  assume ok: "ids_ok g"
  let ?h = "thread_rows (cfg_thread cfg) g"
  let ?new = "rows_after now cfg ?h src cs"
  have own: "map ck_id ?new = map row_id [length ?h..<length ?h + length cs]" and "length ?new = length cs"
    by (simp_all add: rows_after_def Let_def chain_rows_ids)
  show "ids_ok (g @ ?new)"
    unfolding ids_ok_def
  proof
    fix t
    show "map ck_id (thread_rows t (g @ ?new)) = map row_id [0..<length (thread_rows t (g @ ?new))]"
    proof (cases "t = cfg_thread cfg")
      case True
      have "thread_rows t ?new = ?new" unfolding True by (rule thread_rows_own) simp
      with ok own \<open>length ?new = length cs\<close> True show ?thesis
        by (simp add: ids_ok_def upt_add_eq_append [of 0] del: upt_Suc)
    next
      case False
      have "thread_rows t ?new = []" by (rule thread_rows_other [OF _ False]) simp
      with ok show ?thesis by (simp add: ids_ok_def)
    qed
  qed
qed

text \<open>A checkpoint, once written, is found under its identifier whatever is added.\<close>

lemma find_checkpoint_kept:
  "find_checkpoint (Some i) h = Some k \<Longrightarrow> find_checkpoint (Some i) (h @ new) = Some k"
  by (simp add: find_checkpoint_def find_append)

lemma find_checkpoint_id: "find_checkpoint (Some i) h = Some k \<Longrightarrow> ck_id k = i \<and> k \<in> set h"
  by (auto simp: find_checkpoint_def find_Some_iff)

lemma checkpoint_config_simps [simp]:
  "cfg_checkpoint (checkpoint_config t None) = None"
  "i \<noteq> [] \<Longrightarrow> cfg_checkpoint (checkpoint_config t (Some i)) = Some i"
  by (simp_all add: checkpoint_config_def)

section \<open>Branches\<close>

definition children :: "string \<Rightarrow> saver \<Rightarrow> nat" where
  "children i h = length (filter (\<lambda>c. ck_parent c = Some i) h)"

lemma children_append [simp]: "children i (h @ h') = children i h + children i h'"
  by (simp add: children_def)

lemma chain_children:
  assumes "m < n"
  shows "children (row_id m) (chain_rows t now (Some (row_id n)) (Suc n) k src cs) = 0"
proof -
  have "\<forall>c \<in> set (chain_rows t now (Some (row_id j)) (Suc j) k src cs). \<exists>j' \<ge> j. ck_parent c = Some (row_id j')"
    for j
  proof (induction cs arbitrary: j k src)
    case Nil
    then show ?case by simp
  next
    case (Cons c cs)
    then show ?case by (fastforce simp: Suc_le_eq dest: order.strict_implies_order)
  qed
  with assms show ?thesis by (fastforce simp: children_def filter_empty_conv)
qed

text \<open>The first of the rows a pinned run or edit adds is a new child of the checkpoint it is
  pinned to, and the only one.\<close>

lemma pinned_children:
  assumes "ids_ok g" and "find_checkpoint (Some i) (thread_rows (cfg_thread cfg) g) = Some k"
    and "cfg_checkpoint cfg = Some i"
  shows "children i (rows_after now cfg (thread_rows (cfg_thread cfg) g) src (c # cs)) = 1"
proof -
  let ?h = "thread_rows (cfg_thread cfg) g"
  from find_checkpoint_id [OF assms(2)] have i: "ck_id k = i" and k: "k \<in> set ?h" by auto
  from k have "ck_id k \<in> set (map ck_id ?h)" by simp
  then obtain m where m: "i = row_id m" "m < length ?h"
    unfolding assms(1) [unfolded ids_ok_def, rule_format, of "cfg_thread cfg"] i by auto
  have "rows_after now cfg ?h src (c # cs) = [hd (rows_after now cfg ?h src (c # cs))] @
      chain_rows (cfg_thread cfg) now (Some (row_id (length ?h))) (Suc (length ?h))
        (next_step (Some k) + 1) ''loop'' cs"
    by (simp add: rows_after_def Let_def assms(2,3))
  then have "children i (rows_after now cfg ?h src (c # cs)) =
      children i [hd (rows_after now cfg ?h src (c # cs))]"
    by (metis children_append chain_children [OF m(2)] m(1) add.right_neutral)
  then show ?thesis by (simp add: rows_after_def Let_def assms(2,3) parent_of_def i children_def)
qed

lemma timeline_children:
  assumes "length (thread_rows t g) \<le> nat limit"
    and "thread_branches (history_api base l now) sv t limit g = Inr br"
  shows "(i, n) \<in> set (br_fork_points br) \<longleftrightarrow> n = children i (thread_rows t g) \<and> 1 < n"
proof -
  let ?tl = "map (snapshot_summary \<circ> snapshot_of) (rev (thread_rows t g))"
  from assms have "br_fork_points br = fork_points (branch_tree ?tl)"
    by (auto simp: thread_branches_def thread_timeline_def history_api_def state_graph.defs
        bindr_Inr_iff Let_def split: option.splits)
  moreover have "length (filter (\<lambda>e. su_parent_checkpoint_id e = Some i) ?tl) = children i (thread_rows t g)"
    by (simp add: children_def filter_map comp_def snapshot_summary_def snapshot_of_def
        rev_filter [symmetric] option.case_eq_if option.map_sel)
       (metis (mono_tags, lifting) length_rev rev_filter)
  ultimately show ?thesis using fork_points_exact [of i n ?tl] by auto
qed

section \<open>Forking\<close>

lemma history_answer:
  assumes "history_ainvoke base limit now cx cfg (Some ms) g = (Inr out, g')"
  shows "\<exists>c cs. g' = g @ rows_after now cfg (thread_rows (cfg_thread cfg) g) ''input'' (c # cs) \<and>
     c = start_config (ctx_env base cx)
       (start_state (find_checkpoint (cfg_checkpoint cfg) (thread_rows (cfg_thread cfg) g))) ms"
  using assms
  by (auto simp: history_ainvoke_def history_run_def logged_run_def run_source_def Let_def split_beta
      split: prod.splits option.splits)


section \<open>Editing\<close>

lemma node_of_name [simp]: "node_of (node_name n) = Some n"
  by (cases n) (simp_all add: node_of_def all_nodes_def)

text \<open>The state with the given fields overwritten.\<close>

definition edited :: "string option \<Rightarrow> int option \<Rightarrow> graph_state \<Rightarrow> graph_state" where
  "edited crit count s = s\<lparr>critique := (case crit of None \<Rightarrow> critique s | Some x \<Rightarrow> Some x),
     revision_count := (case count of None \<Rightarrow> revision_count s | Some x \<Rightarrow> Some x)\<rparr>"

lemma edited_simps [simp]:
  "messages (edited crit count s) = messages s"
  "critique (edited (Some x) count s) = Some x" "critique (edited None count s) = critique s"
  "revision_count (edited crit (Some y) s) = Some y" "revision_count (edited crit None s) = revision_count s"
  by (simp_all add: edited_def)

lemma apply_edit:
  "apply_delta am s (fold write_value (edit_values crit count) no_update) = edited crit count s"
  by (cases crit; cases count)
    (simp_all add: edit_values_def apply_delta_def no_update_def edited_def overwrite_def)

lemma edit_answer:
  assumes "find_checkpoint (Some i) (thread_rows t g) = Some k" and "i \<noteq> []"
    and "edit_thread_checkpoint (history_api base limit now) sv t i (node_name n) crit count g = (Inr er, g')"
  obtains c nx where "g' = g @ [c]" and "ck_thread c = t" and "ck_parent c = Some i"
    and "ck_id c = er_new er" and "ck_state c = edited crit count (ck_state k)" and "ck_pending c = nx"
    and "next_node base n (ck_state c) = Inr nx"
proof -
  let ?cfg = "checkpoint_config t (Some i)" and ?h = "thread_rows t g"
  from assms(3) obtain cfg' where u: "history_update base now ?cfg (edit_values crit count) (node_name n) g
      = Inr (cfg', g')" and id: "cfg_checkpoint cfg' = Some (er_new er)"
    by (auto simp: edit_thread_checkpoint_def edit_checkpoint_def Let_def split: if_splits option.splits
        sum.splits)
  from u obtain nx where "next_node base n (edited crit count (ck_state k)) = Inr nx"
    and "cfg' = \<lparr>cfg_thread = t, cfg_checkpoint = Some (row_id (length ?h))\<rparr>"
    and "g' = g @ rows_after now ?cfg ?h ''update''
      [\<lparr>pending = nx, gstate = edited crit count (ck_state k), outside = nothing_done\<rparr>]"
    using assms(1,2) by (auto simp: history_update_def Let_def start_state_def apply_edit bindr_Inr_iff)
  with id that assms(1,2) find_checkpoint_id [OF assms(1)] show ?thesis
    by (simp add: rows_after_def Let_def parent_of_def)
qed

text \<open>The row written last is what the thread's routes see from then on.\<close>

lemma latest_after:
  assumes "ck_thread c = t"
  shows "find_checkpoint None (thread_rows t (g @ [c])) = Some c"
  using assms by (simp add: find_checkpoint_def thread_rows_def)

lemma interrupted_after:
  assumes "ck_thread c = t"
  shows "is_interrupted (state_graph.truncate (history_api base limit now)) t (g @ [c]) =
    Inr (ck_pending c \<noteq> None)"
  using latest_after [OF assms]
  by (simp add: is_interrupted_def history_state_def snapshot_of_def split: option.split)

lemma resumed_run:
  assumes "ck_thread c = t" and "prepare sv name rows = Inr cx"
  shows "run_on_thread (history_api base limit now) sv name rows (checkpoint_config t None) None (g @ [c]) =
    (case run_log (superstep (ctx_env base cx)) ended limit
        \<lparr>pending = ck_pending c, gstate = ck_state c, outside = nothing_done\<rparr> of
       ((None, d), cs) \<Rightarrow> (Inr (output_of (gstate d)),
          (g @ [c]) @ rows_after now (checkpoint_config t None) (thread_rows t (g @ [c])) ''loop'' cs)
     | ((Some e, d), cs) \<Rightarrow> (Inl e,
          (g @ [c]) @ rows_after now (checkpoint_config t None) (thread_rows t (g @ [c])) ''loop'' cs))"
  using latest_after [OF assms(1)] assms(2)
  by (simp add: run_on_thread_def history_ainvoke_def history_run_def logged_run_def run_source_def Let_def
      split: prod.splits option.splits)

text \<open>A critic that finds the budget spent passes any draft, and ends the run.\<close>

lemma critic_ends:
  assumes "messages s \<noteq> []" and "revision_count s = Some n" and "3 \<le> n"
  shows "\<exists>d. run_log (superstep env) ended (Suc k) \<lparr>pending = Some Critic, gstate = s, outside = w\<rparr> =
      ((None, d), [d]) \<and> pending d = None \<and> messages (gstate d) = messages s \<and>
      critique (gstate d) = Some ''PASS'' \<and> calls (outside d) = calls w"
proof -
  have "verdict_of (content (last (messages s))) n = ''PASS''"
    using assms(3) by (simp add: verdict_of_def GENERAL_REVISION_LIMIT_def)
  then obtain d where d: "superstep env \<lparr>pending = Some Critic, gstate = s, outside = w\<rparr> = (None, d)"
    "pending d = None" "messages (gstate d) = messages s" "critique (gstate d) = Some ''PASS''"
    "calls (outside d) = calls w"
    using assms(1,2)
    by (simp add: superstep_def critic_def last_of_Inr Let_def apply_delta_def no_update_def
        after_critic_def)
  moreover have "run_log (superstep env) ended k d = ((None, d), [])"
    using d(2) by (cases k) (simp_all add: ended_def)
  ultimately show ?thesis by (simp add: ended_def)
qed

lemma edit_passes:
  assumes "find_checkpoint (Some i) (thread_rows t g) = Some k" and "i \<noteq> []" and "sv_build sv = None"
    and "edit_thread_checkpoint (history_api base limit now) sv t i ''critic'' (Some ''PASS'') count g
      = (Inr er, g')"
  shows "resume_thread (history_api base limit now) sv t name rows g' =
    (Inl (HTTPException 404 ''No interrupted run for this thread_id (nothing pending).''), g')"
proof -
  have "''critic'' = node_name Critic" by simp
  from edit_answer [OF assms(1,2) assms(4) [unfolded this]] obtain c where
    "g' = g @ [c]" "ck_thread c = t" "ck_pending c = None" by (auto simp: after_critic_def)
  with assms(3) show ?thesis by (simp add: resume_thread_def interrupted_after)
qed

lemma edit_redrafts:
  assumes "find_checkpoint (Some i) (thread_rows t g) = Some k" and "i \<noteq> []"
    and "edit_thread_checkpoint (history_api base limit now) sv t i ''critic'' (Some note) count g
      = (Inr er, g')"
    and "note \<noteq> ''PASS''" and "note \<noteq> []"
  shows "\<exists>c. g' = g @ [c] \<and> ck_thread c = t \<and> ck_parent c = Some i \<and> ck_id c = er_new er \<and>
    ck_pending c = Some General_worker \<and>
    ''Address this feedback on your last draft: '' @ note \<in> set (general_context_lines (ck_state c))"
proof -
  have "''critic'' = node_name Critic" by simp
  from edit_answer [OF assms(1,2) assms(3) [unfolded this]] assms(4,5) show ?thesis
    by (fastforce simp: after_critic_def general_context_lines_def Let_def)
qed

lemma edit_ends:
  assumes "find_checkpoint (Some i) (thread_rows t g) = Some k" and "i \<noteq> []"
    and "messages (ck_state k) \<noteq> []" and "1 \<le> limit" and "prepare sv name rows = Inr cx"
    and "edit_thread_checkpoint (history_api base limit now) sv t i ''general'' None (Some n) g
      = (Inr er, g')"
    and "3 \<le> n"
  shows "\<exists>out g''. run_on_thread (history_api base limit now) sv name rows (checkpoint_config t None) None g'
      = (Inr out, g'') \<and> out_messages out = messages (ck_state k) \<and>
    is_interrupted (state_graph.truncate (history_api base limit now)) t g'' = Inr False"
proof -
  have "''general'' = node_name General_worker" by simp
  from edit_answer [OF assms(1,2) assms(6) [unfolded this]] obtain c where c: "g' = g @ [c]"
    "ck_thread c = t" "ck_state c = edited None (Some n) (ck_state k)" "ck_pending c = Some Critic" by auto
  obtain l where limit: "limit = Suc l" using assms(4) by (cases limit) auto
  from critic_ends [of "ck_state c" n "ctx_env base cx" l nothing_done] c assms(3,7) obtain d where
    d: "run_log (superstep (ctx_env base cx)) ended limit
      \<lparr>pending = ck_pending c, gstate = ck_state c, outside = nothing_done\<rparr> = ((None, d), [d])"
    "pending d = None" "messages (gstate d) = messages (ck_state k)" by (auto simp: limit)
  let ?rows = "rows_after now (checkpoint_config t None) (thread_rows t (g @ [c])) ''loop'' [d]"
  have run: "run_on_thread (history_api base limit now) sv name rows (checkpoint_config t None) None g' =
      (Inr (output_of (gstate d)), g' @ ?rows)"
    using resumed_run [OF c(2) assms(5), of base limit now g] by (simp add: c(1) d(1))
  obtain r where r: "?rows = [r]" "ck_thread r = t" "ck_pending r = None"
    using d(2) by (simp add: rows_after_def Let_def)
  with run d(3) interrupted_after [OF r(2), of base limit now g'] show ?thesis
    by (simp add: output_of_def)
qed

text \<open>C15. Editing decides how the drafting loop goes on. As the critic: \<open>PASS\<close> ends the run for
  good - resuming answers 404 and changes nothing - and any other note sends it back to the
  worker, whose next prompt carries the note. As the worker with a count of three or more: the
  resumed run keeps the draft, makes no model call and ends after the critic.\<close>

theorem edit_steers_loop:
  assumes "find_checkpoint (Some i) (thread_rows t g) = Some k" and "i \<noteq> []"
    and "messages (ck_state k) \<noteq> []" and "1 \<le> limit" and "prepare sv name rows = Inr cx"
    and "edit_thread_checkpoint (history_api base limit now) sv t i as_node crit count g = (Inr er, g')"
  shows "\<exists>c. g' = g @ [c] \<and> ck_parent c = Some i \<and> ck_id c = er_new er \<and>
    (as_node = ''critic'' \<and> crit = Some ''PASS'' \<longrightarrow>
       resume_thread (history_api base limit now) sv t name rows g' =
         (Inl (HTTPException 404 ''No interrupted run for this thread_id (nothing pending).''), g')) \<and>
    (as_node = ''critic'' \<and> (\<exists>note. crit = Some note \<and> note \<notin> {[], ''PASS''}) \<longrightarrow>
       ck_pending c = Some General_worker \<and>
       ''Address this feedback on your last draft: '' @ the crit \<in> set (general_context_lines (ck_state c))) \<and>
    (as_node = ''general'' \<and> crit = None \<and> (\<exists>n \<ge> 3. count = Some n) \<longrightarrow>
       (\<exists>out g''. run_on_thread (history_api base limit now) sv name rows (checkpoint_config t None) None g'
           = (Inr out, g'') \<and> out_messages out = messages (ck_state k) \<and>
         is_interrupted (state_graph.truncate (history_api base limit now)) t g'' = Inr False))"
proof -
  obtain n where n: "as_node = node_name n"
    using assms(6) by (auto simp: edit_thread_checkpoint_def edit_checkpoint_def Let_def history_update_def
        node_of_def find_Some_iff split: if_splits option.splits sum.splits)
  from edit_answer [OF assms(1,2) assms(6) [unfolded n]] obtain c where
    c: "g' = g @ [c]" "ck_parent c = Some i" "ck_id c = er_new er" by metis
  have "sv_build sv = None" using assms(5) by (auto simp: prepare_def split: option.splits)
  show ?thesis
  proof (intro exI [of _ c] conjI impI c)
    assume "as_node = ''critic'' \<and> crit = Some ''PASS''"
    with assms(6) edit_passes [OF assms(1,2) \<open>sv_build sv = None\<close>] show
      "resume_thread (history_api base limit now) sv t name rows g' =
         (Inl (HTTPException 404 ''No interrupted run for this thread_id (nothing pending).''), g')" by blast
  next
    assume "as_node = ''critic'' \<and> (\<exists>note. crit = Some note \<and> note \<notin> {[], ''PASS''})"
    with assms(6) edit_redrafts [OF assms(1,2)] c(1) show "ck_pending c = Some General_worker"
      and "''Address this feedback on your last draft: '' @ the crit \<in> set (general_context_lines (ck_state c))"
      by fastforce+
  next
    assume "as_node = ''general'' \<and> crit = None \<and> (\<exists>n \<ge> 3. count = Some n)"
    with assms(6) edit_ends [OF assms(1-5)] show "\<exists>out g''. run_on_thread (history_api base limit now) sv
        name rows (checkpoint_config t None) None g' = (Inr out, g'') \<and>
        out_messages out = messages (ck_state k) \<and>
        is_interrupted (state_graph.truncate (history_api base limit now)) t g'' = Inr False" by blast
  qed
qed

section \<open>Instances\<close>

definition sample_saver :: saver where
  "sample_saver = [\<lparr>ck_thread = ''t1'', ck_id = row_id 0, ck_ts = 0, ck_parent = None,
     ck_pending = Some Critic, ck_state = empty_state\<lparr>messages := [HumanMessage ''my invoice'',
       AIMessage ''a stub'' []], revision_count := Some 1\<rparr>, ck_source = ''loop'', ck_step = 0\<rparr>]"

definition sample_history :: "(saver, edit_value list) graph_api" where
  "sample_history = history_api (sample_env []) 8 0"

lemma sample_saver_ids: "ids_ok sample_saver"
  by (simp add: ids_ok_def sample_saver_def thread_rows_def)

lemma sample_found: "find_checkpoint (Some (row_id 0)) (thread_rows ''t1'' sample_saver) =
    Some (hd sample_saver)"
  by (simp add: find_checkpoint_def sample_saver_def thread_rows_def)

lemma sample_prepared: "\<exists>cx. prepare (sample_services_record None) ''alice'' sample_rows = Inr cx"
  by (simp add: prepare_def sample_services_record_def)

lemma sample_fork: "\<not> isl (fst (fork_thread sample_history (sample_services_record None) ''t1''
    (row_id 0) ''my last invoice'' ''alice'' sample_rows sample_saver))"
  by code_simp

lemma sample_edit: "\<not> isl (fst (edit_thread_checkpoint sample_history (sample_services_record None) ''t1''
    (row_id 0) ''general'' None (Some 3) sample_saver))"
  by code_simp


theorem edit_steers_loop_witness:
  "\<exists>er g' out g''. edit_thread_checkpoint sample_history (sample_services_record None) ''t1''
       (row_id 0) ''general'' None (Some 3) sample_saver = (Inr er, g') \<and>
     run_on_thread sample_history (sample_services_record None) ''alice'' sample_rows
       (checkpoint_config ''t1'' None) None g' = (Inr out, g'') \<and>
     map content (out_messages out) = [''my invoice'', ''a stub'']"
proof -
  obtain er g' where run: "edit_thread_checkpoint sample_history (sample_services_record None) ''t1''
       (row_id 0) ''general'' None (Some 3) sample_saver = (Inr er, g')"
    using sample_edit by (metis prod.collapse sum.collapse(2))
  obtain cx where cx: "prepare (sample_services_record None) ''alice'' sample_rows = Inr cx"
    using sample_prepared by blast
  have m: "messages (ck_state (hd sample_saver)) = [HumanMessage ''my invoice'', AIMessage ''a stub'' []]"
    by (simp add: sample_saver_def)
  have "messages (ck_state (hd sample_saver)) \<noteq> []" by (simp add: m)
  from edit_steers_loop [OF sample_found row_id_not_empty this _ cx run [unfolded sample_history_def]] run m
  show ?thesis by (auto simp: sample_history_def)
qed

end
