(* ===== verification/Service_Claims.thy ===== *)
theory Service_Claims
  imports Service_Props Checkpoint_Claims
begin

text \<open>
  Properties of the service over every sequence of requests: who is let in, what the tables and
  the checkpoints keep, who can reach a thread, and where a remembered text can come from.
\<close>

section \<open>Sequences of requests\<close>

lemma handle_cases:
  obtains (same) "snd (handle_request dp r s) = s"
  | (routed) name c where "body r = Call c" and "current_user dp (arrival r) (token r) = Inr name"
    and "handle_request dp r s = route dp (arrival r) (uuid r) name c s"
proof (cases "body r")
  case (Login n p)
  with same show ?thesis by (simp add: handle_request_def)
next
  case (Call c)
  with same routed show ?thesis
    by (cases "current_user dp (arrival r) (token r)") (simp_all add: handle_request_def)
qed

lemma serve_all_Cons [simp]:
  "snd (serve_all f (r # rs) d) = snd (serve_all f rs (snd (f r d)))"
  by (simp add: split_beta)

declare serve_all.simps(2) [simp del]

lemma claimed_owner:
  "select_owner t' (claimed dp t name rows) = (if \<not> is_admin (config_of dp) name \<and> t' = t \<and>
     select_owner t rows = None then Some name else select_owner t' rows)"
  by (cases "is_admin (config_of dp) name") (auto simp: claimed_def own.claim_admin own.claim_owner)

lemma claimed_ok: "rows_ok rows \<Longrightarrow> rows_ok (claimed dp t name rows)"
  by (simp add: claimed_def own.claim_ok)

lemma admitted_iff: "admitted dp t name rows \<longleftrightarrow>
    is_admin (config_of dp) name \<or> select_owner t rows \<in> {None, Some name}"
  using own.denied_iff [of "config_of dp" t name rows]
  by (cases "select_owner t rows") (auto simp: admitted_def)

text \<open>One request: the tables only grow, and without a sweep so do the checkpoints.\<close>

definition grows :: "bool \<Rightarrow> service \<Rightarrow> service \<Rightarrow> bool" where
  "grows swept s s' \<longleftrightarrow> prefix (executions (session s)) (executions (session s')) \<and>
     (\<forall>t u. select_owner t (owners (session s)) = Some u \<longrightarrow> select_owner t (owners (session s')) = Some u) \<and>
     (rows_ok (owners (session s)) \<longrightarrow> rows_ok (owners (session s'))) \<and>
     (\<not> swept \<longrightarrow> prefix (saver s) (saver s'))"

lemma grows_refl [simp]: "grows b s s"
  by (simp add: grows_def)

lemma grows_trans: "grows b s s' \<Longrightarrow> grows b' s' s'' \<Longrightarrow> grows (b \<or> b') s s''"
  unfolding grows_def by (auto intro: prefix_order.trans)

lemma handle_grows:
  assumes "lawful dp"
  shows "grows (body r = Call Run_gc) s (snd (handle_request dp r s))"
proof (cases rule: handle_cases [of dp r s])
  case same
  then show ?thesis by simp
next
  case (routed name c)
  let ?s = "snd (route dp (arrival r) (uuid r) name c s)"
  have "owners (session ?s) = owners (session s) \<or> (\<exists>t. owners (session ?s) = claimed dp t name (owners (session s)))"
    using route_owners by blast
  then have "(\<forall>t u. select_owner t (owners (session s)) = Some u \<longrightarrow> select_owner t (owners (session ?s)) = Some u) \<and>
     (rows_ok (owners (session s)) \<longrightarrow> rows_ok (owners (session ?s)))"
    by (auto simp: claimed_owner claimed_ok)
  moreover have "c \<noteq> Run_gc \<Longrightarrow> prefix (saver s) (saver ?s)"
    using route_adds [OF assms, of c "arrival r" "uuid r" name s] by (auto dest: adds_prefix)
  ultimately show ?thesis
    using route_executions [of s dp "arrival r" "uuid r" name c] routed by (auto simp: grows_def)
qed

lemma handle_owner:
  "lawful dp \<Longrightarrow> select_owner t (owners (session s)) = Some u \<Longrightarrow>
   select_owner t (owners (session (snd (handle_request dp r s)))) = Some u"
  using handle_grows by (simp add: grows_def)

lemma serve_all_grows:
  assumes "lawful dp"
  shows "grows (\<not> list_all (\<lambda>r. body r \<noteq> Call Run_gc) rs) s (snd (serve_all (handle_request dp) rs s))"
proof (induction rs arbitrary: s)
  case Nil
  then show ?case by simp
next
  case (Cons r rs)
  from grows_trans [OF handle_grows [OF assms] Cons.IH] show ?case by simp
qed

text \<open>C11. Nothing is rewritten: over any sequence of requests the audit table is extended at its
  end, a thread keeps the owner it has, no thread gets two, and - sweeps aside - checkpoints are
  only added.\<close>

theorem service_only_adds:
  assumes "lawful dp" and "snd (serve_all (handle_request dp) rs s) = s'"
  shows "prefix (executions (session s)) (executions (session s')) \<and>
    (select_owner t (owners (session s)) = Some u \<longrightarrow> select_owner t (owners (session s')) = Some u) \<and>
    (rows_ok (owners (session s)) \<longrightarrow> rows_ok (owners (session s'))) \<and>
    (list_all (\<lambda>r. body r \<noteq> Call Run_gc) rs \<longrightarrow> prefix (saver s) (saver s'))"
  using serve_all_grows [OF assms(1), of rs s] assms(2) by (simp add: grows_def)

section \<open>Who is let in\<close>


section \<open>Who can reach a thread\<close>

text \<open>A request can write to a thread's checkpoints when it is authenticated and either is a sweep,
  or names the thread on a route without ownership check, or on one with it and comes from the
  owner or the admin.\<close>

definition reaches :: "deployment \<Rightarrow> string \<Rightarrow> string \<Rightarrow> request \<Rightarrow> bool" where
  "reaches dp t owner r \<longleftrightarrow> (case (body r, current_user dp (arrival r) (token r)) of
       (Call c, Inr name) \<Rightarrow> c = Run_gc \<or> writes_to name (uuid r) c = Some t \<and>
         (gated c = None \<or> name = owner \<or> is_admin (config_of dp) name)
     | _ \<Rightarrow> False)"

lemma handle_unreached:
  assumes "lawful dp" and "select_owner t (owners (session s)) = Some u" and "\<not> reaches dp t u r"
  shows "thread_rows t (saver (snd (handle_request dp r s))) = thread_rows t (saver s)"
proof (cases rule: handle_cases [of dp r s])
  case same
  then show ?thesis by simp
next
  case (routed name c)
  with assms(3) have c: "c \<noteq> Run_gc"
    and out: "writes_to name (uuid r) c = Some t \<Longrightarrow> gated c \<noteq> None \<and> name \<noteq> u \<and> \<not> is_admin (config_of dp) name"
    by (auto simp: reaches_def)
  from route_adds [OF assms(1) c, of "arrival r" "uuid r" name s] show ?thesis
  proof (elim disjE exE conjE)
    fix t'
    assume w: "writes_to name (uuid r) c = Some t'"
      and a: "adds t' (saver s) (saver (snd (route dp (arrival r) (uuid r) name c s)))"
      and "gated c = Some t'" "admitted dp t' name (owners (session s))"
    with out assms(2) have "t \<noteq> t'" by (auto simp: admitted_iff)
    with adds_other [OF a] routed(3) show ?thesis by simp
  next
    fix t'
    assume w: "writes_to name (uuid r) c = Some t'"
      and a: "adds t' (saver s) (saver (snd (route dp (arrival r) (uuid r) name c s)))"
      and "gated c = None"
    with out have "t \<noteq> t'" by auto
    with adds_other [OF a] routed(3) show ?thesis by simp
  qed (simp add: routed(3))
qed


section \<open>Where a remembered text comes from\<close>

text \<open>The facts stored by the requests of a sequence: user, thread and text.\<close>

definition fact_of :: "deployment \<Rightarrow> request \<Rightarrow> service \<Rightarrow> (string \<times> string \<times> string) list" where
  "fact_of dp r s = (case (body r, current_user dp (arrival r) (token r)) of
       (Call (Remember t w), Inr name) \<Rightarrow>
         (case fst (handle_request dp r s) of Inr _ \<Rightarrow> [(name, t, w)] | Inl _ \<Rightarrow> [])
     | _ \<Rightarrow> [])"

fun facts :: "deployment \<Rightarrow> request list \<Rightarrow> service \<Rightarrow> (string \<times> string \<times> string) list" where
  "facts dp [] s = []"
| "facts dp (r # rs) s = fact_of dp r s @ facts dp rs (snd (handle_request dp r s))"

text \<open>The documented behaviour of the memory's backend and a database that commits.\<close>

definition stores_ok :: "deployment \<Rightarrow> bool" where
  "stores_ok dp \<longleftrightarrow> (\<forall>d. dp_commit dp d = None) \<and> query_law (dp_backend dp) \<and>
     upsert_law (dp_backend dp) \<and> create_law (dp_backend dp)"

lemma remember_points:
  assumes "stores_ok dp" and "remember st (dp_backend dp) i t w None m = Inr (j, m')"
  shows "\<exists>p. set (points m') \<subseteq> insert p (set (points m)) \<and> map_of (payload p) ''text'' = Some w \<and>
    map_of (payload p) ''thread_id'' = Some t"
proof -
  from assms(2) obtain v m1 where e: "ensure_collection st (dp_backend dp) (length v) m = Inr m1"
    and u: "upsert (dp_backend dp) m1 (qdrant_collection st) [\<lparr>point_id = i, vector = v,
           payload = [(''text'', w), (''thread_id'', t)]\<rparr>] = Inr m'"
    by (auto simp: remember_def bindr_Inr_iff dict_merge_def)
  from e assms(1) have "points m1 = points m"
    by (auto simp: ensure_collection_def create_law_def stores_ok_def split: if_splits)
  moreover from u assms(1) have "points m' = filter (\<lambda>q. point_id q \<noteq> i) (points m1) @
      [\<lparr>point_id = i, vector = v, payload = [(''text'', w), (''thread_id'', t)]\<rparr>]"
    unfolding upsert_law_def stores_ok_def by fastforce
  ultimately show ?thesis
    by (intro exI [of _ "\<lparr>point_id = i, vector = v, payload = [(''text'', w), (''thread_id'', t)]\<rparr>"]) auto
qed

definition traced_point :: "deployment \<Rightarrow> (string \<times> string \<times> string) set \<Rightarrow> ownership_rows \<Rightarrow> point \<Rightarrow> bool" where
  "traced_point dp L rows p \<longleftrightarrow> (\<exists>v t w. (v, t, w) \<in> L \<and>
     map_of (payload p) ''text'' = Some w \<and> map_of (payload p) ''thread_id'' = Some t \<and>
     (is_admin (config_of dp) v \<or> select_owner t rows = Some v))"

lemma traced_point_mono:
  assumes "traced_point dp L rows p" and "L \<subseteq> L'"
    and "\<And>t u. select_owner t rows = Some u \<Longrightarrow> select_owner t rows' = Some u"
  shows "traced_point dp L' rows' p"
proof -
  from assms(1) obtain v t w where "(v, t, w) \<in> L" "map_of (payload p) ''text'' = Some w"
    "map_of (payload p) ''thread_id'' = Some t" "is_admin (config_of dp) v \<or> select_owner t rows = Some v"
    by (auto simp: traced_point_def)
  with assms(2,3) show ?thesis unfolding traced_point_def by blast
qed

definition traced :: "deployment \<Rightarrow> (string \<times> string \<times> string) set \<Rightarrow> service \<Rightarrow> bool" where
  "traced dp L s \<longleftrightarrow> (\<forall>p \<in> set (points (memory s)). traced_point dp L (owners (session s)) p)"

lemma handle_traced:
  assumes "lawful dp" and "stores_ok dp" and "traced dp L s"
  shows "traced dp (L \<union> set (fact_of dp r s)) (snd (handle_request dp r s))"
proof -
  let ?s = "snd (handle_request dp r s)" and ?L = "L \<union> set (fact_of dp r s)"
  have old: "traced_point dp ?L (owners (session ?s)) p" if "p \<in> set (points (memory s))" for p
    using that assms(3) unfolding traced_def
    by (intro traced_point_mono [OF _ Un_upper1 handle_owner [OF assms(1)]]) blast+
  have new: "traced dp ?L ?s" if "set (points (memory ?s)) \<subseteq> insert p (set (points (memory s)))"
    and "traced_point dp ?L (owners (session ?s)) p" for p
    using that old unfolding traced_def by blast
  show ?thesis
  proof (cases rule: handle_cases [of dp r s])
    case same
    with old show ?thesis by (simp add: traced_def)
  next
    case (routed name c)
    have "\<And>d. dp_commit dp d = None" using assms(2) by (simp add: stores_ok_def)
    from route_memory [OF this, of "arrival r" "uuid r" name c s, folded routed(3)] show ?thesis
    proof (elim disjE exE conjE)
      assume "memory ?s = memory s"
      with old show ?thesis by (simp add: traced_def)
    next
      fix t w
      assume c: "c = Remember t w" and adm: "admitted dp t name (owners (session s))"
        and own: "owners (session ?s) = claimed dp t name (owners (session s))"
        and ok: "fst (handle_request dp r s) = Inr (Remembered (uuid r) t)"
        and rem: "remember (config_of dp) (dp_backend dp) (uuid r) t w None (memory s) = Inr (uuid r, memory ?s)"
      have "(name, t, w) \<in> ?L" using routed ok by (simp add: fact_of_def c)
      moreover have "is_admin (config_of dp) name \<or> select_owner t (owners (session ?s)) = Some name"
        using adm own by (auto simp: claimed_owner admitted_iff)
      moreover obtain p where "set (points (memory ?s)) \<subseteq> insert p (set (points (memory s)))"
        "map_of (payload p) ''text'' = Some w" "map_of (payload p) ''thread_id'' = Some t"
        using remember_points [OF assms(2) rem] by blast
      ultimately show ?thesis by (intro new) (auto simp: traced_point_def)
    qed
  qed
qed

lemma serve_all_traced:
  assumes "lawful dp" and "stores_ok dp" and "traced dp L s"
  shows "traced dp (L \<union> set (facts dp rs s)) (snd (serve_all (handle_request dp) rs s))"
  using assms(3)
proof (induction rs arbitrary: L s)
  case Nil
  then show ?case by simp
next
  case (Cons r rs)
  from Cons.IH [OF handle_traced [OF assms(1,2) Cons.prems, of r]] show ?case by (simp add: Un_assoc)
qed

lemma facts_traced:
  assumes "lawful dp" and "stores_ok dp" and "points (memory s) = []"
    and "p \<in> set (points (memory (snd (serve_all (handle_request dp) rs s))))"
  shows "traced_point dp (set (facts dp rs s)) (owners (session (snd (serve_all (handle_request dp) rs s)))) p"
proof -
  have "traced dp {} s" using assms(3) by (simp add: traced_def)
  from serve_all_traced [OF assms(1,2) this, of rs] assms(4) show ?thesis by (simp add: traced_def)
qed

text \<open>C10. Provenance: from an empty memory on, whatever requests are served, a search by a user who is
  not the admin finds only texts that this user or the admin has remembered through the route,
  each on a thread that this user owns.\<close>

theorem search_provenance:
  assumes "lawful dp" and "stores_ok dp" and "points (memory s) = []" and "rows_ok (owners (session s))"
    and "s' = snd (serve_all (handle_request dp) rs s)"
    and "body r = Call (Search_memory q n)" and "current_user dp (arrival r) (token r) = Inr name"
    and "\<not> is_admin (config_of dp) name"
    and "fst (handle_request dp r s') = Inr (Found q' hits)" and "h \<in> set hits"
  shows "\<exists>v t w. (v, t, w) \<in> set (facts dp rs s) \<and> hit_text h = Some w \<and> hit_thread_id h = Some t \<and>
    select_owner t (owners (session s')) = Some name \<and> (v = name \<or> is_admin (config_of dp) v)"
proof -
  let ?rows = "owners (session s')"
  have ok: "rows_ok ?rows" using serve_all_grows [OF assms(1), of rs s] assms(4,5) by (simp add: grows_def)
  have law: "query_law (dp_backend dp)" using assms(2) by (simp add: stores_ok_def)
  have "search_memory (config_of dp) (dp_backend dp) (memory s') q n name ?rows = Inr (q', hits)"
    using assms(6,7,9) by (auto simp: handle_request_def with_session_def only_answer_def get_db_def
        bindr_Inr_iff split: sum.splits option.splits)
  with assms(8) have s: "search (config_of dp) (dp_backend dp) (memory s') q n
      (Some (owned_thread_ids ?rows name)) = Inr hits"
    by (auto simp: search_memory_def valid_hits_def bindr_Inr_iff split: if_splits)
  obtain p where p: "p \<in> set (points (memory s'))" "hit_text h = map_of (payload p) ''text''"
    "hit_thread_id h = map_of (payload p) ''thread_id''"
    using search_hits [OF law s assms(10)] by blast
  obtain t where t: "hit_thread_id h = Some t" "t \<in> set (owned_thread_ids ?rows name)"
    using search_scoped [OF law s assms(10)] by blast
  have owner: "select_owner t ?rows = Some name" using t(2) by (simp only: own.owned_iff [OF ok])
  from facts_traced [OF assms(1-3), of p rs] p(1) assms(5) have
    "traced_point dp (set (facts dp rs s)) ?rows p" by simp
  with p(2,3) t(1) owner show ?thesis by (auto simp: traced_point_def)
qed

section \<open>Who gets to own a conversation\<close>

lemma unclaimed_stays:
  assumes "lawful dp" and "select_owner t (owners (session s)) = None"
    and "\<And>c. body r = Call c \<Longrightarrow> gated c \<noteq> Some t"
  shows "select_owner t (owners (session (snd (handle_request dp r s)))) = None"
proof (cases rule: handle_cases [of dp r s])
  case same
  with assms(2) show ?thesis by simp
next
  case (routed name c)
  with assms(3) have "gated c \<noteq> Some t" by simp
  with route_owners [of dp "arrival r" "uuid r" name c s] routed assms(2) show ?thesis
    by (auto simp: claimed_owner)
qed

lemma unclaimed_sequence:
  assumes "lawful dp" and "select_owner t (owners (session s)) = None"
    and "list_all (\<lambda>r. \<forall>c. body r = Call c \<longrightarrow> gated c \<noteq> Some t) rs"
  shows "select_owner t (owners (session (snd (serve_all (handle_request dp) rs s)))) = None"
  using assms(2,3)
proof (induction rs arbitrary: s)
  case Nil
  then show ?case by simp
next
  case (Cons r rs)
  then have "select_owner t (owners (session (snd (handle_request dp r s)))) = None"
    by (intro unclaimed_stays [OF assms(1)]) auto
  from Cons.IH [OF this] Cons.prems show ?case by simp
qed

lemma gated_served_owner:
  assumes "gated c = Some t" and "fst (route dp now fresh name c s) = Inr a"
    and "\<not> is_admin (config_of dp) name"
  shows "select_owner t (owners (session (snd (route dp now fresh name c s)))) = Some name"
proof -
  have gate: "select_owner t (owners (session (snd (as_owner dp t name h s)))) = Some name"
    if "fst (as_owner dp t name h s) = Inr a" for h
    using that assms(3) by (cases rule: as_owner_cases [of dp t name s h])
      (auto simp: claimed_owner admitted_iff)
  from assms(1,2) gate show ?thesis by (cases c) simp_all
qed

lemma gated_refused:
  assumes "gated c = Some t" and "\<not> admitted dp t name (owners (session s))"
  shows "fst (route dp now fresh name c s) = Inl (HTTPException 403 ''Not the owner of this thread_id.'')"
  using assms by (cases c) (simp_all add: as_owner_refused)

lemma gated_owned_for_ever:
  assumes "lawful dp" and "select_owner t (owners (session s)) = Some eve"
    and "body r = Call c" and "gated c = Some t" and "current_user dp (arrival r) (token r) = Inr alice"
    and "\<not> is_admin (config_of dp) alice" and "alice \<noteq> eve"
  shows "fst (handle_request dp r (snd (serve_all (handle_request dp) rs s))) =
    Inl (HTTPException 403 ''Not the owner of this thread_id.'')"
proof -
  from serve_all_grows [OF assms(1), of rs s] assms(2)
  have "select_owner t (owners (session (snd (serve_all (handle_request dp) rs s)))) = Some eve"
    by (simp add: grows_def)
  with assms(6,7) have "\<not> admitted dp t alice (owners (session (snd (serve_all (handle_request dp) rs s))))"
    by (simp add: admitted_iff)
  with gated_refused [OF assms(4)] assms(3,5) show ?thesis by (simp add: handle_request_def)
qed

text \<open>C9. Running a conversation gives no claim to it. However a thread that nobody has claimed was
  filled, by runs or anything but an ownership-checked route, any user who asks for its history
  is given it, all its checkpoints, and owns the thread from then on: everyone else but the
  admin, the author of the conversation included, is answered 403 by the checked routes for ever.\<close>

theorem first_touch_owns_conversation:
  assumes "lawful dp" and "\<And>d. dp_commit dp d = None"
    and "select_owner t (owners (session s)) = None"
    and "list_all (\<lambda>r. \<forall>c. body r = Call c \<longrightarrow> gated c \<noteq> Some t) rs"
    and "s1 = snd (serve_all (handle_request dp) rs s)"
    and "body r = Call (Thread_history t limit)" and "current_user dp (arrival r) (token r) = Inr eve"
    and "thread_history (dp_graph dp (memory s1) (arrival r)) (dp_services dp) t limit (saver s1) = Inr h"
    and "\<not> is_admin (config_of dp) eve"
    and "body r' = Call c" and "gated c = Some t" and "current_user dp (arrival r') (token r') = Inr alice"
    and "\<not> is_admin (config_of dp) alice" and "alice \<noteq> eve"
  shows "fst (handle_request dp r s1) = Inr (Timeline h) \<and>
    fst (handle_request dp r' (snd (serve_all (handle_request dp) rs' (snd (handle_request dp r s1))))) =
      Inl (HTTPException 403 ''Not the owner of this thread_id.'')"
proof -
  have none: "select_owner t (owners (session s1)) = None"
    unfolding assms(5) by (rule unclaimed_sequence [OF assms(1,3,4)])
  then have adm: "admitted dp t eve (owners (session s1))" by (simp add: admitted_iff)
  have eve: "handle_request dp r s1 = route dp (arrival r) (uuid r) eve (Thread_history t limit) s1"
    using assms(6,7) by (simp add: handle_request_def)
  with adm assms(2,8) have served: "fst (handle_request dp r s1) = Inr (Timeline h)"
    by (simp add: as_owner_admitted only_answer_def get_db_def Let_def)
  with eve gated_served_owner [of "Thread_history t limit" t dp "arrival r" "uuid r" eve s1] assms(9)
  have "select_owner t (owners (session (snd (handle_request dp r s1)))) = Some eve" by simp
  from gated_owned_for_ever [OF assms(1) this assms(10-14)] served show ?thesis by blast
qed

section \<open>Where the model's context comes from\<close>

text \<open>The deployed main graph: it keeps its checkpoints in the saver and searches the memory as it
  is at the time of the request.\<close>

definition deployed_graph :: "deployment \<Rightarrow> run_env \<Rightarrow> nat \<Rightarrow> bool" where
  "deployed_graph dp base limit \<longleftrightarrow> appends base \<and> env_settings base = config_of dp \<and>
     env_backend base = dp_backend dp \<and>
     dp_graph dp = (\<lambda>m now. history_api (base\<lparr>env_memory := m\<rparr>) limit now)"

lemma deployed_lawful: "deployed_graph dp base limit \<Longrightarrow> jwt_law (dp_jwt dp) \<Longrightarrow> lawful dp"
  using kept.checkpointer_axioms by (simp add: deployed_graph_def lawful_def)

text \<open>After an answered run the thread's latest checkpoint holds the state the run ended in.\<close>

lemma history_run_state:
  assumes "history_ainvoke base limit now cx (checkpoint_config t None) (Some ms) g = (Inr out, g')"
  shows "\<exists>c s k. invoke_graph (ctx_env base cx) limit s ms = (None, c) \<and>
     find_checkpoint None (thread_rows t g') = Some k \<and> ck_state k = gstate c"
proof -
  let ?cfg = "checkpoint_config t None" and ?h = "thread_rows t g"
  let ?start = "start_config (ctx_env base cx) (start_state (find_checkpoint None ?h)) ms"
  obtain r cs where log: "run_log (superstep (ctx_env base cx)) ended limit ?start = (r, cs)"
    by (metis prod.collapse)
  have cfg: "cfg_checkpoint ?cfg = None" by (simp add: checkpoint_config_def)
  from assms log obtain c where r: "r = (None, c)"
    and g': "g' = g @ rows_after now ?cfg ?h ''input'' (?start # cs)"
    by (auto simp: history_ainvoke_def history_run_def logged_run_def run_source_def Let_def cfg
        split: prod.splits option.splits)
  have "invoke_graph (ctx_env base cx) limit (start_state (find_checkpoint None ?h)) ms = (None, c)"
    using run_log_run [of "superstep (ctx_env base cx)" ended limit ?start] log r
    by (simp add: invoke_graph_def)
  moreover have "last (?start # cs) = c" using run_log_last [OF log [unfolded r]] .
  moreover have "list_all (\<lambda>x. ck_thread x = t) (rows_after now ?cfg ?h ''input'' (?start # cs))"
    using rows_after_thread [of ?cfg] by simp
  then have "thread_rows t g' = ?h @ rows_after now ?cfg ?h ''input'' (?start # cs)"
    by (simp add: g' thread_rows_own)
  moreover have "rows_after now ?cfg ?h ''input'' (?start # cs) \<noteq> [] \<and>
      ck_state (last (rows_after now ?cfg ?h ''input'' (?start # cs))) = gstate (last (?start # cs))"
    unfolding rows_after_def Let_def using chain_rows_last [of "?start # cs"] by blast
  ultimately show ?thesis by (auto simp: find_checkpoint_def)
qed

text \<open>The context an answered run has given to the model, with the tables of its session.\<close>

lemma run_context:
  assumes "deployed_graph dp base limit" and "query_law (dp_backend dp)"
    and "\<not> is_admin (config_of dp) name" and "rows_ok (owners d)"
    and "run_agent (dp_graph dp m now) (dp_services dp) commit p name g d = (Inr a, g', d')"
  shows "\<exists>k ctx. find_checkpoint None (thread_rows (run_thread_id p) g') = Some k \<and>
    retrieved_context (ck_state k) = Some ctx \<and> sum_list (map length ctx) \<le> 2000 \<and>
    (\<forall>x \<in> set ctx. \<exists>pt \<in> set (points m). \<exists>t. map_of (payload pt) ''text'' = Some x \<and>
       map_of (payload pt) ''thread_id'' = Some t \<and> select_owner t (owners d) = Some name)"
proof -
  let ?base = "base\<lparr>env_memory := m\<rparr>" and ?t = "run_thread_id p"
  have api: "dp_graph dp m now = history_api ?base limit now" and app: "appends ?base"
    and st: "env_settings ?base = config_of dp" "env_backend ?base = dp_backend dp"
    using assms(1) by (auto simp: deployed_graph_def appends_def)
  obtain out where "run_on_thread (history_api ?base limit now) (dp_services dp) name (owners d)
      (checkpoint_config ?t None) (Some [HumanMessage (task_description p)]) g = (Inr out, g')"
    using assms(5) unfolding api
    by (cases rule: run_agent_cases [where api = "history_api ?base limit now" and sv = "dp_services dp"
          and commit = commit and p = p and name = name and g = g and d = d]) (auto simp: prod_eq_iff)
  then obtain cx where cx: "prepare (dp_services dp) name (owners d) = Inr cx"
    and run: "history_ainvoke ?base limit now cx (checkpoint_config ?t None)
      (Some [HumanMessage (task_description p)]) g = (Inr out, g')"
    by (auto simp: run_on_thread_def split: sum.splits)
  have ctx: "cx_db cx = Some (owners d)" "cx_username cx = name"
    using cx by (auto simp: prepare_def bindr_Inr_iff split: option.splits)
  from history_run_state [OF run] obtain c s k where c: "invoke_graph (ctx_env ?base cx) limit s
      [HumanMessage (task_description p)] = (None, c)"
    and k: "find_checkpoint None (thread_rows ?t g') = Some k" "ck_state k = gstate c" by blast
  let ?env = "ctx_env ?base cx"
  from invoke_context [OF _ _ c] app obtain hits texts where
    hits: "scoped_search ?env (task_description p) 2 = Inr hits"
    and fit: "fit_context MAX_CONTEXT_CHARS hits = Inr texts"
    and t: "retrieved_context (gstate c) = Some texts" by (auto simp: fetched_def)
  from fit_context_spec [OF fit] obtain n where n: "map hit_text (take n hits) = map Some texts"
    and len: "sum_list (map length texts) \<le> MAX_CONTEXT_CHARS" by blast
  have env: "query_law (env_backend ?env)" "\<not> is_admin (env_settings ?env) (ctx_username ?env)"
    "ctx_db ?env = Some (owners d)" "env_memory ?env = m" "ctx_username ?env = name"
    using assms(2,3) ctx st by (simp_all add: ctx_env_def)
  have "\<exists>pt \<in> set (points m). \<exists>t. map_of (payload pt) ''text'' = Some x \<and>
       map_of (payload pt) ''thread_id'' = Some t \<and> select_owner t (owners d) = Some name"
    if "x \<in> set texts" for x
  proof -
    from that have "Some x \<in> set (map hit_text (take n hits))" unfolding n by simp
    then obtain h where h: "h \<in> set hits" "hit_text h = Some x" by (auto dest: in_set_takeD)
    from scoped_search_owned [OF env(1-3) assms(4) hits h(1)] h(2) env(4,5) show ?thesis by auto
  qed
  with k t len show ?thesis by (auto simp: MAX_CONTEXT_CHARS_def)
qed

text \<open>C1. Provenance of the context: from an empty memory on, whatever requests are served, an answered
  run of a user who is not the admin has put into the model's context only texts that this user
  or the admin has remembered through the route, each on a thread that this user owns.\<close>

theorem context_provenance:
  assumes "deployed_graph dp base limit" and "jwt_law (dp_jwt dp)" and "stores_ok dp"
    and "points (memory s) = []" and "rows_ok (owners (session s))"
    and "s1 = snd (serve_all (handle_request dp) rs s)"
    and "body r = Call (Run p)" and "current_user dp (arrival r) (token r) = Inr name"
    and "\<not> is_admin (config_of dp) name"
    and "handle_request dp r s1 = (Inr a, s2)"
  shows "\<exists>k ctx. find_checkpoint None (thread_rows (run_thread_id p) (saver s2)) = Some k \<and>
    retrieved_context (ck_state k) = Some ctx \<and> sum_list (map length ctx) \<le> 2000 \<and>
    (\<forall>x \<in> set ctx. \<exists>v t. (v, t, x) \<in> set (facts dp rs s) \<and>
       select_owner t (owners (session s1)) = Some name \<and> (v = name \<or> is_admin (config_of dp) v))"
proof -
  note lawful = deployed_lawful [OF assms(1,2)]
  have ok: "rows_ok (owners (session s1))"
    using serve_all_grows [OF lawful, of rs s] assms(5,6) by (simp add: grows_def)
  have law: "query_law (dp_backend dp)" using assms(3) by (simp add: stores_ok_def)
  obtain a' d' where "run_agent (dp_graph dp (memory s1) (arrival r)) (dp_services dp) (dp_commit dp) p
      name (saver s1) (session s1) = (Inr a', saver s2, d')"
    using assms(7,8,10) by (auto simp: handle_request_def bindr_Inr_iff split: prod.splits)
  from run_context [OF assms(1) law assms(9) ok this] obtain k ctx where
    k: "find_checkpoint None (thread_rows (run_thread_id p) (saver s2)) = Some k"
    "retrieved_context (ck_state k) = Some ctx" "sum_list (map length ctx) \<le> 2000"
    and ctx: "\<And>x. x \<in> set ctx \<Longrightarrow> \<exists>pt \<in> set (points (memory s1)). \<exists>t. map_of (payload pt) ''text'' = Some x \<and>
       map_of (payload pt) ''thread_id'' = Some t \<and> select_owner t (owners (session s1)) = Some name"
    by blast
  have "\<exists>v t. (v, t, x) \<in> set (facts dp rs s) \<and> select_owner t (owners (session s1)) = Some name \<and>
      (v = name \<or> is_admin (config_of dp) v)" if "x \<in> set ctx" for x
    using ctx [OF that] facts_traced [OF lawful assms(3,4), of _ rs]
    unfolding assms(6) [symmetric] traced_point_def by fastforce
  with k show ?thesis by blast
qed

section \<open>A deployment\<close>

text \<open>Two users beside the admin, a store that commits, and the main graph with sample models.
  Every request arrives at time 0.\<close>

definition sample_token :: "string \<Rightarrow> string" where
  "sample_token name = plain_encode (jwt_secret default_settings) (jwt_algorithm default_settings)
     \<lparr>sub = Some name, exp_at = 1\<rparr>"

text \<open>A memory whose upsert replaces by identifier.\<close>

definition keyed_backend :: backend where
  "keyed_backend = sample_backend\<lparr>upsert := (\<lambda>m c ps.
     Inr (m\<lparr>points := filter (\<lambda>q. point_id q \<notin> point_id ` set ps) (points m) @ ps\<rparr>))\<rparr>"

definition keyed_env :: run_env where
  "keyed_env = sample_env []\<lparr>env_backend := keyed_backend\<rparr>"

definition sample_deployment :: deployment where
  "sample_deployment = \<lparr>dp_services = sample_services_record None, dp_jwt = plain_jwt,
     dp_hasher = plain_hasher,
     dp_users = map (\<lambda>n. (n, \<lparr>username = n, hashed_password = []\<rparr>)) [''admin'', ''alice'', ''eve''],
     dp_commit = (\<lambda>_. None), dp_backend = keyed_backend, dp_delete = pg_delete,
     dp_counts = (\<lambda>_. (0, 0)), dp_graph = (\<lambda>m now. history_api (keyed_env\<lparr>env_memory := m\<rparr>) 8 now),
     dp_research_built = None,
     dp_research = \<lparr>r_tool_llm = None, r_structured = (\<lambda>n p. Inr None), r_tool_node = (\<lambda>n f ms. Inr []),
       r_add_messages = (@), r_str_exn = (\<lambda>e. [])\<rparr>\<rparr>"

definition asks :: "string \<Rightarrow> call \<Rightarrow> request" where
  "asks name c = \<lparr>arrival = 0, uuid = ''u'', token = Some (sample_token name), body = Call c\<rparr>"

definition empty_service :: service where
  "empty_service = \<lparr>session = \<lparr>owners = [], executions = []\<rparr>, saver = [], research_threads = [],
     memory = \<lparr>collections = [], points = []\<rparr>\<rparr>"

lemma sample_dp [simp]:
  "dp_jwt sample_deployment = plain_jwt" "dp_backend sample_deployment = keyed_backend"
  "dp_commit sample_deployment d = None" "config_of sample_deployment = default_settings"
  "dp_graph sample_deployment = (\<lambda>m now. history_api (keyed_env\<lparr>env_memory := m\<rparr>) 8 now)"
  "dp_services sample_deployment = sample_services_record None"
  "map_of (dp_users sample_deployment) name = None \<longleftrightarrow> name \<notin> {''admin'', ''alice'', ''eve''}"
  by (simp_all add: sample_deployment_def config_of_def sample_services_record_def)

lemma keyed_env_simps [simp]:
  "appends keyed_env" "env_settings keyed_env = default_settings" "env_backend keyed_env = keyed_backend"
  by (simp_all add: keyed_env_def sample_env_def appends_def)

lemma sample_deployed: "deployed_graph sample_deployment keyed_env 8"
  by (simp add: deployed_graph_def)

lemma sample_jwt: "jwt_law (dp_jwt sample_deployment)"
  by (simp add: plain_jwt_law)

lemmas sample_lawful = deployed_lawful [OF sample_deployed sample_jwt]

lemma sample_stores: "stores_ok sample_deployment"
proof -
  have "query_law keyed_backend" "upsert_law keyed_backend" "create_law keyed_backend"
    using sample_query_law
    by (auto simp: query_law_def upsert_law_def create_law_def keyed_backend_def sample_backend_def)
  then show ?thesis by (simp add: stores_ok_def)
qed

lemma sample_user:
  assumes "name \<in> {''admin'', ''alice'', ''eve''}"
  shows "current_user sample_deployment 0 (Some (sample_token name)) = Inr name"
proof -
  have "decode_subject default_settings plain_jwt 0 (sample_token name) = Inr name"
    using assms by (auto simp: decode_subject_def sample_token_def plain_jwt_def plain_claims_encode)
  with assms show ?thesis by (auto simp: current_user_def get_current_user_def)
qed

lemma sample_handle:
  assumes "name \<in> {''admin'', ''alice'', ''eve''}"
  shows "handle_request sample_deployment (asks name c) s = route sample_deployment 0 ''u'' name c s"
  using sample_user [OF assms] by (simp add: handle_request_def asks_def)

lemma sample_not_admin [simp]:
  "\<not> is_admin (config_of sample_deployment) ''alice''" "\<not> is_admin (config_of sample_deployment) ''eve''"
  by (simp_all add: is_admin_def default_settings_def)

section \<open>Instances\<close>


definition remembered :: service where
  "remembered = snd (route sample_deployment 0 ''u'' ''alice'' (Remember ''t1'' ''the sky is blue'') empty_service)"

lemma serve_remember:
  "snd (serve_all (handle_request sample_deployment) [asks ''alice'' (Remember ''t1'' ''the sky is blue'')]
     empty_service) = remembered"
  by (simp add: sample_handle remembered_def)

theorem service_only_adds_witness:
  "select_owner ''t1'' (owners (session (snd (serve_all (handle_request sample_deployment)
     [asks ''eve'' (Remember ''t1'' ''x''), asks ''eve'' (Thread_history ''t1'' 5)] remembered)))) = Some ''alice''"
proof -
  have "select_owner ''t1'' (owners (session remembered)) = Some ''alice''" by code_simp
  with service_only_adds [OF sample_lawful refl, where s = remembered and t = "''t1''" and u = "''alice''"
      and rs = "[asks ''eve'' (Remember ''t1'' ''x''), asks ''eve'' (Thread_history ''t1'' 5)]"] show ?thesis by blast
qed


lemma sample_found_hits: "fst (route sample_deployment 0 ''u'' ''alice'' (Search_memory ''sky'' 5) remembered) =
    Inr (Found ''sky'' [\<lparr>score = 1, hit_text = Some ''the sky is blue'', hit_thread_id = Some ''t1''\<rparr>])"
  by code_simp

theorem search_provenance_witness:
  "\<exists>v t w. (v, t, w) \<in> set (facts sample_deployment [asks ''alice'' (Remember ''t1'' ''the sky is blue'')] empty_service) \<and>
     t = ''t1'' \<and> w = ''the sky is blue'' \<and> (v = ''alice'' \<or> is_admin (config_of sample_deployment) v)"
proof -
  have "fst (handle_request sample_deployment (asks ''alice'' (Search_memory ''sky'' 5)) remembered) =
    Inr (Found ''sky'' [\<lparr>score = 1, hit_text = Some ''the sky is blue'', hit_thread_id = Some ''t1''\<rparr>])"
    using sample_found_hits by (simp add: sample_handle)
  from search_provenance [OF sample_lawful sample_stores _ _ serve_remember [symmetric] _ _ _ this,
      where q = "''sky''" and n = 5 and name = "''alice''"
        and h = "\<lparr>score = 1, hit_text = Some ''the sky is blue'', hit_thread_id = Some ''t1''\<rparr>"]
  have "\<exists>v t w. (v, t, w) \<in> set (facts sample_deployment [asks ''alice'' (Remember ''t1'' ''the sky is blue'')]
        empty_service) \<and> Some ''the sky is blue'' = Some w \<and> Some ''t1'' = Some t \<and>
      (v = ''alice'' \<or> is_admin (config_of sample_deployment) v)"
    using sample_not_admin sample_user
    by (auto simp: empty_service_def rows_ok_def asks_def simp del: facts.simps)
  then show ?thesis by (simp del: facts.simps)
qed

definition conversation_request :: agent_request where
  "conversation_request = (Endpoint_Claims.sample_request ''my last invoice'')\<lparr>conversation_id := Some ''t1''\<rparr>"

definition conversation_state :: service where
  "conversation_state = snd (route sample_deployment 0 ''u'' ''alice'' (Run conversation_request) empty_service)"

lemma sample_timeline: "\<not> isl (thread_history (history_api (keyed_env\<lparr>env_memory := memory conversation_state\<rparr>) 8 0)
    (sample_services_record None) ''t1'' 50 (saver conversation_state))"
  by (simp add: thread_history_def thread_timeline_def history_api_def is_interrupted_def history_state_def
      state_graph.defs sample_services_record_def)

theorem first_touch_owns_conversation_witness:
  "\<exists>h. fst (handle_request sample_deployment (asks ''eve'' (Thread_history ''t1'' 50)) conversation_state) =
      Inr (Timeline h) \<and>
    fst (handle_request sample_deployment (asks ''alice'' (Resume ''t1''))
      (snd (handle_request sample_deployment (asks ''eve'' (Thread_history ''t1'' 50)) conversation_state))) =
      Inl (HTTPException 403 ''Not the owner of this thread_id.'')"
proof -
  let ?rs = "[asks ''alice'' (Run conversation_request)]"
  have s1: "conversation_state = snd (serve_all (handle_request sample_deployment) ?rs empty_service)"
    by (simp add: sample_handle conversation_state_def del: route.simps)
  obtain h where h: "thread_history (dp_graph sample_deployment (memory conversation_state)
      (arrival (asks ''eve'' (Thread_history ''t1'' 50)))) (dp_services sample_deployment) ''t1'' 50
      (saver conversation_state) = Inr h"
    using sample_timeline by (auto simp: asks_def) (metis sum.collapse(2))
  have free: "select_owner ''t1'' (owners (session empty_service)) = None"
    by (simp add: empty_service_def select_owner_def)
  have runs: "list_all (\<lambda>r. \<forall>c. body r = Call c \<longrightarrow> gated c \<noteq> Some ''t1'') ?rs" by (simp add: asks_def)
  have user: "body (asks n c) = Call c" "n \<in> {''alice'', ''eve''} \<Longrightarrow>
      current_user sample_deployment (arrival (asks n c)) (token (asks n c)) = Inr n" for n c
    using sample_user by (auto simp: asks_def)
  from first_touch_owns_conversation [OF sample_lawful sample_dp(3) free runs s1 user(1) user(2) h
      sample_not_admin(2) user(1) _ user(2) sample_not_admin(1), where rs' = "[]" and c = "Resume ''t1''"]
  show ?thesis by auto
qed

lemma sample_run_served: "\<not> isl (fst (route sample_deployment 0 ''u'' ''alice'' (Run conversation_request) remembered))"
  by code_simp

theorem context_provenance_witness:
  "\<exists>k ctx. find_checkpoint None (thread_rows ''t1'' (saver (snd (handle_request sample_deployment
       (asks ''alice'' (Run conversation_request)) remembered)))) = Some k \<and>
     retrieved_context (ck_state k) = Some ctx"
proof -
  let ?r = "asks ''alice'' (Run conversation_request)"
  obtain a s2 where run: "handle_request sample_deployment ?r remembered = (Inr a, s2)"
    using sample_run_served by (simp add: sample_handle del: route.simps) (metis prod.collapse sum.collapse(2))
  have "current_user sample_deployment (arrival ?r) (token ?r) = Inr ''alice''"
    using sample_user by (simp add: asks_def)
  note context_provenance [OF sample_deployed sample_jwt sample_stores _ _ serve_remember [symmetric] _ this
      sample_not_admin(1) run]
  then show ?thesis
    using run by (auto simp: empty_service_def rows_ok_def asks_def run_thread_id_def conversation_request_def
        Endpoint_Claims.sample_request_def)
qed

end
