(* ===== verification/Wiring.thy ===== *)
theory Wiring
  imports Mcp_Auth Engine
begin

text \<open>
  The constants and constructors that wire the processes together: the configured clients of
  the model and embedding backends (\<open>app/core/llm.py\<close>, \<open>app/memory/vector_store.py\<close>), the
  addresses and headers under which the graph reaches the tool servers (\<open>app/graph/tools.py\<close>)
  and those the servers listen on, the saver's connection (\<open>app/graph/gc.py\<close>), the log filter
  (\<open>app/main.py\<close>) and the demonstration of \<open>app/graph/engine.py\<close>.
\<close>

section \<open>Clients\<close>

record chat_openai =
  co_model :: string
  co_api_key :: string
  co_api_base :: string
  co_temperature :: rat
  co_max_tokens :: int

definition get_sovereign_llm :: "settings \<Rightarrow> chat_openai" where
  "get_sovereign_llm st = \<lparr>co_model = llm_model st, co_api_key = llm_api_key st,
     co_api_base = llm_base_url st, co_temperature = llm_temperature st,
     co_max_tokens = llm_max_tokens st\<rparr>"

record openai_embeddings =
  oe_model :: string
  oe_api_key :: string
  oe_api_base :: string
  oe_check_ctx_length :: bool

definition get_embeddings :: "settings \<Rightarrow> openai_embeddings" where
  "get_embeddings st = \<lparr>oe_model = embedding_model st, oe_api_key = embedding_api_key st,
     oe_api_base = embedding_base_url st, oe_check_ctx_length = False\<rparr>"

text \<open>\<open>get_client\<close>: built once; \<open>connect\<close> is the library's constructor and the number counts its
  calls, so that clients of different calls can be told apart.\<close>

definition get_client :: "settings \<Rightarrow> (string \<Rightarrow> nat \<Rightarrow> 'c) \<Rightarrow> 'c option \<times> nat \<Rightarrow> 'c \<times> ('c option \<times> nat)" where
  "get_client st connect g = (case g of
       (Some c, n) \<Rightarrow> (c, g)
     | (None, n) \<Rightarrow> (let c = connect (qdrant_url st) n in (c, (Some c, Suc n))))"

section \<open>The tool servers\<close>

record connection =
  transport :: string
  url :: string
  headers :: "(string \<times> string) list"

definition environ_get :: "(string \<times> string) list \<Rightarrow> string \<Rightarrow> string \<Rightarrow> string" where
  "environ_get env name fallback = (case map_of env name of None \<Rightarrow> fallback | Some v \<Rightarrow> v)"

definition MCP_RISK_URL :: "(string \<times> string) list \<Rightarrow> string" where
  "MCP_RISK_URL env = environ_get env ''MCP_RISK_URL'' ''http://127.0.0.1:8100/mcp''"

definition MCP_FS_URL :: "(string \<times> string) list \<Rightarrow> string" where
  "MCP_FS_URL env = environ_get env ''MCP_FS_URL'' ''http://127.0.0.1:8101/mcp''"

definition MCP_FINANCE_URL :: "(string \<times> string) list \<Rightarrow> string" where
  "MCP_FINANCE_URL env = environ_get env ''MCP_FINANCE_URL'' ''http://127.0.0.1:8103/mcp''"

definition auth_headers :: "settings \<Rightarrow> (string \<times> string) list" where
  "auth_headers st = [(''Authorization'', bearer_header st)]"

definition mcp_connections :: "settings \<Rightarrow> (string \<times> string) list \<Rightarrow> (string \<times> connection) list" where
  "mcp_connections st env = map (\<lambda>(name, u). (name,
       \<lparr>transport = ''streamable_http'', url = u, headers = auth_headers st\<rparr>))
     [(''risk'', MCP_RISK_URL env), (''filesystem'', MCP_FS_URL env), (''finance'', MCP_FINANCE_URL env)]"

text \<open>Where the servers listen, from their \<open>__main__\<close> blocks.\<close>

definition risk_address :: "string \<times> nat" where
  "risk_address = (''127.0.0.1'', 8100)"

definition fs_address :: "string \<times> nat" where
  "fs_address = (''127.0.0.1'', 8101)"

definition finance_address :: "string \<times> nat" where
  "finance_address = (''127.0.0.1'', 8103)"

text \<open>
  The servers' construction. The library's guard against DNS rebinding compares the \<open>Host\<close> header
  of a request with the allowed patterns.
\<close>

record fast_mcp =
  mcp_name :: string
  mcp_host :: string
  mcp_port :: nat
  allowed_hosts :: "string list"
  allowed_origins :: "string list"

definition trusted_hosts :: "string list" where
  "trusted_hosts = [''127.0.0.1:*'', ''localhost:*'', ''[::1]:*'', ''host.containers.internal:*'']"

definition trusted_origins :: "string list" where
  "trusted_origins = [''http://127.0.0.1:*'', ''http://localhost:*'', ''http://[::1]:*'',
     ''http://host.containers.internal:*'']"

definition risk_mcp :: fast_mcp where
  "risk_mcp = \<lparr>mcp_name = ''risk-tools'', mcp_host = ''127.0.0.1'', mcp_port = 8100,
     allowed_hosts = trusted_hosts, allowed_origins = trusted_origins\<rparr>"

definition filesystem_mcp :: fast_mcp where
  "filesystem_mcp = \<lparr>mcp_name = ''filesystem-tools'', mcp_host = ''127.0.0.1'', mcp_port = 8101,
     allowed_hosts = trusted_hosts, allowed_origins = trusted_origins\<rparr>"

definition finance_mcp :: fast_mcp where
  "finance_mcp = \<lparr>mcp_name = ''finance-tools'', mcp_host = ''127.0.0.1'', mcp_port = 8103,
     allowed_hosts = trusted_hosts, allowed_origins = trusted_origins\<rparr>"

section \<open>The saver's connection\<close>

text \<open>\<open>_conn\<close>: a pooled connection is taken for the block and given back however it ends, a single
  connection is the saver's own and is left open.\<close>

datatype saver_conn = Pool | Single

datatype conn_event = Taken | Used | Given_back

definition conn :: "saver_conn \<Rightarrow> exn option \<Rightarrow> exn + 'a \<Rightarrow> (exn + 'a) \<times> conn_event list" where
  "conn sc taking block = (case sc of
       Single \<Rightarrow> (block, [Used])
     | Pool \<Rightarrow> (case taking of Some e \<Rightarrow> (Inl e, []) | None \<Rightarrow> (block, [Taken, Used, Given_back])))"

lemma conn_balanced: "count_list (snd (conn sc taking block)) Taken =
    count_list (snd (conn sc taking block)) Given_back"
  by (simp add: conn_def split: saver_conn.split option.split)

section \<open>Logging\<close>

text \<open>\<open>RequestIdFilter\<close>: every record passes, labelled with the request's id.\<close>

definition filter_record :: "string \<Rightarrow> bool \<times> string" where
  "filter_record rid = (True, if rid = [] then [CHR 0x2D] else rid)"

section \<open>The demonstration\<close>

text \<open>The prompts of the module's \<open>__main__\<close> block, with the route its comments announce, and the
  context they are run with: the name \<open>admin\<close>, and no session.\<close>

definition demo_prompts :: "(string \<times> route) list" where
  "demo_prompts = [(''What version is agent-api running?'', Technical),
     (''My last invoice looks wrong.'', Billing), (''What does this platform do?'', General)]"

definition demo_context :: "llm \<Rightarrow> (string list \<Rightarrow> llm) \<Rightarrow> string list \<Rightarrow> llm \<times> llm \<times> ownership_rows option \<times> string" where
  "demo_context demo_llm bind tools = (demo_llm, bind tools, None, ''admin'')"

section \<open>What the wiring promises\<close>

text \<open>How a header value sent as text arrives at the server; ASCII arrives as it is.\<close>

definition wire_law :: "(string \<Rightarrow> nat list) \<Rightarrow> bool" where
  "wire_law wire \<longleftrightarrow> (\<forall>s. (\<forall>c \<in> set s. of_char c < (128 :: nat)) \<longrightarrow> wire s = codes s)"

definition ascii :: "string \<Rightarrow> bool" where
  "ascii s \<longleftrightarrow> (\<forall>c \<in> set s. of_char c < (128 :: nat))"

text \<open>The graph and the tool servers share their settings: with an ASCII token, a request of the
  graph to any of the servers passes its gate, and without overrides goes to the address the
  server listens on.\<close>

theorem graph_passes_gates:
  assumes "wire_law wire" and "ascii (mcp_auth_token st)" and "expected st = Inr secret"
    and "(name, c) \<in> set (mcp_connections st env)"
  shows "\<exists>v. map_of (headers c) ''Authorization'' = Some v \<and>
    dispatch secret (Some (wire v)) call_next s = (Inr (Passed (fst (call_next s))), snd (call_next s))"
proof -
  have h: "headers c = [(''Authorization'', bearer_header st)]"
    using assms(4) by (auto simp: mcp_connections_def auth_headers_def)
  have "ascii (bearer_header st)" using assms(2) by (auto simp: ascii_def bearer_header_def)
  with assms(1) have "wire (bearer_header st) = codes (bearer_header st)"
    unfolding wire_law_def ascii_def by blast
  moreover have "utf8 (codes (bearer_header st)) = Inr secret" using expected_Inr [OF assms(3)] by blast
  ultimately show ?thesis using h by (simp add: dispatch_def split_beta)
qed

theorem graph_passes_gates_witness:
  "\<exists>secret. expected default_settings = Inr secret \<and>
     dispatch secret (Some (codes ''Bearer dev-only-change-me'')) (\<lambda>n. ((), Suc n)) 0 = (Inr (Passed ()), 1)"
proof -
  have "\<not> isl (expected default_settings)" by code_simp
  then obtain secret where e: "expected default_settings = Inr secret" by (metis sum.collapse(2))
  have "ascii (mcp_auth_token default_settings)" by (simp add: ascii_def default_settings_def)
  moreover have "bearer_header default_settings = ''Bearer dev-only-change-me''"
    by (simp add: bearer_header_def default_settings_def)
  ultimately show ?thesis
    using graph_passes_gates [where wire = codes and st = default_settings and name = "''risk''" and env = "[]"
        and c = "\<lparr>transport = ''streamable_http'', url = MCP_RISK_URL [], headers = auth_headers default_settings\<rparr>"
        and call_next = "\<lambda>n. ((), Suc n)" and s = "0 :: nat", OF _ _ e] e
    by (simp add: wire_law_def mcp_connections_def auth_headers_def)
qed

lemma default_addresses:
  "MCP_RISK_URL [] = ''http://'' @ fst risk_address @ '':8100/mcp''" "snd risk_address = 8100"
  "MCP_FS_URL [] = ''http://'' @ fst fs_address @ '':8101/mcp''" "snd fs_address = 8101"
  "MCP_FINANCE_URL [] = ''http://'' @ fst finance_address @ '':8103/mcp''" "snd finance_address = 8103"
  by (simp_all add: MCP_RISK_URL_def MCP_FS_URL_def MCP_FINANCE_URL_def environ_get_def
      risk_address_def fs_address_def finance_address_def)

text \<open>The guard lets through the graph's requests, from the same machine and from a container: a
  pattern that ends in \<open>:*\<close> admits its host with any port.\<close>

definition guard_law :: "(string list \<Rightarrow> string \<Rightarrow> bool) \<Rightarrow> bool" where
  "guard_law guard \<longleftrightarrow> (\<forall>patterns h port. h @ '':*'' \<in> set patterns \<longrightarrow> guard patterns (h @ '':'' @ port))"

lemma trusted_names:
  assumes "guard_law guard" and "h \<in> {''127.0.0.1'', ''host.containers.internal''}"
    and "server \<in> {risk_mcp, filesystem_mcp, finance_mcp}"
  shows "guard (allowed_hosts server) (h @ '':'' @ show_nat (mcp_port server))"
proof -
  have "allowed_hosts server = trusted_hosts"
    using assms(3) by (auto simp: risk_mcp_def filesystem_mcp_def finance_mcp_def)
  moreover have "h @ '':*'' \<in> set trusted_hosts" using assms(2) by (auto simp: trusted_hosts_def)
  ultimately show ?thesis using assms(1) by (simp add: guard_law_def)
qed

lemma addresses_constructed:
  "risk_address = (mcp_host risk_mcp, mcp_port risk_mcp)"
  "fs_address = (mcp_host filesystem_mcp, mcp_port filesystem_mcp)"
  "finance_address = (mcp_host finance_mcp, mcp_port finance_mcp)"
  by (simp_all add: risk_address_def fs_address_def finance_address_def risk_mcp_def
      filesystem_mcp_def finance_mcp_def)

text \<open>The vector database's client is built by the first call and shared by every later one.\<close>

lemma get_client_once:
  "get_client st connect (snd (get_client st connect g)) =
     (fst (get_client st connect g), snd (get_client st connect g))"
  by (auto simp: get_client_def Let_def split: prod.splits option.splits)

text \<open>The first demonstration prompt is not routed as its comment says: it holds none of the
  technical words and goes to the general worker.\<close>

theorem demo_prompts_routed:
  "map (\<lambda>p. (classify (fst p) = snd p, classify (fst p))) demo_prompts =
    [(False, General), (True, Billing), (True, General)]"
  by code_simp

end
