(* ===== verification/Toolset.thy ===== *)
theory Toolset
  imports FS_Claims Code_Exec Finance_Server Risk Tools Wiring
begin

text \<open>
  The tools of the graph as one system: the local tools of \<open>app/graph/tools.py\<close> and the code
  executor run in the graph's process, the risk, file and finance tools in three servers behind
  the bearer gate, reached with the header the graph sends. One state holds what the tools can
  change: the files, the containers, the finance service and the audit tables. Calls are served
  one after the other. How the client library reports a refusal or a server's exception is a
  parameter.
\<close>

section \<open>The processes\<close>

text \<open>\<open>ROOT\<close> of \<open>app/mcp/paths.py\<close>, resolved against the working directory when the module is
  imported, and the \<open>__main__\<close> block of the file server, which makes it.\<close>

definition ROOT :: "settings \<Rightarrow> path \<Rightarrow> fs \<Rightarrow> path" where
  "ROOT st cwd fs = resolve fs (joined cwd (agent_files_dir st))"

definition start_fs_server :: "settings \<Rightarrow> path \<Rightarrow> fs \<Rightarrow> (exn + nat list \<times> path) \<times> fs" where
  "start_fs_server st cwd fs =
     (case expected st of
        Inl e \<Rightarrow> (Inl e, fs)
      | Inr secret \<Rightarrow> (let root = ROOT st cwd fs in
          case mkdir_p fs root of
            (Some e, fs') \<Rightarrow> (Inl e, fs')
          | (None, fs') \<Rightarrow> (Inr (secret, root), fs')))"

record ('p, 'w) toolset =
  agent_settings :: settings
  server_settings :: "string \<Rightarrow> settings"
  agent_environ :: "(string \<times> string) list"
  files_root :: path
  on_wire :: "string \<Rightarrow> nat list"
  refused :: exn
  reported :: "exn \<Rightarrow> exn"
  exn_text :: "exn \<Rightarrow> string"
  sandbox_engine :: "'p podman"
  finance_net :: "'w net"
  commit_code :: "code_execution_event \<Rightarrow> exn option"
  commit_file :: "file_audit_event \<Rightarrow> exn option"
  commit_balance :: "balance_query_event \<Rightarrow> exn option"
  run_thread :: "string option"
  mcp_client_id :: "string option"

record ('p, 'w) tool_world =
  files :: fs
  file_rows :: file_events
  sandbox :: 'p
  code_rows :: "code_execution_event list"
  token :: token_cache
  finance :: 'w
  balance_rows :: balance_events

section \<open>A call\<close>

datatype tool_call =
    Get_Deployment_Status string
  | Execute_Sandboxed_Code string
  | Get_Weather string
  | Get_Market_Metrics "(string \<times> json) list"
  | Calculate_Corporate_Risk string string rat bool
  | Read_Text_File string
  | Write_Text_File string "nat list"
  | List_Directory string
  | Get_Account_Balance string

datatype tool_value =
    V_Text string
  | V_Codes "nat list"
  | V_Names "string list"
  | V_Json "json option"
  | V_Risk risk_report
  | V_Code code_result

text \<open>The secret a server compares with, once its module was imported; the finance server also
  refuses to start on the placeholder client secret.\<close>

definition server_secret :: "('p, 'w) toolset \<Rightarrow> string \<Rightarrow> exn + nat list" where
  "server_secret h name =
     (if name = ''finance'' then bindr (start_finance_server (server_settings h name)) (\<lambda>(s, c). Inr s)
      else expected (server_settings h name))"

text \<open>
  A call to a tool server: the header from the connection's settings, the server's gate with
  the secret it was started with, and the tool behind it. A server that did not start, or that
  answers 401, is an error of the client. (The library's session takes several requests, with
  the same header each.)
\<close>

definition mcp_call ::
    "('p, 'w) toolset \<Rightarrow> string \<Rightarrow> (('p, 'w) tool_world \<Rightarrow> (exn + 'a) \<times> ('p, 'w) tool_world) \<Rightarrow>
     ('p, 'w) tool_world \<Rightarrow> (exn + 'a) \<times> ('p, 'w) tool_world" where
  "mcp_call h name tool w =
     (case (map_of (mcp_connections (agent_settings h) (agent_environ h)) name,
            server_secret h name) of
        (Some c, Inr secret) \<Rightarrow>
          (case dispatch secret (map_option (on_wire h) (map_of (headers c) ''Authorization'')) tool w of
             (Inl e, w') \<Rightarrow> (Inl (reported h e), w')
           | (Inr Unauthorized, w') \<Rightarrow> (Inl (refused h), w')
           | (Inr (Passed r), w') \<Rightarrow> (map_sum (reported h) id r, w'))
      | _ \<Rightarrow> (Inl (refused h), w))"

text \<open>The arguments of the code tool are checked against \<open>CodeExecutionInput\<close> before it runs.\<close>

definition code_errors :: "string \<Rightarrow> (string list \<times> string) list" where
  "code_errors code = [([''code''], if code = [] then ''String should have at least 1 character''
     else ''String should have at most '' @ show_nat MAX_CODE_LENGTH @ '' characters'')]"

definition code_tool ::
    "('p, 'w) toolset \<Rightarrow> string \<Rightarrow> ('p, 'w) tool_world \<Rightarrow> (exn + code_result) \<times> ('p, 'w) tool_world" where
  "code_tool h code w =
     (if valid_code_input code
      then (case execute_sandboxed_code_async (exn_text h) (sandbox_engine h) (commit_code h)
              (run_thread h) code (sandbox w) (code_rows w) of
              (r, p', rows') \<Rightarrow> (r, w\<lparr>sandbox := p', code_rows := rows'\<rparr>))
      else (Inl (ToolInvocationError (ValidationError (code_errors code))), w))"

definition read_tool ::
    "('p, 'w) toolset \<Rightarrow> string \<Rightarrow> ('p, 'w) tool_world \<Rightarrow> (exn + nat list) \<times> ('p, 'w) tool_world" where
  "read_tool h path w =
     (case read_text_file (commit_file h) (files w) (files_root h) path (file_rows w) of
        (r, rows') \<Rightarrow> (r, w\<lparr>file_rows := rows'\<rparr>))"

definition write_tool ::
    "('p, 'w) toolset \<Rightarrow> string \<Rightarrow> nat list \<Rightarrow> ('p, 'w) tool_world \<Rightarrow> (exn + string) \<times> ('p, 'w) tool_world" where
  "write_tool h path cs w =
     (case write_text_file (server_settings h ''filesystem'') (commit_file h) (files_root h) path cs
             (files w) (file_rows w) of
        (r, fs', rows') \<Rightarrow> (r, w\<lparr>files := fs', file_rows := rows'\<rparr>))"

definition balance_tool ::
    "('p, 'w) toolset \<Rightarrow> string \<Rightarrow> ('p, 'w) tool_world \<Rightarrow> (exn + json option) \<times> ('p, 'w) tool_world" where
  "balance_tool h acc w =
     (case get_account_balance (server_settings h ''finance'') (finance_net h) (commit_balance h)
             (mcp_client_id h) acc (token w) (finance w) (balance_rows w) of
        (r, c', n', rows') \<Rightarrow> (r, w\<lparr>token := c', finance := n', balance_rows := rows'\<rparr>))"

definition as_value :: "('a \<Rightarrow> tool_value) \<Rightarrow> (exn + 'a) \<times> 'b \<Rightarrow> (exn + tool_value) \<times> 'b" where
  "as_value f rw = (map_sum id f (fst rw), snd rw)"

fun call_tool ::
    "('p, 'w) toolset \<Rightarrow> tool_call \<Rightarrow> ('p, 'w) tool_world \<Rightarrow> (exn + tool_value) \<times> ('p, 'w) tool_world" where
  "call_tool h (Get_Deployment_Status s) w = (Inr (V_Text (get_deployment_status s)), w)"
| "call_tool h (Execute_Sandboxed_Code code) w = as_value V_Code (code_tool h code w)"
| "call_tool h (Get_Weather city) w = (Inr (V_Text (get_weather city)), w)"
| "call_tool h (Get_Market_Metrics args) w = as_value (V_Json \<circ> Some) (call_market_metrics args, w)"
| "call_tool h (Calculate_Corporate_Risk company ind exposure regulated) w =
     as_value V_Risk (mcp_call h ''risk'' (\<lambda>w. (calculate_corporate_risk company ind exposure regulated, w)) w)"
| "call_tool h (Read_Text_File path) w = as_value V_Codes (mcp_call h ''filesystem'' (read_tool h path) w)"
| "call_tool h (Write_Text_File path cs) w =
     as_value V_Text (mcp_call h ''filesystem'' (write_tool h path cs) w)"
| "call_tool h (List_Directory path) w =
     as_value V_Names (mcp_call h ''filesystem'' (\<lambda>w. (list_directory (files w) (files_root h) path, w)) w)"
| "call_tool h (Get_Account_Balance acc) w = as_value V_Json (mcp_call h ''finance'' (balance_tool h acc) w)"

text \<open>What the model reads of a call: the value, or the text of \<open>format_tool_error\<close>.\<close>

definition answer_call ::
    "('p, 'w) toolset \<Rightarrow> tool_call \<Rightarrow> ('p, 'w) tool_world \<Rightarrow> (string + tool_value) \<times> ('p, 'w) tool_world" where
  "answer_call h c w = (case call_tool h c w of
     (r, w') \<Rightarrow> (map_sum (format_tool_error (exn_text h)) id r, w'))"

definition answer_calls ::
    "('p, 'w) toolset \<Rightarrow> tool_call list \<Rightarrow> ('p, 'w) tool_world \<Rightarrow>
     (string + tool_value) list \<times> ('p, 'w) tool_world" where
  "answer_calls h = serve_all (answer_call h)"

end
