(* ===== verification/Toolset_Claims.thy ===== *)
theory Toolset_Claims
  imports Toolset
begin

text \<open>
  What any sequence of tool calls can do, whatever the model asks for: the locale
  \<open>tool_guarantee\<close> lifts a relation kept by the four tools that have effects to every call and
  every sequence of calls. It is interpreted on the confinement of the file system, on the
  exactness of the audit rows and on the containers.
\<close>

section \<open>From the tools to sequences of calls\<close>

lemma mcp_call_world: "snd (mcp_call h name tool w) = w \<or> snd (mcp_call h name tool w) = snd (tool w)"
  by (auto simp: mcp_call_def dispatch_def split: option.split sum.split prod.split gate_answer.split)

lemma snd_as_value [simp]: "snd (as_value f rw) = snd rw"
  by (simp add: as_value_def)

lemma snd_answer_call [simp]: "snd (answer_call h c w) = snd (call_tool h c w)"
  by (simp add: answer_call_def split: prod.split)

locale tool_guarantee =
  fixes h :: "('p, 'w) toolset" and kept :: "('p, 'w) tool_world \<Rightarrow> ('p, 'w) tool_world \<Rightarrow> bool"
  assumes kept_refl: "kept w w"
    and kept_trans: "kept w1 w2 \<Longrightarrow> kept w2 w3 \<Longrightarrow> kept w1 w3"
    and code_keeps: "kept w (snd (code_tool h code w))"
    and read_keeps: "kept w (snd (read_tool h path w))"
    and write_keeps: "kept w (snd (write_tool h path cs w))"
    and balance_keeps: "kept w (snd (balance_tool h acc w))"
begin

lemma mcp_keeps: "kept w (snd (tool w)) \<Longrightarrow> kept w (snd (mcp_call h name tool w))"
  using mcp_call_world [of h name tool w] kept_refl by metis

lemma call_keeps: "kept w (snd (call_tool h c w))"
  by (cases c) (auto intro!: mcp_keeps kept_refl code_keeps read_keeps write_keeps balance_keeps)

lemma calls_keep: "kept w (snd (answer_calls h cs w))"
  unfolding answer_calls_def
  by (rule serve_all_inv [where P = "kept w"]) (auto intro: kept_trans call_keeps kept_refl)

end

section \<open>The files\<close>

text \<open>How a file system may develop: no link is touched; directories may appear under the root
  and on its own path; files may appear or change under the root, up to a size.\<close>

definition evolves :: "int \<Rightarrow> path \<Rightarrow> fs \<Rightarrow> fs \<Rightarrow> bool" where
  "evolves limit jail fs fs' \<longleftrightarrow> fs_ok fs' \<and> same_links fs fs' \<and>
     (\<forall>q. map_of fs' q \<noteq> map_of fs q \<longrightarrow>
        map_of fs q = None \<and> map_of fs' q = Some Dir \<and> (prefix q jail \<or> prefix jail q) \<or>
        prefix jail q \<and> map_of fs q \<noteq> Some Dir \<and>
          (\<exists>b. map_of fs' q = Some (File b) \<and> int (length b) \<le> limit))"

lemma evolves_refl: "fs_ok fs \<Longrightarrow> evolves limit jail fs fs"
  by (simp add: evolves_def same_links_def)

lemma evolves_ok: "evolves limit jail fs fs' \<Longrightarrow> fs_ok fs'"
  by (simp add: evolves_def)

lemma evolves_trans:
  assumes "evolves limit jail fs1 fs2" and "evolves limit jail fs2 fs3"
  shows "evolves limit jail fs1 fs3"
proof -
  have "map_of fs1 q = None \<and> map_of fs3 q = Some Dir \<and> (prefix q jail \<or> prefix jail q) \<or>
      prefix jail q \<and> map_of fs1 q \<noteq> Some Dir \<and>
        (\<exists>b. map_of fs3 q = Some (File b) \<and> int (length b) \<le> limit)"
    if "map_of fs3 q \<noteq> map_of fs1 q" for q
  proof (cases "map_of fs3 q = map_of fs2 q")
    case True
    with that assms(1) show ?thesis by (simp add: evolves_def)
  next
    case False
    with assms(2) have "map_of fs2 q = None \<and> map_of fs3 q = Some Dir \<and> (prefix q jail \<or> prefix jail q) \<or>
        prefix jail q \<and> map_of fs2 q \<noteq> Some Dir \<and>
          (\<exists>b. map_of fs3 q = Some (File b) \<and> int (length b) \<le> limit)"
      by (simp add: evolves_def)
    with assms(1) show ?thesis
      unfolding evolves_def by (cases "map_of fs2 q = map_of fs1 q") auto
  qed
  with assms show ?thesis unfolding evolves_def same_links_def by blast
qed

lemma prefix_comparable: "prefix q p \<Longrightarrow> prefix jail p \<Longrightarrow> prefix q jail \<or> prefix jail q"
  using prefix_same_cases by blast

lemma write_evolves:
  assumes "fs_ok fs" and "write_text_file st commit jail path cs fs rows = (r, fs', rows')"
  shows "evolves (agent_files_max_write_bytes st) jail fs fs'"
  using assms
proof (cases rule: write_text_file_cases)
  case refused
  with assms(1) show ?thesis by (simp add: evolves_refl)
next
  case (unwritten p b e)
  from resolve_in_root_Inr [OF unwritten(1)] have "prefix jail p" by blast
  then have "prefix q jail \<or> prefix jail q" if "prefix q (butlast p)" for q
    using prefix_comparable prefix_order.trans [OF that prefixeq_butlast] by blast
  with unwritten(6,7,8) show ?thesis by (auto simp: evolves_def dirs_added_def)
next
  case (wrote p b)
  from resolve_in_root_Inr [OF wrote(1)] have "prefix jail p" by blast
  with wrote(3,5,6) written_changes [OF wrote(7)] prefix_comparable [OF _ this] show ?thesis
    unfolding evolves_def by metis
qed

lemma read_tool_files: "files (snd (read_tool h path w)) = files w"
  by (simp add: read_tool_def split: prod.split)

lemma code_tool_files: "files (snd (code_tool h code w)) = files w"
  by (simp add: code_tool_def split: prod.split)

lemma balance_tool_files: "files (snd (balance_tool h acc w)) = files w"
  by (simp add: balance_tool_def split: prod.split)

definition write_limit :: "('p, 'w) toolset \<Rightarrow> int" where
  "write_limit h = agent_files_max_write_bytes (server_settings h ''filesystem'')"

definition files_evolve :: "('p, 'w) toolset \<Rightarrow> ('p, 'w) tool_world \<Rightarrow> ('p, 'w) tool_world \<Rightarrow> bool" where
  "files_evolve h w w' \<longleftrightarrow> (fs_ok (files w) \<longrightarrow> evolves (write_limit h) (files_root h) (files w) (files w'))"

interpretation confined: tool_guarantee h "files_evolve h" for h :: "('p, 'w) toolset"
proof
  fix w1 w2 w3 :: "('p, 'w) tool_world"
  assume "files_evolve h w1 w2" "files_evolve h w2 w3"
  then show "files_evolve h w1 w3"
    unfolding files_evolve_def using evolves_trans evolves_ok by blast
next
  fix w :: "('p, 'w) tool_world" and path cs
  show "files_evolve h w (snd (write_tool h path cs w))"
    unfolding files_evolve_def write_tool_def write_limit_def
    by (auto split: prod.split intro: write_evolves)
qed (simp_all add: files_evolve_def evolves_refl read_tool_files code_tool_files balance_tool_files)

section \<open>The audit of the files\<close>

text \<open>The last of some audit rows that records a write of the file at a path.\<close>

definition last_write :: "path \<Rightarrow> fs \<Rightarrow> path \<Rightarrow> file_events \<Rightarrow> file_audit_event option" where
  "last_write jail fs q rows =
     find (\<lambda>row. fa_action row \<noteq> ''read'' \<and> resolve_in_root fs jail (fa_path row) = Inr q) (rev rows)"

lemma last_write_append:
  "last_write jail fs q (rows @ new) =
     (case last_write jail fs q new of Some row \<Rightarrow> Some row | None \<Rightarrow> last_write jail fs q rows)"
  by (simp add: last_write_def find_append split: option.split)

text \<open>The rows tell what became of each file: one without a row is as before, or is a directory
  made on the way; one with a row is what its last row says.\<close>

definition describes :: "file_audit_event \<Rightarrow> obj option \<Rightarrow> bool" where
  "describes row x \<longleftrightarrow> (\<exists>b cs. x = Some (File b) \<and> encode cs = Some b \<and>
     fa_byte_count row = length b \<and> fa_preview row = take 200 cs)"

definition accounted :: "path \<Rightarrow> fs \<Rightarrow> file_events \<Rightarrow> fs \<Rightarrow> bool" where
  "accounted jail fs new fs' \<longleftrightarrow> same_links fs fs' \<and> (\<forall>q.
     case last_write jail fs q new of
       None \<Rightarrow> map_of fs' q = map_of fs q \<or> map_of fs q = None \<and> map_of fs' q = Some Dir
     | Some row \<Rightarrow> describes row (map_of fs' q))"

lemma last_write_Nil [simp]: "last_write jail fs q [] = None"
  by (simp add: last_write_def)

lemma accounted_refl [simp]: "accounted jail fs [] fs"
  by (simp add: accounted_def same_links_def)

lemma last_write_links: "same_links fs fs' \<Longrightarrow> last_write jail fs' q rows = last_write jail fs q rows"
  by (simp add: last_write_def resolve_links)

lemma accounted_trans:
  assumes "accounted jail fs1 new1 fs2" and "accounted jail fs2 new2 fs3"
  shows "accounted jail fs1 (new1 @ new2) fs3"
proof -
  from assms have l: "same_links fs1 fs2" "same_links fs2 fs3" by (simp_all add: accounted_def)
  have "case last_write jail fs1 q (new1 @ new2) of
       None \<Rightarrow> map_of fs3 q = map_of fs1 q \<or> map_of fs1 q = None \<and> map_of fs3 q = Some Dir
     | Some row \<Rightarrow> describes row (map_of fs3 q)" for q
  proof (cases "last_write jail fs1 q new2")
    case (Some row)
    with assms(2) last_write_links [OF l(1)] show ?thesis
      by (auto simp: accounted_def last_write_append split: option.splits)
  next
    case None
    with assms(2) last_write_links [OF l(1), of jail q new2]
    have two: "map_of fs3 q = map_of fs2 q \<or> map_of fs2 q = None \<and> map_of fs3 q = Some Dir"
      by (auto simp: accounted_def dest!: spec [of _ q])
    show ?thesis
    proof (cases "last_write jail fs1 q new1")
      case None
      with assms(1) have "map_of fs2 q = map_of fs1 q \<or> map_of fs1 q = None \<and> map_of fs2 q = Some Dir"
        by (auto simp: accounted_def dest!: spec [of _ q])
      with two None \<open>last_write jail fs1 q new2 = None\<close> show ?thesis by (auto simp: last_write_append)
    next
      case (Some row)
      with assms(1) have "describes row (map_of fs2 q)"
        by (auto simp: accounted_def dest!: spec [of _ q])
      with two Some \<open>last_write jail fs1 q new2 = None\<close> show ?thesis
        by (auto simp: last_write_append describes_def)
    qed
  qed
  with l show ?thesis by (auto simp: accounted_def same_links_def)
qed

lemma write_accounted:
  assumes "fs_ok fs" and "write_text_file st (\<lambda>_. None) jail path cs fs rows = (r, fs', rows')"
  shows "\<exists>new. rows' = rows @ new \<and> accounted jail fs new fs'"
  using assms
proof (cases rule: write_text_file_cases)
  case refused
  then show ?thesis by simp
next
  case (unwritten p b e)
  then have "accounted jail fs [] fs'" by (auto simp: accounted_def dirs_added_def)
  with unwritten(5) show ?thesis by blast
next
  case (wrote p b)
  let ?row = "\<lparr>fa_path = path, fa_action = (if path_exists fs p then ''write'' else ''create''),
    fa_byte_count = length b, fa_preview = take 200 cs\<rparr>"
  have d: "describes ?row (map_of fs' p)"
    using wrote(2,7) by (auto simp: describes_def written_def)
  have "accounted jail fs [?row] fs'"
    using wrote(1,6) d written_changes [OF wrote(7)]
    by (auto simp: accounted_def last_write_def split: if_splits)
  with wrote(8) show ?thesis by auto
qed

text \<open>With a database that takes the rows, the file rows account for every change of the files.\<close>

definition files_accounted :: "('p, 'w) toolset \<Rightarrow> ('p, 'w) tool_world \<Rightarrow> ('p, 'w) tool_world \<Rightarrow> bool" where
  "files_accounted h w w' \<longleftrightarrow> (commit_file h = (\<lambda>_. None) \<longrightarrow> fs_ok (files w) \<longrightarrow>
     fs_ok (files w') \<and> (\<exists>new. file_rows w' = file_rows w @ new \<and>
       accounted (files_root h) (files w) new (files w')))"

lemma code_tool_file_rows: "file_rows (snd (code_tool h code w)) = file_rows w"
  by (simp add: code_tool_def split: prod.split)

lemma balance_tool_file_rows: "file_rows (snd (balance_tool h acc w)) = file_rows w"
  by (simp add: balance_tool_def split: prod.split)

lemma read_row:
  "read_text_file (\<lambda>_. None) fs jail path rows = (r, rows') \<Longrightarrow>
     \<exists>new. rows' = rows @ new \<and> list_all (\<lambda>row. fa_action row = ''read'') new"
  by (auto simp: read_text_file_def log_event_def split: sum.splits option.splits)

lemma reads_accounted: "list_all (\<lambda>row. fa_action row = ''read'') new \<Longrightarrow> accounted jail fs new fs"
proof -
  assume "list_all (\<lambda>row. fa_action row = ''read'') new"
  then have "last_write jail fs q new = None" for q
    by (auto simp: last_write_def find_None_iff list_all_iff)
  then show ?thesis by (simp add: accounted_def same_links_def)
qed

lemma accountedI:
  assumes "commit_file h = (\<lambda>_. None) \<Longrightarrow> fs_ok (files w) \<Longrightarrow>
    fs_ok (files w') \<and> (\<exists>new. file_rows w' = file_rows w @ new \<and>
      accounted (files_root h) (files w) new (files w'))"
  shows "files_accounted h w w'"
  using assms by (simp add: files_accounted_def)

lemma read_tool_accounted: "files_accounted h w (snd (read_tool h path w))"
proof (rule accountedI)
  assume db: "commit_file h = (\<lambda>_. None)" and ok: "fs_ok (files w)"
  obtain r rows' where "read_text_file (\<lambda>_. None) (files w) (files_root h) path (file_rows w) = (r, rows')"
    by (rule prod.exhaust)
  moreover from read_row [OF this] obtain new where "rows' = file_rows w @ new"
    "accounted (files_root h) (files w) new (files w)" using reads_accounted by blast
  ultimately show "fs_ok (files (snd (read_tool h path w))) \<and>
      (\<exists>new. file_rows (snd (read_tool h path w)) = file_rows w @ new \<and>
        accounted (files_root h) (files w) new (files (snd (read_tool h path w))))"
    using db ok by (simp add: read_tool_def)
qed

lemma write_tool_accounted: "files_accounted h w (snd (write_tool h path cs w))"
proof (rule accountedI)
  assume db: "commit_file h = (\<lambda>_. None)" and ok: "fs_ok (files w)"
  obtain r fs' rows' where wr: "write_text_file (server_settings h ''filesystem'') (\<lambda>_. None)
      (files_root h) path cs (files w) (file_rows w) = (r, fs', rows')" by (rule prod_cases3)
  from write_accounted [OF ok wr] write_evolves [OF ok wr, THEN evolves_ok] wr db
  show "fs_ok (files (snd (write_tool h path cs w))) \<and>
      (\<exists>new. file_rows (snd (write_tool h path cs w)) = file_rows w @ new \<and>
        accounted (files_root h) (files w) new (files (snd (write_tool h path cs w))))"
    by (simp add: write_tool_def)
qed

lemma files_accounted_trans:
  assumes "files_accounted h w1 w2" and "files_accounted h w2 w3"
  shows "files_accounted h w1 w3"
proof (rule accountedI)
  assume "commit_file h = (\<lambda>_. None)" "fs_ok (files w1)"
  with assms obtain a b where "file_rows w2 = file_rows w1 @ a" "file_rows w3 = file_rows w2 @ b"
    "accounted (files_root h) (files w1) a (files w2)" "accounted (files_root h) (files w2) b (files w3)"
    "fs_ok (files w3)" unfolding files_accounted_def by blast
  with accounted_trans show "fs_ok (files w3) \<and> (\<exists>new. file_rows w3 = file_rows w1 @ new \<and>
      accounted (files_root h) (files w1) new (files w3))" by (metis append_assoc)
qed

lemma files_accounted_same:
  "files w' = files w \<Longrightarrow> file_rows w' = file_rows w \<Longrightarrow> files_accounted h w w'"
  by (simp add: files_accounted_def)

interpretation audited: tool_guarantee h "files_accounted h" for h :: "('p, 'w) toolset"
  by unfold_locales (erule (1) files_accounted_trans | rule read_tool_accounted write_tool_accounted
    files_accounted_same code_tool_files code_tool_file_rows balance_tool_files balance_tool_file_rows
    refl)+

section \<open>The containers and the other tables\<close>

text \<open>Documented behaviour of the engine: the laws of theory \<open>Code_Exec\<close>, no container is left by
  a failed start, and removals work.\<close>

definition engine_behaves :: "'p podman \<Rightarrow> ('p \<Rightarrow> nat set) \<Rightarrow> bool" where
  "engine_behaves eng live \<longleftrightarrow> engine_law eng live \<and>
     (\<forall>req q e q'. containers_run eng req q = (Inl e, q') \<longrightarrow> live q' = live q) \<and>
     (\<forall>c q. fst (remove eng c q) = None)"

definition nothing_left ::
    "('p \<Rightarrow> nat set) \<Rightarrow> ('p, 'w) toolset \<Rightarrow> ('p, 'w) tool_world \<Rightarrow> ('p, 'w) tool_world \<Rightarrow> bool" where
  "nothing_left live h w w' \<longleftrightarrow> engine_behaves (sandbox_engine h) live \<longrightarrow> live (sandbox w') = live (sandbox w)"

lemma async_sandbox:
  "execute_sandboxed_code_async texts eng commit thread code p rows = (r, p', rows') \<Longrightarrow>
     p' = snd (execute_sandboxed_code texts eng code p)"
  by (auto simp: execute_sandboxed_code_async_def split: prod.splits option.splits)

lemma same_sandbox:
  "sandbox (snd (read_tool h path w)) = sandbox w"
  "sandbox (snd (write_tool h path cs w)) = sandbox w"
  "sandbox (snd (balance_tool h acc w)) = sandbox w"
  by (simp_all add: read_tool_def write_tool_def balance_tool_def split: prod.split)

lemma execution_behaves:
  "engine_behaves eng live \<Longrightarrow> live (snd (execute_sandboxed_code texts eng code p)) = live p"
  unfolding engine_behaves_def by (rule execution_live) auto

interpretation cleared: tool_guarantee h "nothing_left live h" for live and h :: "('p, 'w) toolset"
proof
  fix w :: "('p, 'w) tool_world" and code
  show "nothing_left live h w (snd (code_tool h code w))"
    by (auto simp: nothing_left_def code_tool_def execution_behaves split: prod.split dest!: async_sandbox)
qed (auto simp: nothing_left_def same_sandbox)

text \<open>The audit tables only grow.\<close>

definition rows_grow :: "('p, 'w) tool_world \<Rightarrow> ('p, 'w) tool_world \<Rightarrow> bool" where
  "rows_grow w w' \<longleftrightarrow> prefix (file_rows w) (file_rows w') \<and> prefix (code_rows w) (code_rows w') \<and>
     prefix (balance_rows w) (balance_rows w')"

lemma log_event_prefix: "prefix rows (snd (log_event commit ev rows))"
  by (simp add: log_event_def split: option.split)

lemma audit_prefix: "prefix rows (snd (audit commit ev rows))"
  by (simp add: audit_def split: option.split)

lemma audit_code_prefix: "prefix rows (snd (audit_code commit t n out detail rows))"
  by (simp add: audit_code_def Let_def split: option.split)

lemma prefix_snd_splits:
  "prefix rows (snd x) \<Longrightarrow> x = (a, rows') \<Longrightarrow> prefix rows rows'"
  by simp

interpretation growing: tool_guarantee h rows_grow for h :: "('p, 'w) toolset"
proof
  fix w :: "('p, 'w) tool_world" and code
  show "rows_grow w (snd (code_tool h code w))"
    by (auto simp: rows_grow_def code_tool_def execute_sandboxed_code_async_def
        split: prod.split option.split intro: prefix_snd_splits [OF audit_code_prefix])
next
  fix w :: "('p, 'w) tool_world" and path
  show "rows_grow w (snd (read_tool h path w))"
    by (auto simp: rows_grow_def read_tool_def read_text_file_def
        split: prod.split option.split sum.split intro: prefix_snd_splits [OF log_event_prefix])
next
  fix w :: "('p, 'w) tool_world" and path cs
  show "rows_grow w (snd (write_tool h path cs w))"
    by (auto simp: rows_grow_def write_tool_def write_text_file_def Let_def
        split: prod.split option.split sum.split intro: prefix_snd_splits [OF log_event_prefix])
next
  fix w :: "('p, 'w) tool_world" and acc
  show "rows_grow w (snd (balance_tool h acc w))"
    by (auto simp: rows_grow_def balance_tool_def get_account_balance_def
        split: prod.split option.split sum.split intro: prefix_snd_splits [OF audit_prefix])
qed (auto simp: rows_grow_def)

section \<open>The gates\<close>

text \<open>A call passes the gate of a server exactly when the graph's token is the server's.\<close>

lemma connection_header:
  assumes "name \<in> {''risk'', ''filesystem'', ''finance''}"
  shows "\<exists>c. map_of (mcp_connections st env) name = Some c \<and>
    map_of (headers c) ''Authorization'' = Some (bearer_header st)"
  using assms by (auto simp: mcp_connections_def auth_headers_def)

lemma wire_bearer:
  assumes "wire_law wire" and "ascii (mcp_auth_token st)"
  shows "wire (bearer_header st) = codes (bearer_header st)"
proof -
  have "ascii (bearer_header st)" using assms(2) by (auto simp: ascii_def bearer_header_def)
  with assms(1) show ?thesis unfolding wire_law_def ascii_def by blast
qed

lemma utf8_codes: "\<exists>b. utf8 (codes t) = Inr b"
proof -
  have "encode_char (of_char c) \<noteq> None" for c
    using nat_of_char_less_256 [of c] unfolding encode_char_def by (simp del: nat_of_char_less_256)
  then have "encode (map of_char t) \<noteq> None"
    by (induction t) (auto split: option.splits)
  then show ?thesis by (auto simp: utf8_def codes_def)
qed

definition started :: "('p, 'w) toolset \<Rightarrow> string \<Rightarrow> bool" where
  "started h name \<longleftrightarrow> \<not> isl (server_secret h name)"

lemma server_secret_expected: "server_secret h name = Inr s \<Longrightarrow> expected (server_settings h name) = Inr s"
  unfolding server_secret_def start_finance_server_def by (auto simp: bindr_Inr_iff split: if_splits)

definition shares_token :: "('p, 'w) toolset \<Rightarrow> string \<Rightarrow> bool" where
  "shares_token h name \<longleftrightarrow>
     mcp_auth_token (server_settings h name) = mcp_auth_token (agent_settings h)"

lemma mcp_call_exact:
  assumes "wire_law (on_wire h)" and "ascii (mcp_auth_token (agent_settings h))"
    and "name \<in> {''risk'', ''filesystem'', ''finance''}"
  shows "mcp_call h name tool w =
    (if started h name \<and> shares_token h name
     then (map_sum (reported h) id (fst (tool w)), snd (tool w)) else (Inl (refused h), w))"
proof -
  let ?a = "agent_settings h"
  from connection_header [OF assms(3)] obtain c where
    c: "map_of (mcp_connections ?a (agent_environ h)) name = Some c"
      "map_of (headers c) ''Authorization'' = Some (bearer_header ?a)" by blast
  note wire = wire_bearer [OF assms(1,2)]
  obtain b where b: "utf8 (codes (bearer_header ?a)) = Inr b"
    using utf8_codes by blast
  show ?thesis
  proof (cases "server_secret h name")
    case (Inl e)
    with c show ?thesis by (simp add: mcp_call_def started_def)
  next
    case (Inr secret)
    have s: "utf8 (codes (bearer_header (server_settings h name))) = Inr secret"
      using expected_Inr [OF server_secret_expected [OF Inr]] by blast
    have "b = secret \<longleftrightarrow> bearer_header ?a = bearer_header (server_settings h name)"
      using utf8_inj [of _ secret] s b by (metis codes_inject sum.inject(2))
    then have "b = secret \<longleftrightarrow> shares_token h name"
      by (auto simp: bearer_header_def shares_token_def)
    with c wire b Inr show ?thesis by (simp add: mcp_call_def dispatch_def split_beta started_def)
  qed
qed

section \<open>The start of the file server\<close>

lemma mkdir_p_makes:
  assumes "fs_ok fs" and "plain fs p" and "mkdir_p fs p = (None, fs')"
  shows "object_at fs' p = Some Dir"
proof -
  have d: "dirs_added fs fs' p" using assms by (rule mkdir_p_plain)
  have g: "good fs' p" by (rule plain_good [OF plain_links [OF dirs_added_links [OF d] assms(2)]])
  have made: "object_at f p = Some Dir" if "sys_mkdir fs0 p = Inr f" "fs_ok fs0" "plain fs0 p" for fs0 f
    using that sys_mkdir_Inr_object by blast
  have "is_dir fs' p \<or> (\<exists>fs0. sys_mkdir fs0 p = Inr fs' \<and> fs_ok fs0 \<and> plain fs0 p)"
    using assms by (rule mkdir_p_None)
  then show ?thesis
  proof
    assume "is_dir fs' p"
    then obtain q where "stat fs' p = Inr (q, Dir)"
      by (auto simp: is_dir_def split: sum.splits prod.splits obj.splits)
    from stat_good [OF g this] show ?thesis by simp
  next
    assume "\<exists>fs0. sys_mkdir fs0 p = Inr fs' \<and> fs_ok fs0 \<and> plain fs0 p"
    with made show ?thesis by blast
  qed
qed

text \<open>A server that has started has its root: a directory, its own canonical path, made on the way
  if it was missing; and what was there before is unchanged.\<close>

theorem started_root:
  assumes "fs_ok fs" and "start_fs_server st cwd fs = (Inr (secret, jail), fs')"
  shows "object_at fs' jail = Some Dir \<and> dirs_added fs fs' jail \<and> jail = ROOT st cwd fs \<and>
    expected st = Inr secret"
proof -
  from assms(2) have jail: "jail = ROOT st cwd fs" "expected st = Inr secret"
    and mk: "mkdir_p fs jail = (None, fs')"
    by (auto simp: start_fs_server_def Let_def split: sum.splits prod.splits option.splits)
  have "good fs jail" by (simp add: jail(1) ROOT_def resolve_good)
  then have pl: "plain fs jail"
  proof (rule good_cases)
    fix l
    assume "link_on fs l jail" "stuck fs l"
    from mkdir_p_stuck [OF assms(1) this] mk show ?thesis by simp
  qed
  from mkdir_p_makes [OF assms(1) this mk] mkdir_p_plain [OF assms(1) pl mk] jail show ?thesis by blast
qed

section \<open>Properties\<close>

text \<open>A sample toolset: the tree and engine of the component theories, the development settings
  everywhere, and a database that takes every row.\<close>

definition sample_tools :: "((nat \<times> string) list, api_world) toolset" where
  "sample_tools = \<lparr>agent_settings = default_settings, server_settings = (\<lambda>_. default_settings),
     agent_environ = [], files_root = sample_jail, on_wire = codes, refused = HTTPError ''401'',
     reported = (\<lambda>e. e), exn_text = (\<lambda>_. ''failed''), sandbox_engine = sample_engine,
     finance_net = api_net default_settings show_nat, commit_code = (\<lambda>_. None),
     commit_file = (\<lambda>_. None), commit_balance = (\<lambda>_. None), run_thread = Some ''thread-1'',
     mcp_client_id = None\<rparr>"

definition sample_tool_world :: "((nat \<times> string) list, api_world) tool_world" where
  "sample_tool_world = \<lparr>files = sample_fs, file_rows = [], sandbox = [], code_rows = [],
     token = new_cache, finance = \<lparr>w_now = 1000, w_delay = 1, w_issued = [], w_drawn = 0\<rparr>,
     balance_rows = []\<rparr>"

definition sample_calls :: "tool_call list" where
  "sample_calls = [Write_Text_File ''new/x'' [104, 105], Execute_Sandboxed_Code ''loop'',
     Write_Text_File ''out/passwd'' [120], Write_Text_File ''new/x'' [104]]"

lemma sample_tools_behave:
  "engine_behaves (sandbox_engine sample_tools) (\<lambda>p. fst ` set p)" "commit_file sample_tools = (\<lambda>_. None)"
  "fs_ok (files sample_tool_world)"
  using sample_engine_law sample_fs_ok
  by (auto simp: engine_behaves_def sample_tools_def sample_tool_world_def sample_engine_def)




text \<open>The sample run's audit: of three writes one is refused, and the last row of the file written
  twice names its final length.\<close>

definition sample_rows :: file_events where
  "sample_rows = [\<lparr>fa_path = ''new/x'', fa_action = ''create'', fa_byte_count = 2, fa_preview = [104, 105]\<rparr>,
     \<lparr>fa_path = ''new/x'', fa_action = ''write'', fa_byte_count = 1, fa_preview = [104]\<rparr>]"

lemma sample_audit:
  "file_rows (snd (answer_calls sample_tools sample_calls sample_tool_world)) = sample_rows"
  by code_simp

lemma sample_last_write:
  "last_write sample_jail sample_fs (sample_jail @ [''new'', ''x'']) sample_rows = Some (sample_rows ! 1)"
  by code_simp


text \<open>What the tools of the servers can change.\<close>

definition same_remote :: "('p, 'w) tool_world \<Rightarrow> ('p, 'w) tool_world \<Rightarrow> bool" where
  "same_remote w w' \<longleftrightarrow> files w' = files w \<and> file_rows w' = file_rows w \<and> token w' = token w \<and>
     finance w' = finance w \<and> balance_rows w' = balance_rows w"

lemma code_tool_same_remote: "same_remote w (snd (code_tool h code w))"
  by (simp add: same_remote_def code_tool_def split: prod.split)

lemma refused_call_keeps:
  assumes "wire_law (on_wire h)" and "ascii (mcp_auth_token (agent_settings h))"
    and "\<not> shares_token h ''risk''" "\<not> shares_token h ''filesystem''" "\<not> shares_token h ''finance''"
  shows "same_remote w (snd (call_tool h c w))"
  using code_tool_same_remote by (cases c) (auto simp: mcp_call_exact assms same_remote_def)

lemma same_remote_trans: "same_remote w1 w2 \<Longrightarrow> same_remote w2 w3 \<Longrightarrow> same_remote w1 w3"
  by (simp add: same_remote_def)

text \<open>C8. The tool servers serve the holders of their token only. A call the graph makes to a server
  runs the tool exactly when the server has started and both hold the same token, and is refused
  otherwise; and when the graph holds none of the servers' tokens, no sequence of tool calls
  changes a file, an audit row of the servers, the token cache or the finance service.\<close>
theorem tool_servers_need_token:
  assumes "wire_law (on_wire h)" and "ascii (mcp_auth_token (agent_settings h))"
  shows "(name = ''risk'' \<or> name = ''filesystem'' \<or> name = ''finance'' \<longrightarrow>
      mcp_call h name tool w =
        (if started h name \<and> shares_token h name
         then (map_sum (reported h) id (fst (tool w)), snd (tool w)) else (Inl (refused h), w))) \<and>
    (\<not> shares_token h ''risk'' \<and> \<not> shares_token h ''filesystem'' \<and> \<not> shares_token h ''finance'' \<longrightarrow>
      same_remote w (snd (answer_calls h cs w)))"
proof (intro conjI impI)
  assume "name = ''risk'' \<or> name = ''filesystem'' \<or> name = ''finance''"
  then have "name \<in> {''risk'', ''filesystem'', ''finance''}" by blast
  from mcp_call_exact [OF assms this] show "mcp_call h name tool w =
      (if started h name \<and> shares_token h name
       then (map_sum (reported h) id (fst (tool w)), snd (tool w)) else (Inl (refused h), w))" .
next
  assume t: "\<not> shares_token h ''risk'' \<and> \<not> shares_token h ''filesystem'' \<and> \<not> shares_token h ''finance''"
  then show "same_remote w (snd (answer_calls h cs w))"
    unfolding answer_calls_def
    by (intro serve_all_inv [where P = "same_remote w"])
      (auto intro: same_remote_trans refused_call_keeps [OF assms] simp: same_remote_def [of w w])
qed

text \<open>The same tools with a graph that holds another token.\<close>

definition strange_tools :: "((nat \<times> string) list, api_world) toolset" where
  "strange_tools = sample_tools\<lparr>agent_settings := default_settings\<lparr>mcp_auth_token := ''guess''\<rparr>\<rparr>"

theorem tool_servers_need_token_witness:
  "files (snd (answer_calls strange_tools sample_calls sample_tool_world)) = sample_fs \<and>
   snd (mcp_call strange_tools ''risk'' (\<lambda>w. (Inr (), w\<lparr>files := []\<rparr>)) sample_tool_world) = sample_tool_world"
proof -
  have w: "wire_law (on_wire strange_tools)" "ascii (mcp_auth_token (agent_settings strange_tools))"
    by (simp_all add: strange_tools_def sample_tools_def wire_law_def ascii_def default_settings_def)
  have "\<not> shares_token strange_tools n" for n
    by (simp add: shares_token_def strange_tools_def sample_tools_def default_settings_def)
  with tool_servers_need_token [OF w, where name = "''risk''" and w = sample_tool_world and cs = sample_calls
      and tool = "\<lambda>w. (Inr (), w\<lparr>files := []\<rparr>)"]
  show ?thesis by (simp add: same_remote_def sample_tool_world_def)
qed

end
