(* ===== verification/Checkpoint_Refines.thy ===== *)
theory Checkpoint_Refines
  imports Checkpoints
begin

text \<open>
  The saver and the single saved state. The properties of theory \<open>Endpoint_Claims\<close> are of the main
  graph with one state per thread (\<open>engine_api\<close>); the deployed graph keeps every checkpoint
  (\<open>history_api\<close>). The locale \<open>graph_refinement\<close> is a simulation between two compiled graphs
  for the routes that name no checkpoint; its interpretation shows that the saver refines the
  single state, so that those routes answer alike over either.
\<close>

section \<open>A simulation between compiled graphs\<close>

locale graph_refinement =
  fixes conc :: "('g, 'v) graph_api" and abst :: "('h, 'u) graph_api" and rel :: "'g \<Rightarrow> 'h \<Rightarrow> bool"
  assumes invoke_sim: "rel g s \<Longrightarrow>
      fst (ainvoke conc cx (checkpoint_config t None) input g) =
        fst (ainvoke abst cx (checkpoint_config t None) input s) \<and>
      rel (snd (ainvoke conc cx (checkpoint_config t None) input g))
        (snd (ainvoke abst cx (checkpoint_config t None) input s))"
    and stream_sim: "rel g s \<Longrightarrow>
      fst (astream conc cx (checkpoint_config t None) ms g) =
        fst (astream abst cx (checkpoint_config t None) ms s) \<and>
      rel (snd (astream conc cx (checkpoint_config t None) ms g))
        (snd (astream abst cx (checkpoint_config t None) ms s))"
    and interrupted_sim: "rel g s \<Longrightarrow>
      is_interrupted (state_graph.truncate conc) t g = is_interrupted (state_graph.truncate abst) t s"
begin

lemma run_on_thread_sim:
  assumes "rel g s"
  shows "fst (run_on_thread conc sv name rows (checkpoint_config t None) input g) =
      fst (run_on_thread abst sv name rows (checkpoint_config t None) input s)"
    and "rel (snd (run_on_thread conc sv name rows (checkpoint_config t None) input g))
      (snd (run_on_thread abst sv name rows (checkpoint_config t None) input s))"
  using invoke_sim [OF assms] assms by (auto simp: run_on_thread_def split: sum.split)

lemma run_agent_sim:
  assumes "rel g s"
  shows "fst (run_agent conc sv commit p name g d) = fst (run_agent abst sv commit p name s d)"
    and "rel (fst (snd (run_agent conc sv commit p name g d)))
      (fst (snd (run_agent abst sv commit p name s d)))"
    and "snd (snd (run_agent conc sv commit p name g d)) = snd (snd (run_agent abst sv commit p name s d))"
  using run_on_thread_sim [OF assms] by (simp_all add: run_agent_def split_beta)

lemma ask_sim:
  assumes "rel g s"
  shows "fst (ask conc sv q name rows g) = fst (ask abst sv q name rows s)"
    and "rel (snd (ask conc sv q name rows g)) (snd (ask abst sv q name rows s))"
  using run_on_thread_sim [OF assms] by (simp_all add: ask_def split_beta)

lemma resume_sim:
  assumes "rel g s"
  shows "fst (resume_thread conc sv t name rows g) = fst (resume_thread abst sv t name rows s)"
    and "rel (snd (resume_thread conc sv t name rows g)) (snd (resume_thread abst sv t name rows s))"
  using run_on_thread_sim [OF assms] interrupted_sim [OF assms, of t] assms
  by (simp_all add: resume_thread_def split_beta split: option.split sum.split bool.split)

lemma stream_events_sim:
  assumes "rel g s"
  shows "fst (stream_events conc sv p name rows g) = fst (stream_events abst sv p name rows s)"
    and "fst (snd (stream_events conc sv p name rows g)) = fst (snd (stream_events abst sv p name rows s))"
    and "rel (snd (snd (stream_events conc sv p name rows g)))
      (snd (snd (stream_events abst sv p name rows s)))"
proof -
  have "fst (stream_events conc sv p name rows g) = fst (stream_events abst sv p name rows s) \<and>
    fst (snd (stream_events conc sv p name rows g)) = fst (snd (stream_events abst sv p name rows s)) \<and>
    rel (snd (snd (stream_events conc sv p name rows g))) (snd (snd (stream_events abst sv p name rows s)))"
  proof (cases "prepare sv name rows")
    case (Inl e)
    with assms show ?thesis by (cases e) (simp_all add: stream_events_def)
  next
    case (Inr cx)
    let ?c = "astream conc cx (checkpoint_config (run_thread_id p) None) [HumanMessage (task_description p)] g"
    let ?a = "astream abst cx (checkpoint_config (run_thread_id p) None) [HumanMessage (task_description p)] s"
    obtain r cs g' s' where "?c = ((r, cs), g')" "?a = ((r, cs), s')" "rel g' s'"
      using stream_sim [OF assms, of cx "run_thread_id p" "[HumanMessage (task_description p)]"]
      by (metis prod.collapse)
    with Inr show ?thesis
      by (auto simp: stream_events_def split: option.split exn.split)
  qed
  then show "fst (stream_events conc sv p name rows g) = fst (stream_events abst sv p name rows s)"
    and "fst (snd (stream_events conc sv p name rows g)) = fst (snd (stream_events abst sv p name rows s))"
    and "rel (snd (snd (stream_events conc sv p name rows g)))
      (snd (snd (stream_events abst sv p name rows s)))" by blast+
qed

lemma run_agent_stream_sim:
  assumes "rel g s"
  shows "fst (run_agent_stream conc sv commit p name g d) = fst (run_agent_stream abst sv commit p name s d)"
    and "rel (fst (snd (run_agent_stream conc sv commit p name g d)))
      (fst (snd (run_agent_stream abst sv commit p name s d)))"
    and "snd (snd (run_agent_stream conc sv commit p name g d)) =
      snd (snd (run_agent_stream abst sv commit p name s d))"
  using stream_events_sim [OF assms] by (simp_all add: run_agent_stream_def split_beta)

end

section \<open>The saver keeps the single state\<close>

text \<open>A checkpoint holds what the single state of the thread holds, its run's counters aside; and
  the latest checkpoint of every thread does.\<close>

definition stores :: "saved_checkpoint \<Rightarrow> config \<Rightarrow> bool" where
  "stores k c \<longleftrightarrow> ck_pending k = pending c \<and> ck_state k = gstate c"

definition keeps_latest :: "saver \<Rightarrow> saved \<Rightarrow> bool" where
  "keeps_latest g s \<longleftrightarrow>
     (\<forall>t. rel_option stores (find_checkpoint None (thread_rows t g)) (map_of s t))"

text \<open>A step that raises leaves the graph's state and what is pending as they were, so the last
  configuration logged, or the first if none is, has the state the run ended with.\<close>

lemma failed_superstep:
  "superstep env c = (Some e, d) \<Longrightarrow> pending d = pending c \<and> gstate d = gstate c"
  by (auto simp: superstep_def Let_def split: option.splits sum.splits prod.splits)

lemma logged_end:
  "run_log (superstep env) ended k c = ((r, d), cs) \<Longrightarrow>
     pending (last (c # cs)) = pending d \<and> gstate (last (c # cs)) = gstate d"
proof (induction k arbitrary: c cs)
  case 0
  then show ?case by (auto split: if_splits)
next
  case (Suc k)
  show ?case
  proof (cases "ended c")
    case True
    with Suc.prems show ?thesis by simp
  next
    case False
    obtain e c' where st: "superstep env c = (e, c')" by (rule prod.exhaust)
    show ?thesis
    proof (cases e)
      case (Some x)
      with False st Suc.prems failed_superstep [of env c x c'] show ?thesis by simp
    next
      case None
      with False st Suc.prems obtain cs' where "run_log (superstep env) ended k c' = ((r, d), cs')"
        and "cs = c' # cs'" by (auto split: prod.splits)
      with Suc.IH [of c' cs'] show ?thesis by simp
    qed
  qed
qed

lemma keeps_latest_start:
  "keeps_latest g s \<Longrightarrow> start_state (find_checkpoint None (thread_rows t g)) = saved_state s t"
  unfolding keeps_latest_def start_state_def saved_state_def
  by (drule spec [of _ t]) (auto simp: stores_def elim: option.rel_cases)

text \<open>One run over either ends alike, and the last row written, or the one it started from if none
  was, stores that end.\<close>

lemma logged_run_engine:
  assumes "keeps_latest g s" and "input \<noteq> None \<or> map_of s t \<noteq> None"
    and "logged_run base limit cx (checkpoint_config t None) input (thread_rows t g) = ((r, d), cs)"
  shows "engine_run base limit cx t input s = (r, d) \<and>
    (if cs = [] then \<exists>k. find_checkpoint None (thread_rows t g) = Some k \<and> stores k d
     else pending (last cs) = pending d \<and> gstate (last cs) = gstate d)"
proof -
  let ?env = "ctx_env base cx" and ?k = "find_checkpoint None (thread_rows t g)"
  show ?thesis
  proof (cases input)
    case (Some ms)
    let ?c = "start_config ?env (start_state ?k) ms"
    from assms(3) Some obtain cs' where l: "run_log (superstep ?env) ended limit ?c = ((r, d), cs')"
      and cs: "cs = ?c # cs'"
      by (auto simp: logged_run_def checkpoint_config_def Let_def split: prod.splits)
    from l have "run_graph (superstep ?env) ended limit ?c = (r, d)"
      by (simp add: run_log_run [symmetric])
    with Some keeps_latest_start [OF assms(1), of t] logged_end [OF l] cs show ?thesis
      by (simp add: engine_run_def invoke_graph_def)
  next
    case None
    have "rel_option stores ?k (map_of s t)" using assms(1) by (simp add: keeps_latest_def)
    with None assms(2) obtain k c where k: "?k = Some k" and c: "map_of s t = Some c"
      and st: "stores k c" by (auto simp: option_rel_Some2)
    let ?c = "\<lparr>pending = ck_pending k, gstate = ck_state k, outside = nothing_done\<rparr>"
    have c': "c\<lparr>outside := nothing_done\<rparr> = ?c" using st by (simp add: stores_def)
    from assms(3) None k have l: "run_log (superstep ?env) ended limit ?c = ((r, d), cs)"
      by (simp add: logged_run_def checkpoint_config_def)
    then have "run_graph (superstep ?env) ended limit ?c = (r, d)"
      by (simp add: run_log_run [symmetric])
    with None c c' have "engine_run base limit cx t input s = (r, d)"
      by (simp add: engine_run_def nothing_done_def)
    with logged_end [OF l] k show ?thesis by (auto simp: stores_def)
  qed
qed

lemma run_keeps_latest:
  assumes "keeps_latest g s" and "input \<noteq> None \<or> map_of s t \<noteq> None"
    and "logged_run base limit cx (checkpoint_config t None) input (thread_rows t g) = ((r, d), cs)"
  shows "keeps_latest (g @ rows_after now (checkpoint_config t None) (thread_rows t g) src cs)
      (AList.update t d s)"
proof -
  let ?new = "rows_after now (checkpoint_config t None) (thread_rows t g) src cs"
  note ends = conjunct2 [OF logged_run_engine [OF assms]]
  have all: "list_all (\<lambda>c. ck_thread c = t) ?new"
    using rows_after_thread [of "checkpoint_config t None"] by (simp add: checkpoint_config_def)
  have own: "thread_rows t (g @ ?new) = thread_rows t g @ ?new"
    using thread_rows_own [OF all] by simp
  have "\<exists>k. find_checkpoint None (thread_rows t g @ ?new) = Some k \<and> stores k d"
  proof (cases "cs = []")
    case True
    with ends show ?thesis by (simp add: rows_after_def Let_def)
  next
    case False
    have "?new \<noteq> [] \<and> stores (last ?new) d"
      using ends False chain_rows_last [OF False] by (simp add: rows_after_def Let_def stores_def)
    then show ?thesis by (simp add: find_checkpoint_def)
  qed
  moreover have "thread_rows u (g @ ?new) = thread_rows u g" if "u \<noteq> t" for u
    using thread_rows_other [OF all that] by simp
  ultimately show ?thesis
    using assms(1) own unfolding keeps_latest_def by (auto simp: update_conv' simp del: thread_rows_append)
qed

lemma keeps_latest_None: "keeps_latest g s \<Longrightarrow> map_of s t = None \<longleftrightarrow> thread_rows t g = []"
  unfolding keeps_latest_def by (drule spec [of _ t]) (auto simp: find_checkpoint_def option_rel_Some1 split: if_splits)

lemma history_ainvoke_sim:
  assumes "keeps_latest g s"
  shows "fst (history_ainvoke base limit now cx (checkpoint_config t None) input g) =
      fst (engine_ainvoke base limit cx (checkpoint_config t None) input s) \<and>
    keeps_latest (snd (history_ainvoke base limit now cx (checkpoint_config t None) input g))
      (snd (engine_ainvoke base limit cx (checkpoint_config t None) input s))"
proof (cases "input = None \<and> map_of s t = None")
  case True
  with assms keeps_latest_None [OF assms, of t] show ?thesis
    by (simp add: history_ainvoke_def history_run_def logged_run_def engine_ainvoke_def
        find_checkpoint_def rows_after_def checkpoint_config_def Let_def)
next
  case False
  obtain r d cs where l: "logged_run base limit cx (checkpoint_config t None) input (thread_rows t g) =
      ((r, d), cs)" by (metis prod.collapse)
  have ok: "input \<noteq> None \<or> map_of s t \<noteq> None" using False by (cases input) simp_all
  have "cfg_thread (checkpoint_config t None) = t" by (simp add: checkpoint_config_def)
  with False l logged_run_engine [OF assms ok l] run_keeps_latest [OF assms ok l] show ?thesis
    by (auto simp: history_ainvoke_def history_run_def engine_ainvoke_def Let_def split: option.split)
qed

lemma history_astream_sim:
  assumes "keeps_latest g s"
  shows "fst (astream (history_api base limit now) cx (checkpoint_config t None) ms g) =
      fst (astream (engine_api base limit) cx (checkpoint_config t None) ms s) \<and>
    keeps_latest (snd (astream (history_api base limit now) cx (checkpoint_config t None) ms g))
      (snd (astream (engine_api base limit) cx (checkpoint_config t None) ms s))"
proof -
  obtain r d cs where l: "logged_run base limit cx (checkpoint_config t None) (Some ms) (thread_rows t g) =
      ((r, d), cs)" by (metis prod.collapse)
  have ok: "Some ms \<noteq> None \<or> map_of s t \<noteq> None" by simp
  have "cfg_thread (checkpoint_config t None) = t" by (simp add: checkpoint_config_def)
  with l logged_run_engine [OF assms ok l] run_keeps_latest [OF assms ok l] show ?thesis
    by (simp add: history_api_def engine_api_def history_run_def Let_def)
qed

lemma history_interrupted_sim:
  assumes "keeps_latest g s"
  shows "is_interrupted (state_graph.truncate (history_api base limit now)) t g =
    is_interrupted (state_graph.truncate (engine_api base limit)) t s"
proof -
  have "rel_option stores (find_checkpoint None (thread_rows t g)) (map_of s t)"
    using assms by (simp add: keeps_latest_def)
  then show ?thesis
    by (cases rule: option.rel_cases)
      (auto simp: is_interrupted_def history_state_def engine_state_def checkpoint_config_def
        snapshot_of_def stores_def split: option.split)
qed

interpretation latest: graph_refinement "history_api base limit now" "engine_api base limit" keeps_latest
  for base limit now
  by unfold_locales (simp_all only: history_api_simps engine_api_simps history_ainvoke_sim
    history_astream_sim history_interrupted_sim)

section \<open>The routes that name no checkpoint\<close>

datatype turn =
    Run_turn agent_request string
  | Stream_turn agent_request string
  | Ask_turn string string
  | Resume_turn string string

datatype turn_answer =
    Run_answer "exn + agent_response \<times> string list"
  | Stream_answer "stream_event list"
  | Ask_answer "exn + ask_response"
  | Resume_answer "exn + agent_response"

fun serve_turn ::
    "('g, 'v) graph_api \<Rightarrow> services \<Rightarrow> (session \<Rightarrow> exn option) \<Rightarrow> turn \<Rightarrow> 'g \<times> session \<Rightarrow>
     turn_answer \<times> ('g \<times> session)" where
  "serve_turn api sv commit (Run_turn p name) (g, d) =
     (case run_agent api sv commit p name g d of (a, g', d') \<Rightarrow> (Run_answer a, (g', d')))"
| "serve_turn api sv commit (Stream_turn p name) (g, d) =
     (case run_agent_stream api sv commit p name g d of (a, g', d') \<Rightarrow> (Stream_answer a, (g', d')))"
| "serve_turn api sv commit (Ask_turn q name) (g, d) =
     (case ask api sv q name (owners d) g of (a, g') \<Rightarrow> (Ask_answer a, (g', d)))"
| "serve_turn api sv commit (Resume_turn t name) (g, d) =
     (case resume_thread api sv t name (owners d) g of (a, g') \<Rightarrow> (Resume_answer a, (g', d)))"

lemma serve_turn_sim:
  assumes "keeps_latest g s"
  shows "fst (serve_turn (history_api base limit now) sv commit q (g, d)) =
      fst (serve_turn (engine_api base limit) sv commit q (s, d)) \<and>
    keeps_latest (fst (snd (serve_turn (history_api base limit now) sv commit q (g, d))))
      (fst (snd (serve_turn (engine_api base limit) sv commit q (s, d)))) \<and>
    snd (snd (serve_turn (history_api base limit now) sv commit q (g, d))) =
      snd (snd (serve_turn (engine_api base limit) sv commit q (s, d)))"
  using latest.run_agent_sim [OF assms] latest.run_agent_stream_sim [OF assms]
    latest.ask_sim [OF assms] latest.resume_sim [OF assms]
  by (cases q) (simp_all add: split_beta)


lemma keeps_latest_empty: "keeps_latest [] []"
  by (simp add: keeps_latest_def thread_rows_def find_checkpoint_def)

definition sample_turns :: "turn list" where
  "sample_turns = [Run_turn (sample_request ''my invoice'') ''alice'', Resume_turn ''0001'' ''alice'',
     Ask_turn ''what is it?'' ''bob'']"


end
