(* ===== verification/Overlap.thy ===== *)
theory Overlap
  imports Checkpoint_Refines
begin

text \<open>
  Requests that run on one thread at the same time. No route takes a lock on the conversation, so
  the runs of overlapping requests interleave at the awaits of the saver: a run reads the latest
  checkpoint once, when it begins, keeps its state in memory and stores a checkpoint for its
  input and after every superstep. A schedule is the list of the runs in the order in which they
  take their steps.
\<close>

section \<open>Runs taking turns\<close>

datatype phase =
    Idle
  | Begun config "string option" int
  | Going config nat "string option" int
  | Ended "exn option" config

text \<open>The rows of the thread and the phase of each run. For the proofs, a run's record also holds
  the rows it began with and those it stored, and the thread's who stored the last row.\<close>

record race =
  stored :: saver
  runner :: "nat \<Rightarrow> phase"
  seen :: "nat \<Rightarrow> saver"
  mine :: "nat \<Rightarrow> saver"
  latest_by :: "nat option"

type_synonym jobs = "nat \<Rightarrow> run_env \<times> message list"

definition start_race :: "saver \<Rightarrow> race" where
  "start_race h = \<lparr>stored = h, runner = (\<lambda>_. Idle), seen = (\<lambda>_. []), mine = (\<lambda>_. []), latest_by = None\<rparr>"

definition begun_config :: "jobs \<Rightarrow> nat \<Rightarrow> saver \<Rightarrow> config" where
  "begun_config job i h =
     start_config (fst (job i)) (start_state (find_checkpoint None h)) (snd (job i))"

text \<open>Storing the configuration a run has reached; it goes on with the new row as the parent.\<close>

definition put :: "string \<Rightarrow> rat \<Rightarrow> nat \<Rightarrow> config \<Rightarrow> nat \<Rightarrow> string option \<Rightarrow> int \<Rightarrow> string \<Rightarrow> race \<Rightarrow> race" where
  "put t now i c m p n src s = (let row = \<lparr>ck_thread = t, ck_id = row_id (length (stored s)), ck_ts = now,
       ck_parent = p, ck_pending = pending c, ck_state = gstate c, ck_source = src, ck_step = n\<rparr>
     in s\<lparr>stored := stored s @ [row], mine := (mine s)(i := mine s i @ [row]), latest_by := Some i,
         runner := (runner s)(i := Going c m (Some (ck_id row)) (n + 1))\<rparr>)"

definition advance :: "string \<Rightarrow> rat \<Rightarrow> nat \<Rightarrow> jobs \<Rightarrow> nat \<Rightarrow> race \<Rightarrow> race" where
  "advance t now limit job i s =
     (case runner s i of
        Idle \<Rightarrow> (let k = find_checkpoint None (stored s) in
          s\<lparr>seen := (seen s)(i := stored s),
            runner := (runner s)(i := Begun (begun_config job i (stored s)) (parent_of None k) (next_step k))\<rparr>)
      | Begun c p n \<Rightarrow> put t now i c limit p n ''input'' s
      | Going c m p n \<Rightarrow>
          (if ended c then s\<lparr>runner := (runner s)(i := Ended None c)\<rparr>
           else case m of
             0 \<Rightarrow> s\<lparr>runner := (runner s)(i := Ended (Some GraphRecursionError) c)\<rparr>
           | Suc m' \<Rightarrow> (case superstep (fst (job i)) c of
               (Some e, c') \<Rightarrow> s\<lparr>runner := (runner s)(i := Ended (Some e) c')\<rparr>
             | (None, c') \<Rightarrow> put t now i c' m' p n ''loop'' s))
      | Ended r c \<Rightarrow> s)"

definition race_on :: "string \<Rightarrow> rat \<Rightarrow> nat \<Rightarrow> jobs \<Rightarrow> nat list \<Rightarrow> race \<Rightarrow> race" where
  "race_on t now limit job sched s = fold (advance t now limit job) sched s"

section \<open>What each run has seen and done\<close>

text \<open>The invariant of one run: what it has left to do completes the run it would make alone from
  the rows it began with, and the last row it stored is where it stands.\<close>

definition alone :: "jobs \<Rightarrow> nat \<Rightarrow> nat \<Rightarrow> saver \<Rightarrow> exn option \<times> config" where
  "alone job limit i h = invoke_graph (fst (job i)) limit (start_state (find_checkpoint None h)) (snd (job i))"

fun phase_ok :: "jobs \<Rightarrow> nat \<Rightarrow> nat \<Rightarrow> saver \<Rightarrow> saver \<Rightarrow> phase \<Rightarrow> bool" where
  "phase_ok job limit i h own Idle \<longleftrightarrow> own = []"
| "phase_ok job limit i h own (Begun c p n) \<longleftrightarrow> own = [] \<and> c = begun_config job i h"
| "phase_ok job limit i h own (Going c m p n) \<longleftrightarrow> own \<noteq> [] \<and> stores (last own) c \<and>
     run_graph (superstep (fst (job i))) ended m c = alone job limit i h"
| "phase_ok job limit i h own (Ended r c) \<longleftrightarrow> own \<noteq> [] \<and> stores (last own) c \<and>
     (r, c) = alone job limit i h"

definition race_inv :: "jobs \<Rightarrow> nat \<Rightarrow> saver \<Rightarrow> race \<Rightarrow> bool" where
  "race_inv job limit h s \<longleftrightarrow> (\<forall>i. phase_ok job limit i (seen s i) (mine s i) (runner s i)) \<and>
     prefix h (stored s) \<and> (\<forall>i. prefix (seen s i) (stored s)) \<and>
     (case latest_by s of None \<Rightarrow> stored s = h \<and> (\<forall>i. mine s i = [])
      | Some i \<Rightarrow> mine s i \<noteq> [] \<and> stored s \<noteq> [] \<and> last (stored s) = last (mine s i))"

lemma race_inv_start: "race_inv job limit h (start_race h)"
  by (simp add: race_inv_def start_race_def)

lemma stores_row [simp]:
  "stores \<lparr>ck_thread = t, ck_id = x, ck_ts = now, ck_parent = p, ck_pending = pending c,
     ck_state = gstate c, ck_source = src, ck_step = n\<rparr> c"
  by (simp add: stores_def)

lemma put_inv:
  assumes "race_inv job limit h s"
    and "run_graph (superstep (fst (job i))) ended m c = alone job limit i (seen s i)"
  shows "race_inv job limit h (put t now i c m p n src s)"
  using assms unfolding race_inv_def put_def Let_def by (auto intro: prefix_prefix)

lemma phase_inv:
  assumes "race_inv job limit h s" and "phase_ok job limit i (seen s i) (mine s i) ph"
  shows "race_inv job limit h (s\<lparr>runner := (runner s)(i := ph)\<rparr>)"
  using assms by (auto simp: race_inv_def split: option.splits)

lemma stores_same: "stores k c \<Longrightarrow> pending d = pending c \<and> gstate d = gstate c \<Longrightarrow> stores k d"
  by (simp add: stores_def)

lemma advance_inv:
  assumes inv: "race_inv job limit h s"
  shows "race_inv job limit h (advance t now limit job i s)"
proof -
  have ph: "phase_ok job limit i (seen s i) (mine s i) (runner s i)"
    using inv by (simp add: race_inv_def)
  show ?thesis
  proof (cases "runner s i")
    case Idle
    with inv ph show ?thesis
      by (auto simp: advance_def race_inv_def Let_def split: option.splits)
  next
    case (Begun c p n)
    with ph have "run_graph (superstep (fst (job i))) ended limit c = alone job limit i (seen s i)"
      by (simp add: alone_def begun_config_def invoke_graph_def)
    with put_inv [OF inv this] Begun show ?thesis by (simp add: advance_def)
  next
    case (Going c m p n)
    with ph have own: "mine s i \<noteq> []" "stores (last (mine s i)) c"
      and rest: "run_graph (superstep (fst (job i))) ended m c = alone job limit i (seen s i)" by simp_all
    show ?thesis
    proof (cases "ended c")
      case True
      with rest have "(None, c) = alone job limit i (seen s i)" by (cases m) simp_all
      with Going True own show ?thesis by (simp add: advance_def phase_inv [OF inv])
    next
      case ne: False
      show ?thesis
      proof (cases m)
        case 0
        with rest ne have "(Some GraphRecursionError, c) = alone job limit i (seen s i)" by simp
        with Going ne 0 own show ?thesis by (simp add: advance_def phase_inv [OF inv])
      next
        case (Suc m')
        obtain e c' where st: "superstep (fst (job i)) c = (e, c')" by (rule prod.exhaust)
        show ?thesis
        proof (cases e)
          case None
          with rest Suc ne st have "run_graph (superstep (fst (job i))) ended m' c' = alone job limit i (seen s i)"
            by simp
          from put_inv [OF inv this] Going ne Suc st None show ?thesis by (simp add: advance_def)
        next
          case (Some x)
          with rest Suc ne st have "(Some x, c') = alone job limit i (seen s i)" by simp
          with own stores_same failed_superstep [of "fst (job i)" c x c'] st Some
          have "phase_ok job limit i (seen s i) (mine s i) (Ended (Some x) c')" by auto
          from phase_inv [OF inv this] Going ne Suc st Some show ?thesis by (simp add: advance_def)
        qed
      qed
    qed
  next
    case (Ended r c)
    with inv show ?thesis by (simp add: advance_def)
  qed
qed

lemma race_on_Cons: "race_on t now limit job (i # sched) s = race_on t now limit job sched (advance t now limit job i s)"
  by (simp add: race_on_def)

lemma race_on_inv: "race_inv job limit h s \<Longrightarrow> race_inv job limit h (race_on t now limit job sched s)"
  by (induction sched arbitrary: s) (simp_all add: race_on_Cons advance_inv, simp add: race_on_def)

text \<open>What a run has seen is fixed when it begins, and only the runs of the schedule move.\<close>

lemma advance_seen:
  "runner s j \<noteq> Idle \<Longrightarrow> seen (advance t now limit job i s) j = seen s j \<and>
     runner (advance t now limit job i s) j \<noteq> Idle"
  by (auto simp: advance_def put_def Let_def split: phase.split nat.split prod.split option.split)

lemma advance_latest:
  "latest_by (advance t now limit job i s) = latest_by s \<or> latest_by (advance t now limit job i s) = Some i"
  by (auto simp: advance_def put_def Let_def split: phase.split nat.split prod.split option.split)

lemma race_on_seen:
  "runner s j \<noteq> Idle \<Longrightarrow> seen (race_on t now limit job sched s) j = seen s j"
proof (induction sched arbitrary: s)
  case (Cons i sched)
  from advance_seen [OF Cons.prems] Cons.IH show ?case by (simp add: race_on_Cons)
qed (simp add: race_on_def)

lemma race_on_latest:
  "latest_by (race_on t now limit job sched s) \<in> insert (latest_by s) (Some ` set sched)"
proof (induction sched arbitrary: s)
  case (Cons i sched)
  from Cons.IH [of "advance t now limit job i s"] advance_latest [of t now limit job i s] show ?case
    by (auto simp: race_on_Cons)
qed (simp add: race_on_def)

section \<open>A run that is not interrupted\<close>

text \<open>Scheduled alone, a run stores exactly the checkpoints of the sequential model.\<close>

lemma advance_Ended: "runner s i = Ended r c \<Longrightarrow> advance t now limit job i s = s"
  by (simp add: advance_def)

lemma going_alone:
  "run_log (superstep (fst (job i))) ended m c = ((r, d), cs) \<Longrightarrow> runner s i = Going c m p n \<Longrightarrow>
   \<exists>k. stored (race_on t now limit job (replicate k i) s) =
        stored s @ chain_rows t now p (length (stored s)) n ''loop'' cs \<and>
      runner (race_on t now limit job (replicate k i) s) i = Ended r d"
proof (induction m arbitrary: c cs s p n)
  case 0
  then show ?case
    by (intro exI [of _ 1]) (auto simp: race_on_def advance_def split: if_splits)
next
  case (Suc m)
  show ?case
  proof (cases "ended c")
    case True
    with Suc.prems show ?thesis by (intro exI [of _ 1]) (simp add: race_on_def advance_def)
  next
    case False
    obtain e c' where st: "superstep (fst (job i)) c = (e, c')" by (rule prod.exhaust)
    show ?thesis
    proof (cases e)
      case (Some x)
      with False st Suc.prems have "r = Some x" "d = c'" "cs = []" by simp_all
      with False st Suc.prems(2) Some show ?thesis
        by (intro exI [of _ 1]) (simp add: race_on_def advance_def)
    next
      case None
      with False st Suc.prems obtain cs' where l: "run_log (superstep (fst (job i))) ended m c' = ((r, d), cs')"
        and cs: "cs = c' # cs'" by (auto split: prod.splits)
      let ?s = "advance t now limit job i s"
      have s: "stored ?s = stored s @ chain_rows t now p (length (stored s)) n ''loop'' [c']"
        "runner ?s i = Going c' m (Some (row_id (length (stored s)))) (n + 1)"
        using False st None Suc.prems(2) by (simp_all add: advance_def put_def Let_def)
      from Suc.IH [OF l s(2)] obtain k where
        "stored (race_on t now limit job (replicate k i) ?s) = stored ?s @ chain_rows t now
           (Some (row_id (length (stored s)))) (length (stored ?s)) (n + 1) ''loop'' cs'"
        "runner (race_on t now limit job (replicate k i) ?s) i = Ended r d" by blast
      with s cs show ?thesis by (intro exI [of _ "Suc k"]) (simp add: race_on_Cons)
    qed
  qed
qed

theorem alone_is_sequential:
  assumes "job i = (ctx_env base cx, ms)"
    and "logged_run base limit cx (checkpoint_config t None) (Some ms) h = ((r, d), cs)"
  shows "\<exists>k. stored (race_on t now limit job (replicate k i) (start_race h)) =
       h @ rows_after now (checkpoint_config t None) h ''input'' cs \<and>
     runner (race_on t now limit job (replicate k i) (start_race h)) i = Ended r d"
proof -
  let ?f = "find_checkpoint None h" and ?c = "begun_config job i h"
  from assms obtain cs' where l: "run_log (superstep (fst (job i))) ended limit ?c = ((r, d), cs')"
    and cs: "cs = ?c # cs'"
    by (auto simp: logged_run_def checkpoint_config_def begun_config_def Let_def split: prod.splits)
  let ?s = "advance t now limit job i (advance t now limit job i (start_race h))"
  have s: "stored ?s = h @ chain_rows t now (parent_of None ?f) (length h) (next_step ?f) ''input'' [?c]"
    "runner ?s i = Going ?c limit (Some (row_id (length h))) (next_step ?f + 1)"
    by (simp_all add: advance_def put_def start_race_def Let_def)
  from going_alone [where i = i and s = ?s and job = job, OF l s(2)] obtain k where
    "stored (race_on t now limit job (replicate k i) ?s) = stored ?s @ chain_rows t now
       (Some (row_id (length h))) (length (stored ?s)) (next_step ?f + 1) ''loop'' cs'"
    "runner (race_on t now limit job (replicate k i) ?s) i = Ended r d" by blast
  with s cs show ?thesis
    by (intro exI [of _ "Suc (Suc k)"])
      (simp add: race_on_Cons rows_after_def Let_def checkpoint_config_def)
qed

section \<open>Properties\<close>



text \<open>Two messages on a fresh conversation: the second run begins before the first has stored its
  input.\<close>

definition sample_jobs :: jobs where
  "sample_jobs i = (sample_env [], [HumanMessage (if i = 0 then ''my invoice'' else ''our invoice'')])"

definition sample_schedule :: "nat list" where
  "sample_schedule = [0, 0, 0, 0, 0, 0, 1, 1, 1, 1, 1, 1]"

definition sample_race :: race where
  "sample_race = race_on ''t1'' 0 8 sample_jobs (0 # 1 # sample_schedule) (start_race [])"

fun answers_with :: "phase \<Rightarrow> (exn option \<times> message list) option" where
  "answers_with (Ended r c) = Some (r, messages (gstate c))"
| "answers_with _ = None"

lemma answers_with_Some: "answers_with ph = Some (r, ms) \<Longrightarrow> \<exists>c. ph = Ended r c \<and> messages (gstate c) = ms"
  by (cases ph) simp_all

lemma sample_race_ends:
  "answers_with (runner sample_race 0) = Some (None, [HumanMessage ''my invoice'', AIMessage ''ok'' []])"
  "answers_with (runner sample_race 1) = Some (None, [HumanMessage ''our invoice'', AIMessage ''ok'' []])"
  by code_simp+



end
