(* ===== verification/Front.thy ===== *)
theory Front
  imports Service_Claims Wiring
begin

text \<open>
  What stands between a request and its handler besides the dependencies: the rate limit of five
  a minute on three routes of \<open>app/api/v1/endpoints.py\<close>, keyed by \<open>user_key\<close>, and the response
  cache of \<open>/ask\<close>, keyed by \<open>_ask_cache_key\<close>. The dependencies are resolved first, then the
  limiter is asked, then the cache. The counters and the cache's store are libraries and are
  parameters. The end of the theory is the load profile of \<open>locustfile.py\<close>, whose users send
  requests through this front.
\<close>

declare serve_all.simps(2) [simp del]

section \<open>The libraries\<close>

text \<open>\<open>hit\<close> counts a request in the bucket of a route and a key, and says whether it is admitted;
  the cache returns what was set under a key until that expires.\<close>

record ('l, 'c) middleware =
  hit :: "string \<Rightarrow> string \<Rightarrow> rat \<Rightarrow> 'l \<Rightarrow> bool \<times> 'l"
  cache_get :: "string \<Rightarrow> rat \<Rightarrow> 'c \<Rightarrow> ask_response option"
  cache_set :: "string \<Rightarrow> ask_response \<Rightarrow> nat \<Rightarrow> rat \<Rightarrow> 'c \<Rightarrow> 'c"

text \<open>Documented behaviour: the buckets are separate, and a bucket's answer depends on that bucket
  and the time alone.\<close>

definition limiter_law :: "('l, 'c) middleware \<Rightarrow> (string \<Rightarrow> string \<Rightarrow> 'l \<Rightarrow> 'b) \<Rightarrow> bool" where
  "limiter_law mw bucket \<longleftrightarrow>
     (\<forall>sc k now l l'. bucket sc k l = bucket sc k l' \<longrightarrow>
        fst (hit mw sc k now l) = fst (hit mw sc k now l') \<and>
        bucket sc k (snd (hit mw sc k now l)) = bucket sc k (snd (hit mw sc k now l'))) \<and>
     (\<forall>sc k sc' k' now l. (sc', k') \<noteq> (sc, k) \<longrightarrow>
        bucket sc' k' (snd (hit mw sc k now l)) = bucket sc' k' l)"

text \<open>The cache makes nothing up.\<close>

definition cache_law :: "('l, 'c) middleware \<Rightarrow> ('c \<Rightarrow> (string \<times> ask_response) set) \<Rightarrow> bool" where
  "cache_law mw entries \<longleftrightarrow>
     (\<forall>k now c a. cache_get mw k now c = Some a \<longrightarrow> (k, a) \<in> entries c) \<and>
     (\<forall>k a ttl now c. entries (cache_set mw k a ttl now c) \<subseteq> insert (k, a) (entries c))"

section \<open>A request through the front\<close>

record arrived = request +
  auth_scheme :: string
  client_host :: "string option"

record ('l, 'c) front =
  inner :: service
  counters :: 'l
  responses :: 'c

definition auth_header :: "arrived \<Rightarrow> string" where
  "auth_header r = (case token r of None \<Rightarrow> [] | Some t \<Rightarrow> auth_scheme r @ '' '' @ t)"

definition as_request :: "arrived \<Rightarrow> request" where
  "as_request r = \<lparr>arrival = arrival r, uuid = uuid r, token = token r, body = body r\<rparr>"

text \<open>A token was read from a header whose scheme is bearer, up to case.\<close>

definition well_sent :: "arrived \<Rightarrow> bool" where
  "well_sent r \<longleftrightarrow> token r \<noteq> None \<longrightarrow> lower (auth_scheme r) = ''bearer'' \<and> CHR '' '' \<notin> set (auth_scheme r)"

text \<open>The decorated routes; the limiter counts each by its function's name.\<close>

fun limit_scope :: "call \<Rightarrow> string option" where
  "limit_scope (Run p) = Some ''run_agent''"
| "limit_scope (Run_stream p) = Some ''run_agent_stream''"
| "limit_scope (Ask q) = Some ''ask''"
| "limit_scope _ = None"

definition limit_error :: exn where
  "limit_error = RateLimitExceeded ''5 per 1 minute'' 60"

definition admit :: "('l, 'c) middleware \<Rightarrow> deployment \<Rightarrow> arrived \<Rightarrow> call \<Rightarrow> 'l \<Rightarrow> exn option \<times> 'l" where
  "admit mw dp r c l = (case limit_scope c of
       None \<Rightarrow> (None, l)
     | Some sc \<Rightarrow> (case user_key (config_of dp) (dp_jwt dp) (arrival r) (auth_header r) (client_host r) of
         Inl e \<Rightarrow> (Some e, l)
       | Inr k \<Rightarrow> (case hit mw sc k (arrival r) l of
           (True, l') \<Rightarrow> (None, l') | (False, l') \<Rightarrow> (Some limit_error, l'))))"

definition CACHE_NAMESPACE :: string where
  "CACHE_NAMESPACE = ''agent-cache:''"

definition CACHE_TTL_S :: nat where
  "CACHE_TTL_S = 300"

text \<open>\<open>/ask\<close> behind its cache: a hit skips the graph; an answer of the handler is stored. The
  session's commit is around either.\<close>

definition cached_ask ::
    "('l, 'c) middleware \<Rightarrow> deployment \<Rightarrow> rat \<Rightarrow> string \<Rightarrow> string \<Rightarrow> service \<Rightarrow> 'c \<Rightarrow>
     ((exn + answer) \<times> service) \<times> 'c" where
  "cached_ask mw dp now name q s c = (let key = ask_cache_key CACHE_NAMESPACE name q in
     case cache_get mw key now c of
       Some a \<Rightarrow> (with_session dp (\<lambda>rows. (Inr (Asked a), s)) s, c)
     | None \<Rightarrow> (case ask (dp_graph dp (memory s) now) (dp_services dp) q name (owners (session s)) (saver s) of
         rg \<Rightarrow> (with_session dp (\<lambda>rows. keep_graph Asked rg s) s,
           case fst rg of Inr a \<Rightarrow> cache_set mw key a CACHE_TTL_S now c | Inl e \<Rightarrow> c)))"

definition serve_call ::
    "('l, 'c) middleware \<Rightarrow> deployment \<Rightarrow> arrived \<Rightarrow> string \<Rightarrow> call \<Rightarrow> service \<Rightarrow> 'c \<Rightarrow>
     ((exn + answer) \<times> service) \<times> 'c" where
  "serve_call mw dp r name cl s c = (case cl of
       Ask q \<Rightarrow> cached_ask mw dp (arrival r) name q s c
     | _ \<Rightarrow> (route dp (arrival r) (uuid r) name cl s, c))"

definition front_request ::
    "('l, 'c) middleware \<Rightarrow> deployment \<Rightarrow> arrived \<Rightarrow> ('l, 'c) front \<Rightarrow> (exn + answer) \<times> ('l, 'c) front" where
  "front_request mw dp r f = (case body r of
       Login name password \<Rightarrow> (case handle_request dp (as_request r) (inner f) of
         (a, s) \<Rightarrow> (a, f\<lparr>inner := s\<rparr>))
     | Call cl \<Rightarrow> (case current_user dp (arrival r) (token r) of
         Inl e \<Rightarrow> (Inl e, f)
       | Inr name \<Rightarrow> (case admit mw dp r cl (counters f) of
           (Some e, l) \<Rightarrow> (Inl e, f\<lparr>counters := l\<rparr>)
         | (None, l) \<Rightarrow> (case serve_call mw dp r name cl (inner f) (responses f) of
             ((a, s), c) \<Rightarrow> (a, \<lparr>inner = s, counters = l, responses = c\<rparr>)))))"

section \<open>The front and the service\<close>

text \<open>Without a limit reached and a cached answer, the front is the service of theory \<open>Service\<close>.\<close>

lemma cached_ask_miss:
  assumes "cache_get mw (ask_cache_key CACHE_NAMESPACE name q) now c = None"
  shows "fst (cached_ask mw dp now name q s c) = route dp now fresh name (Ask q) s"
  using assms by (simp add: cached_ask_def with_session_def Let_def)

theorem front_is_service:
  assumes "\<And>sc k now l. fst (hit mw sc k now l)" and "\<And>k now c. cache_get mw k now c = None"
    and "\<And>now tok e. user_key (config_of dp) (dp_jwt dp) now tok h \<noteq> Inl e" and "client_host r = h"
  shows "fst (front_request mw dp r f) = fst (handle_request dp (as_request r) (inner f)) \<and>
    inner (snd (front_request mw dp r f)) = snd (handle_request dp (as_request r) (inner f))"
proof (cases "body r")
  case (Login name password)
  then show ?thesis by (simp add: front_request_def split: prod.split)
next
  case (Call cl)
  have "fst (admit mw dp r cl (counters f)) = None"
    using assms by (auto simp: admit_def split: option.split sum.split prod.split bool.split)
      (metis fst_conv)
  moreover have "fst (serve_call mw dp r name cl s c) = route dp (arrival r) (uuid r) name cl s" for name s c
    using cached_ask_miss [OF assms(2)] by (cases cl) (simp_all add: serve_call_def)
  ultimately show ?thesis using Call
    by (auto simp: front_request_def handle_request_def as_request_def split: sum.split prod.split option.split)
      (metis fst_conv prod.sel)+
qed

section \<open>Whose bucket, whose answer\<close>

text \<open>The empty text is no token.\<close>

definition jwt_nonempty :: "jwt_library \<Rightarrow> bool" where
  "jwt_nonempty j \<longleftrightarrow> (\<forall>s a now c. jwt_decode j s a now [] \<noteq> Inr c)"

lemma current_user_subject:
  assumes "current_user dp now tok = Inr name"
  shows "\<exists>t. tok = Some t \<and> decode_subject (config_of dp) (dp_jwt dp) now t = Inr name \<and>
    map_of (dp_users dp) name \<noteq> None"
  using assms by (auto simp: current_user_def get_current_user_def split: option.splits sum.splits exn.splits if_splits)

text \<open>An authenticated request is counted under its user, whatever its token, scheme spelling or
  address.\<close>

lemma key_is_user:
  assumes "jwt_nonempty (dp_jwt dp)" and "well_sent r"
    and "current_user dp (arrival r) (token r) = Inr name"
  shows "user_key (config_of dp) (dp_jwt dp) (arrival r) (auth_header r) (client_host r) = Inr name"
proof -
  from current_user_subject [OF assms(3)] obtain t where t: "token r = Some t"
    and d: "decode_subject (config_of dp) (dp_jwt dp) (arrival r) t = Inr name" by blast
  have "t \<noteq> []"
  proof
    assume "t = []"
    with d assms(1) show False by (auto simp: decode_subject_def jwt_nonempty_def bindr_Inr_iff)
  qed
  with assms(2) t d show ?thesis
    by (simp add: user_key_def auth_header_def well_sent_def partition_at_append)
qed

text \<open>The requests counted in a bucket.\<close>

definition counted :: "deployment \<Rightarrow> string \<Rightarrow> string \<Rightarrow> arrived \<Rightarrow> bool" where
  "counted dp sc u r \<longleftrightarrow> (case body r of
       Call c \<Rightarrow> limit_scope c = Some sc \<and> current_user dp (arrival r) (token r) = Inr u
     | Login name password \<Rightarrow> False)"

definition after_hit :: "('l, 'c) middleware \<Rightarrow> deployment \<Rightarrow> arrived \<Rightarrow> 'l \<Rightarrow> 'l" where
  "after_hit mw dp r l = (case (body r, current_user dp (arrival r) (token r)) of
       (Call c, Inr name) \<Rightarrow> (case limit_scope c of
           None \<Rightarrow> l | Some sc \<Rightarrow> snd (hit mw sc name (arrival r) l))
     | _ \<Rightarrow> l)"

lemma admit_user:
  assumes "jwt_nonempty (dp_jwt dp)" and "well_sent r"
    and "current_user dp (arrival r) (token r) = Inr name"
  shows "admit mw dp r c l = (case limit_scope c of
       None \<Rightarrow> (None, l)
     | Some sc \<Rightarrow> (if fst (hit mw sc name (arrival r) l) then None else Some limit_error,
         snd (hit mw sc name (arrival r) l)))"
  by (simp add: admit_def key_is_user [OF assms] split: option.split prod.split bool.split)

lemma front_counters:
  assumes "jwt_nonempty (dp_jwt dp)" and "well_sent r"
  shows "counters (snd (front_request mw dp r f)) = after_hit mw dp r (counters f)"
proof (cases "body r")
  case (Call c)
  show ?thesis
  proof (cases "current_user dp (arrival r) (token r)")
    case (Inr name)
    obtain e l where a: "admit mw dp r c (counters f) = (e, l)" by (rule prod.exhaust)
    have "l = after_hit mw dp r (counters f)"
      using a Call Inr by (auto simp: admit_user [OF assms Inr] after_hit_def split: option.splits)
    with a Call Inr show ?thesis
      by (simp add: front_request_def split: option.split prod.split)
  qed (simp add: front_request_def after_hit_def Call)
qed (simp add: front_request_def after_hit_def split: prod.split)

lemma limiter_agrees:
  "limiter_law mw bucket \<Longrightarrow> bucket sc k l = bucket sc k l' \<Longrightarrow>
     fst (hit mw sc k now l) = fst (hit mw sc k now l') \<and>
     bucket sc k (snd (hit mw sc k now l)) = bucket sc k (snd (hit mw sc k now l'))"
  unfolding limiter_law_def by blast

lemma bucket_other:
  assumes "limiter_law mw bucket" and "\<not> counted dp sc u r"
  shows "bucket sc u (after_hit mw dp r l) = bucket sc u l"
proof -
  have "bucket sc u (snd (hit mw sc' v now l)) = bucket sc u l" if "(sc, u) \<noteq> (sc', v)" for sc' v now
    using assms(1) that by (simp add: limiter_law_def)
  with assms(2) show ?thesis
    by (auto simp: after_hit_def counted_def split: request_body.splits sum.splits option.splits)
qed

lemma bucket_counted:
  assumes "limiter_law mw bucket" and "counted dp sc u r" and "bucket sc u l = bucket sc u l'"
  shows "bucket sc u (after_hit mw dp r l) = bucket sc u (after_hit mw dp r l')"
proof -
  from assms(2) obtain c where "body r = Call c" "limit_scope c = Some sc"
    "current_user dp (arrival r) (token r) = Inr u"
    by (auto simp: counted_def split: request_body.splits)
  with conjunct2 [OF limiter_agrees [OF assms(1,3)]] show ?thesis by (simp add: after_hit_def)
qed


text \<open>An answer of the handler of \<open>/ask\<close> to a user's question, in some state of the service.\<close>

definition handler_answer :: "deployment \<Rightarrow> arrived \<Rightarrow> string \<Rightarrow> string \<Rightarrow> ask_response \<Rightarrow> bool" where
  "handler_answer dp r u q a \<longleftrightarrow> body r = Call (Ask q) \<and> current_user dp (arrival r) (token r) = Inr u \<and>
     (\<exists>s :: service. fst (ask (dp_graph dp (memory s) (arrival r)) (dp_services dp) q u (owners (session s)) (saver s)) = Inr a)"

definition answered_entries :: "deployment \<Rightarrow> arrived list \<Rightarrow> (string \<times> ask_response) set" where
  "answered_entries dp rs = {(ask_cache_key CACHE_NAMESPACE u q, a) | u q a. \<exists>r \<in> set rs. handler_answer dp r u q a}"

lemma cached_ask_entries:
  assumes "cache_law mw entries" and "cached_ask mw dp now name q s c = ((b, s'), c')" and "(k, a) \<in> entries c'"
  shows "(k, a) \<in> entries c \<or> k = ask_cache_key CACHE_NAMESPACE name q \<and>
    fst (ask (dp_graph dp (memory s) now) (dp_services dp) q name (owners (session s)) (saver s)) = Inr a"
proof -
  have "entries (cache_set mw k' a' ttl now c) \<subseteq> insert (k', a') (entries c)" for k' a' ttl
    using assms(1) by (simp add: cache_law_def)
  with assms(2,3) show ?thesis
    by (auto simp: cached_ask_def Let_def split: option.splits sum.splits)
qed

lemma front_entries:
  assumes "cache_law mw entries"
  shows "entries (responses (snd (front_request mw dp r f))) \<subseteq>
    entries (responses f) \<union> answered_entries dp [r]"
proof (cases "body r")
  case (Call c)
  show ?thesis
  proof (cases "\<exists>q name l. c = Ask q \<and> current_user dp (arrival r) (token r) = Inr name \<and>
      admit mw dp r c (counters f) = (None, l)")
    case True
    then obtain q name l where c: "c = Ask q" and u: "current_user dp (arrival r) (token r) = Inr name"
      and a: "admit mw dp r c (counters f) = (None, l)" by blast
    obtain b s' c' where ask: "cached_ask mw dp (arrival r) name q (inner f) (responses f) = ((b, s'), c')"
      by (metis prod.collapse)
    have "responses (snd (front_request mw dp r f)) = c'"
      using Call c u a ask by (simp add: front_request_def serve_call_def)
    moreover have "entries c' \<subseteq> entries (responses f) \<union> answered_entries dp [r]"
      using cached_ask_entries [OF assms ask] Call c u
      by (auto simp: answered_entries_def handler_answer_def)
    ultimately show ?thesis by simp
  next
    case False
    then have "responses (snd (front_request mw dp r f)) = responses f"
      using Call by (auto simp: front_request_def serve_call_def
          split: sum.splits prod.splits option.splits call.splits)
    then show ?thesis by simp
  qed
qed (simp add: front_request_def split: prod.split)

lemma answered_entries_Cons: "answered_entries dp (r # rs) = answered_entries dp [r] \<union> answered_entries dp rs"
  by (auto simp: answered_entries_def)

lemma serve_all_entries:
  assumes "cache_law mw entries"
  shows "entries (responses (snd (serve_all (front_request mw dp) rs f))) \<subseteq>
    entries (responses f) \<union> answered_entries dp rs"
proof (induction rs arbitrary: f)
  case (Cons r rs)
  from Cons.IH [of "snd (front_request mw dp r f)"] front_entries [OF assms, of dp r f]
  show ?case unfolding answered_entries_Cons [of dp r rs] by (simp only: serve_all_Cons) blast
qed simp

text \<open>C14. The cache gives nobody another's answer. When no user name holds a colon, an answer of \<open>/ask\<close> after any
  sequence of requests from an empty cache is one the graph gave to this user for this very
  question: to this request or to an earlier one.\<close>
theorem cached_answer_is_own:
  assumes "cache_law mw entries" and "entries (responses f) = {}"
    and "\<And>v. map_of (dp_users dp) v \<noteq> None \<Longrightarrow> CHR '':'' \<notin> set v"
    and "body r = Call (Ask q)" and "current_user dp (arrival r) (token r) = Inr u"
    and "snd (serve_all (front_request mw dp) rs f) = f'"
    and "fst (front_request mw dp r f') = Inr (Asked a)"
  shows "\<exists>r' \<in> set (rs @ [r]). handler_answer dp r' u q a"
proof -
  let ?key = "ask_cache_key CACHE_NAMESPACE u q"
  obtain e l where adm: "admit mw dp r (Ask q) (counters f') = (e, l)" by (rule prod.exhaust)
  with assms(4,5,7) have e: "e = None" by (cases e) (simp_all add: front_request_def)
  obtain b s' c' where ask: "cached_ask mw dp (arrival r) u q (inner f') (responses f') = ((b, s'), c')"
    by (metis prod.collapse)
  with assms(4,5,7) adm e have b: "b = Inr (Asked a)" by (simp add: front_request_def serve_call_def)
  show ?thesis
  proof (cases "cache_get mw ?key (arrival r) (responses f')")
    case None
    with ask b have "fst (ask (dp_graph dp (memory (inner f')) (arrival r)) (dp_services dp) q u
        (owners (session (inner f'))) (saver (inner f'))) = Inr a"
      by (auto simp: cached_ask_def Let_def with_session_def keep_graph_def get_db_def
          split: prod.splits option.splits sum.splits if_splits)
    with assms(4,5) have "handler_answer dp r u q a" by (auto simp: handler_answer_def)
    then show ?thesis by simp
  next
    case (Some x)
    with ask b have "x = a"
      by (auto simp: cached_ask_def Let_def with_session_def get_db_def
          split: prod.splits option.splits sum.splits if_splits)
    moreover have "(?key, x) \<in> entries (responses f')"
      using assms(1) Some by (simp add: cache_law_def)
    ultimately have "(?key, a) \<in> answered_entries dp rs"
      using serve_all_entries [OF assms(1), of dp rs f] assms(2,6) by auto
    then obtain v q' r' where key: "?key = ask_cache_key CACHE_NAMESPACE v q'" and r': "r' \<in> set rs"
      and h: "handler_answer dp r' v q' a" by (auto simp: answered_entries_def)
    have "CHR '':'' \<notin> set u" "CHR '':'' \<notin> set v"
      using current_user_subject [OF assms(5)] h [unfolded handler_answer_def] current_user_subject assms(3)
      by blast+
    from ask_cache_key_separates [OF this key] r' h show ?thesis by auto
  qed
qed

section \<open>The load profile\<close>

text \<open>\<open>locustfile.py\<close>: every virtual user logs in with the same credentials, read from the
  environment, stops if that raises, and then issues its tasks with the token. A pause between
  tasks is one to two seconds.\<close>

definition USERNAME :: "(string \<times> string) list \<Rightarrow> string" where
  "USERNAME env = environ_get env ''DEMO_USERNAME'' ''admin''"

definition PASSWORD :: "(string \<times> string) list \<Rightarrow> string" where
  "PASSWORD env = environ_get env ''DEMO_PASSWORD'' ''locust-demo''"

definition wait_time :: "rat \<times> rat" where
  "wait_time = (1, 2)"

definition on_start :: "deployment \<Rightarrow> (string \<times> string) list \<Rightarrow> rat \<Rightarrow> exn + string" where
  "on_start dp env now =
     login (config_of dp) (dp_hasher dp) (dp_jwt dp) (dp_users dp) now (USERNAME env) (PASSWORD env)"

datatype load_task = Task_ask | Task_run_agent | Task_health

definition task_weights :: "(load_task \<times> nat) list" where
  "task_weights = [(Task_ask, 3), (Task_run_agent, 1), (Task_health, 2)]"

definition load_body :: "string \<Rightarrow> agent_request" where
  "load_body fresh = \<lparr>request_id = fresh, conversation_id = None,
     task_description = ''Summarise the most recent deployment.'', agent_id = ''load_test'',
     priority = 1, metadata = None\<rparr>"

text \<open>The request of a task, if it is one of the modelled routes; \<open>/health\<close> needs no service.\<close>

fun task_request :: "string \<Rightarrow> rat \<Rightarrow> string \<Rightarrow> string option \<Rightarrow> load_task \<Rightarrow> arrived option" where
  "task_request tok now fresh host Task_ask = Some \<lparr>arrival = now, uuid = fresh, token = Some tok,
     body = Call (Ask ''status report''), auth_scheme = ''Bearer'', client_host = host\<rparr>"
| "task_request tok now fresh host Task_run_agent = Some \<lparr>arrival = now, uuid = fresh, token = Some tok,
     body = Call (Run (load_body fresh)), auth_scheme = ''Bearer'', client_host = host\<rparr>"
| "task_request tok now fresh host Task_health = None"

lemma load_texts:
  "lower ''Bearer'' = ''bearer''" "list_all slug_char ''load_test''"
  "length ''Summarise the most recent deployment.'' = 37"
  by code_simp+

lemma load_body_valid: "valid_agent_request (load_body fresh)"
  using load_texts(2,3) by (simp only: valid_agent_request_def load_body_def agent_request.simps) simp

lemma task_request_sent:
  assumes "task_request tok now fresh host task = Some r"
  shows "arrival r = now \<and> token r = Some tok \<and> well_sent r \<and>
    (\<exists>c sc. body r = Call c \<and> limit_scope c = Some sc)"
  using assms load_texts(1) by (cases task) (auto simp: well_sent_def)

text \<open>The profile does what its comments say: the body of a run is a valid request, and until its
  token expires every request of every virtual user runs as the one account and is counted in that account's
  bucket, wherever it comes from.\<close>

theorem load_profile:
  assumes "jwt_law (dp_jwt dp)" and "jwt_nonempty (dp_jwt dp)"
    and "dp_users dp = seed_users (config_of dp) (dp_hasher dp)"
    and "on_start dp env t0 = Inr tok" and "USERNAME env \<noteq> []"
    and "task_request tok now fresh host task = Some r"
    and "now < of_int \<lfloor>t0 + of_int (60 * jwt_expire_minutes (config_of dp))\<rfloor>"
  shows "valid_agent_request (load_body fresh) \<and>
    current_user dp (arrival r) (token r) = Inr (USERNAME env) \<and>
    user_key (config_of dp) (dp_jwt dp) (arrival r) (auth_header r) (client_host r) = Inr (USERNAME env) \<and>
    (\<exists>c sc. body r = Call c \<and> limit_scope c = Some sc)"
proof -
  note r = task_request_sent [OF assms(6)]
  then have user: "current_user dp (arrival r) (token r) = Inr (USERNAME env)"
    using login_known_user [OF assms(1) _ assms(5), where st = "config_of dp" and h = "dp_hasher dp"]
      assms(3,4,7) by (simp add: on_start_def current_user_def)
  with key_is_user [OF assms(2) _ user] r load_body_valid show ?thesis by simp
qed

section \<open>Instances\<close>

text \<open>Counters that are never reset, and a cache that never forgets.\<close>

definition sample_middleware :: "(((string \<times> string) \<times> nat) list, (string \<times> ask_response) list) middleware" where
  "sample_middleware = \<lparr>hit = (\<lambda>sc k now l. let n = (case map_of l (sc, k) of None \<Rightarrow> 0 | Some n \<Rightarrow> n)
       in (n < 5, AList.update (sc, k) (Suc n) l)),
     cache_get = (\<lambda>k now c. map_of c k), cache_set = (\<lambda>k a ttl now c. (k, a) # c)\<rparr>"

lemma sample_limiter_law: "limiter_law sample_middleware (\<lambda>sc k l. map_of l (sc, k))"
  by (auto simp: limiter_law_def sample_middleware_def Let_def update_conv')

lemma sample_cache_law: "cache_law sample_middleware set"
  by (auto simp: cache_law_def sample_middleware_def dest: map_of_SomeD)

definition comes :: "string \<Rightarrow> call \<Rightarrow> arrived" where
  "comes name c = \<lparr>arrival = 0, uuid = ''u'', token = Some (sample_token name), body = Call c,
     auth_scheme = ''bearer'', client_host = Some ''10.0.0.1''\<rparr>"

definition empty_front :: "(((string \<times> string) \<times> nat) list, (string \<times> ask_response) list) front" where
  "empty_front = \<lparr>inner = empty_service, counters = [], responses = []\<rparr>"

lemma plain_jwt_nonempty: "jwt_nonempty plain_jwt"
  by (simp add: jwt_nonempty_def plain_jwt_def plain_claims_def)

lemma comes_user:
  assumes "name \<in> {''admin'', ''alice'', ''eve''}"
  shows "current_user sample_deployment (arrival (comes name c)) (token (comes name c)) = Inr name"
  using sample_user [OF assms] by (simp add: comes_def)

lemma comes_sent: "well_sent (comes name c)"
proof -
  have "lower ''bearer'' = ''bearer''" by code_simp
  then show ?thesis by (simp add: well_sent_def comes_def)
qed


lemma sample_answer:
  "case fst (front_request sample_middleware sample_deployment (comes ''alice'' (Ask ''hello''))
      (snd (serve_all (front_request sample_middleware sample_deployment)
        [comes ''alice'' (Ask ''hello'')] empty_front))) of
     Inr (Asked a) \<Rightarrow> ask_output a = ''ok'' | _ \<Rightarrow> False"
  by code_simp

theorem cached_answer_is_own_witness:
  "\<exists>a. ask_output a = ''ok'' \<and> handler_answer sample_deployment (comes ''alice'' (Ask ''hello'')) ''alice'' ''hello'' a"
proof -
  let ?r = "comes ''alice'' (Ask ''hello'')"
  obtain a where a: "fst (front_request sample_middleware sample_deployment ?r
      (snd (serve_all (front_request sample_middleware sample_deployment) [?r] empty_front))) = Inr (Asked a)"
    and out: "ask_output a = ''ok''"
    using sample_answer by (auto split: sum.splits answer.splits)
  have "\<exists>r' \<in> set ([?r] @ [?r]). handler_answer sample_deployment r' ''alice'' ''hello'' a"
    by (rule cached_answer_is_own [OF sample_cache_law _ _ _ comes_user refl a])
      (auto simp: empty_front_def comes_def)
  with out show ?thesis by auto
qed

end
