(* ===== verification/Spec2Isabelle.thy ===== *)
theory Spec2Isabelle
  imports Engine_Claims Engine_Types General_Reference Claim_Order Finance_Claims FS_Claims
    Code_Exec History GC Build_Once Research Endpoint_Claims Main_App Lifespan Mcp_Auth Risk
    Migrations Scripts Service_Claims Checkpoint_Claims Alembic_Env Wiring
    Toolset_Claims Overlap Front
begin

text \<open>
  Verification of the agentic enterprise service: a FastAPI application around a LangGraph
  agent (\<open>app/\<close>), the local MCP tool servers it calls (\<open>app/mcp/\<close>, \<open>app/tools/\<close>) and the
  internal finance API (\<open>internal_api/\<close>).

  The parts of the program and where they are modelled:

  \<^item> The main graph, \<open>app/graph/engine.py\<close>, is in \<open>Engine\<close>: the state and its reducers
    (\<open>graph_state\<close>, \<open>delta\<close>, \<open>apply_delta\<close>, \<open>merge_logs\<close>), one definition per node under the
    node function's name, the edges (\<open>next_node\<close>) and one superstep; \<open>Graph_Runtime\<close> runs
    supersteps under a limit. \<open>Engine_Props\<close> holds the invariants and the termination
    measure, \<open>Engine_Claims\<close> the properties, \<open>Engine_Types\<close> the well-formedness of the state and
    the final status, and \<open>General_Reference\<close> the drafting loop as one recursive function that
    the graph is proved equal to. The tools and the error text handed to the model
    (\<open>app/graph/tools.py\<close>) are in \<open>Tools\<close>; the guarded, cached build of both graphs and the
    unguarded one, as interleaved callers, in \<open>Build_Once\<close>.
  \<^item> The research graph, \<open>app/graph/research.py\<close>, and its route are in \<open>Research\<close>.
  \<^item> Thread ownership (\<open>app/graph/ownership.py\<close>), its table and the session's commit and
    rollback (\<open>app/database.py\<close>) are in \<open>Ownership\<close>, sequentially and as interleaved INSERT and
    SELECT steps; \<open>Claim_Order\<close> shows that the steps refine the sequential operation.
    Authentication (\<open>app/core/security.py\<close>, \<open>app/api/v1/auth.py\<close>) is in \<open>Auth\<close>.
  \<^item> Semantic memory, \<open>app/memory/vector_store.py\<close>, is in \<open>Memory\<close>.
  \<^item> Thread history (\<open>app/graph/history.py\<close>) is in \<open>History\<close>; checkpoint retention
    (\<open>app/graph/gc.py\<close> and the loop of \<open>app/main.py\<close>) in \<open>GC\<close>.
  \<^item> The routes of \<open>app/api/v1/endpoints.py\<close> are in \<open>Endpoints\<close>, over an interface to a
    compiled graph that \<open>engine_api\<close> implements by the main graph; their properties are in
    \<open>Endpoint_Claims\<close>. \<open>Main_App\<close> holds the middleware, the exception handlers and the smoke
    test of \<open>app/main.py\<close>, \<open>Lifespan\<close> its start-up and shutdown on an exit stack and the
    retention statistics.
  \<^item> What the routes rely on to read, resume, fork and edit a thread is the interface
    \<open>checkpointer\<close> in \<open>Checkpoints\<close>: runs only add checkpoints, to their own thread, and see no
    other. \<open>history_api\<close>, the main graph with a checkpoint after every superstep, implements it;
    \<open>Checkpoint_Claims\<close> shows what forking and editing do to a thread and to a resumed run.
    \<open>Checkpoint_Refines\<close> shows that this saver refines the single state per thread that
    \<open>engine_api\<close> keeps, by a simulation of every route that names no checkpoint; \<open>Overlap\<close>
    takes the runs of one thread apart into steps and shows what overlapping requests do to it.
  \<^item> The service as a whole is in \<open>Service\<close>: one state (session, checkpoints, research threads,
    memory), requests as a datatype, each route behind the dependencies its signature declares.
    \<open>Service_Props\<close> shows what each kind of request changes, \<open>Service_Claims\<close> what holds over
    every sequence of requests: who is served, what is never rewritten, who can reach or come to
    own a thread, and where a text found by a search or given to the model comes from.
  \<^item> \<open>Front\<close> puts the rate limit and the response cache of \<open>endpoints.py\<close> in front of the service,
    shows whose bucket a request is counted in and whose answer a cached one is, and holds the load
    profile of \<open>locustfile.py\<close>.
  \<^item> The schema migrations, \<open>alembic/\<close>, are in \<open>Migrations\<close>: their operations on a database, the
    revision chain, the transaction, and the metadata of \<open>app/models.py\<close> they must produce;
    \<open>Alembic_Env\<close> is the configuration \<open>env.py\<close> sets up before they run.
  \<^item> \<open>Wiring\<close> holds the constructors of the configured clients, the addresses and headers of the
    tool servers on both sides, and small glue: the saver's connection, the log filter, the
    demonstration block of \<open>engine.py\<close>.
  \<^item> The risk server, \<open>app/mcp/risk_server.py\<close>, is in \<open>Risk\<close>, on the rounding of double precision
    in \<open>Doubles\<close>.
  \<^item> The file server, \<open>app/mcp/fs_server.py\<close>, with the path jail of \<open>app/mcp/paths.py\<close>: \<open>Paths_Jail\<close>
    models a file system with symbolic links, \<open>Path.resolve\<close> and the jail; \<open>Jail_Props\<close> shows
    what resolution promises; \<open>Utf8\<close> is text encoding and newline translation; \<open>FS_Server\<close> the
    tools; \<open>FS_Props\<close> and \<open>FS_Claims\<close> what they leave outside and inside the root.
  \<^item> The finance tool: the API (\<open>Finance_Api\<close>), the client's token cache, sequentially and with
    coroutines sharing it (\<open>Oauth\<close>), the lookup with its retry and audit (\<open>Finance_Server\<close>),
    and the properties that span the three (\<open>Finance_Claims\<close>).
  \<^item> The sandboxed code executor, \<open>app/tools/code_executor.py\<close>, is in \<open>Code_Exec\<close>; the bearer
    gate of the tool servers, \<open>app/mcp/auth.py\<close>, in \<open>Mcp_Auth\<close>.
  \<^item> The tools as a whole are in \<open>Toolset\<close>: one state (files, containers, token cache, finance
    service, audit tables), tool calls as a datatype, each local or behind the gate of its
    server with the header the graph sends. \<open>Toolset_Claims\<close> shows, for every sequence of calls,
    what it can change, that the file audit accounts for every change, and that only the holder
    of a server's token reaches its tools; its locale \<open>tool_guarantee\<close> lifts a relation kept by
    the tools with effects to such sequences.
  \<^item> \<open>Scripts\<close> holds the health and graph routes and the three small programs beside the
    application (\<open>server.py\<close>, \<open>main_backup.py\<close>, \<open>verify_neural.py\<close>).
  \<^item> \<open>Config\<close> holds settings and exceptions, \<open>Schemas\<close> the request and response models, \<open>Json\<close>
    JSON values, \<open>Prelude\<close> the shared lemmas and fact collections.

  Interfaces. A raised exception is the left side of a sum, a mutated database or store a
  state passed and returned. Code that is not in the repository is an argument: the models,
  the tool node and the message reducer of the graph library (\<open>run_env\<close>), the embedding model
  and vector database (\<open>backend\<close>), the JWT and password libraries, the container engine, the
  checkpointer, clocks and timers. What is relied on is a named predicate that states
  documented behaviour (\<open>appends\<close>, \<open>services_ok\<close>, \<open>query_law\<close>, \<open>jwt_law\<close>, \<open>hasher_law\<close>, \<open>limiter_law\<close>,
  \<open>wait_for_law\<close> and the like), and the witnesses instantiate each. Interfaces inside the
  program are locales - runs of a graph under an invariant or a measure, ownership, the
  checkpointer, the shared token cache, a build behind or without a lock - interpreted on the model's definitions.

  Bounds and fuel. A run of a graph takes the number of supersteps its recursion limit
  allows as an argument; the properties say which number is enough (two plus twice the drafts
  left for a run off the technical path, 50 for 24 rounds of research) and when none is.
  Path resolution needs no fuel: the system's walk is bounded by the number of links it still
  expands, an argument, and the library's by the links it has not met yet. Python's integers are unbounded. Times are
  exact rationals; the risk score alone is computed in rounded doubles, whose overflow is far
  outside the inputs the server accepts.

  The service serves its requests, and the tools their calls, one after the other; the interleavings inside a request are
  modelled where several callers share one object (ownership claims, the token cache, the cached
  builds, the checkpoints of one thread). A reading of the checkpoint library's reserved node names is left out.

  Not modelled: the renderers of the graph's pictures, the limiter's counters and the cache's
  store (third-party; their keys are modelled and their documented laws are hypotheses), the
  constructors of pools and of the application object, the logging format, the texts that describe
  tools to the model, and the scheduling of virtual users by the load tool.
\<close>

end
